(* ===== verification/Go_Prelude.thy ===== *)
theory Go_Prelude
  imports Complex_Main "HOL-Library.Sublist" "HOL-Library.Multiset"
begin

text \<open>
  The vocabulary the components share: Go's dynamically typed values (\<open>any\<close>, as they
  occur in \<open>map[string]any\<close> documents and in GraphQL results), the string operations of
  package \<open>strings\<close>, the number formatting and parsing of \<open>fmt\<close> and \<open>strconv\<close>, and
  the list and map facts that the component proofs rest on.

  Conventions. Go strings are byte strings, so they are HOL \<open>string\<close>s. Block heights are
  \<open>int64\<close> in the source and \<open>int\<close> here: no height the code handles comes near
  \<open>2 ^ 63\<close>, and wrap-around is written out where the code multiplies or parses.
\<close>

named_theorems go_defs \<open>unfolding of small model definitions\<close>
named_theorems go_inv \<open>preservation facts used by the invariant proofs\<close>

type_synonym height = int
type_synonym hash = string
type_synonym docID = string

section \<open>Dynamically typed values\<close>

datatype any =
    ANil
  | AString string
  | AInt64 int
  | AInt int
  | AFloat64 real
  | ABool bool
  | AStrings "string list"
  | AMap "string \<Rightarrow> any option"
  | ASlice "any list"
  | AMaps "(string \<Rightarrow> any option) list"

type_synonym doc = "string \<Rightarrow> any option"

text \<open>
  A Go map read \<open>m[k]\<close> yields the zero value when the key is missing; for a
  \<open>map[string]any\<close> that is the nil interface. The comma-ok type assertion
  \<open>v, ok := x.(string)\<close> yields \<open>("", false)\<close> when it fails.
\<close>

definition mget :: "doc \<Rightarrow> string \<Rightarrow> any" where
  "mget m k = (case m k of None \<Rightarrow> ANil | Some v \<Rightarrow> v)"

fun as_string :: "any \<Rightarrow> string option" where
  "as_string (AString s) = Some s"
| "as_string _ = None"

fun as_map :: "any \<Rightarrow> doc option" where
  "as_map (AMap m) = Some m"
| "as_map _ = None"

definition string_or_empty :: "any \<Rightarrow> string" where
  "string_or_empty v = (case as_string v of None \<Rightarrow> [] | Some s \<Rightarrow> s)"

text \<open>Conversion of a \<open>float64\<close> to \<open>int64\<close> truncates towards zero.\<close>

definition trunc_real :: "real \<Rightarrow> int" where
  "trunc_real r = (if 0 \<le> r then \<lfloor>r\<rfloor> else \<lceil>r\<rceil>)"

lemma mget_upd [simp]: "mget (m(k \<mapsto> v)) k' = (if k' = k then v else mget m k')"
  by (simp add: mget_def)

lemma trunc_real_of_int [simp]: "trunc_real (of_int n) = n"
  by (simp add: trunc_real_def)

section \<open>Strings\<close>

text \<open>\<open>strings.Contains\<close>, \<open>strings.HasSuffix\<close>, \<open>strings.ToLower\<close> on ASCII bytes,
  \<open>strings.Join\<close>, \<open>strings.ReplaceAll\<close>.\<close>

definition contains :: "string \<Rightarrow> string \<Rightarrow> bool" where
  "contains s sub = sublist sub s"

definition lower_char :: "char \<Rightarrow> char" where
  "lower_char c = (let n = (of_char c :: nat) in if 65 \<le> n \<and> n \<le> 90 then char_of (n + 32) else c)"

definition to_lower :: "string \<Rightarrow> string" where
  "to_lower s = map lower_char s"

fun join :: "string \<Rightarrow> string list \<Rightarrow> string" where
  "join sep [] = []"
| "join sep [s] = s"
| "join sep (s # t # ss) = s @ sep @ join sep (t # ss)"

function replace_all :: "string \<Rightarrow> string \<Rightarrow> string \<Rightarrow> string" where
  "replace_all old new s =
     (if old = [] \<or> s = [] then s
      else if prefix old s then new @ replace_all old new (drop (length old) s)
      else hd s # replace_all old new (tl s))"
  by pat_completeness auto
termination
  by (relation "measure (\<lambda>(old, new, s). length s)") auto

declare replace_all.simps [simp del]

lemma contains_refl [simp]: "contains s s"
  by (simp add: contains_def)

lemma contains_appendI1 [intro]: "contains s sub \<Longrightarrow> contains (s @ t) sub"
  by (simp add: contains_def sublist_appendI sublist_append)

lemma contains_appendI2 [intro]: "contains t sub \<Longrightarrow> contains (s @ t) sub"
  by (simp add: contains_def sublist_append)

lemma contains_empty [simp]: "contains s []"
  by (simp add: contains_def)

lemma to_lower_empty_iff [simp]: "to_lower s = [] \<longleftrightarrow> s = []"
  by (simp add: to_lower_def)

lemma length_to_lower [simp]: "length (to_lower s) = length s"
  by (simp add: to_lower_def)

lemma to_lower_append [simp]: "to_lower (s @ t) = to_lower s @ to_lower t"
  by (simp add: to_lower_def)

lemma lower_char_idem [simp]: "lower_char (lower_char c) = lower_char c"
  by (auto simp: lower_char_def Let_def)

lemma to_lower_idem [simp]: "to_lower (to_lower s) = to_lower s"
  by (simp add: to_lower_def)

lemma set_join_subset: "set (join sep ss) \<subseteq> set sep \<union> \<Union> (set ` set ss)"
  by (induction sep ss rule: join.induct) auto

text \<open>
  A separator character that occurs in no part makes \<open>join\<close> injective up to the
  difference between no part and one empty part.
\<close>

lemma append_sep_inject:
  assumes "c \<notin> set a" and "c \<notin> set b" and "a @ c # x = b @ c # y"
  shows "a = b \<and> x = y"
  using assms
proof (induction a arbitrary: b)
  case Nil
  then show ?case by (cases b) auto
next
  case (Cons d a)
  then show ?case by (cases b) auto
qed

lemma join_eq_Nil_iff: "join [c] ss = [] \<longleftrightarrow> ss = [] \<or> ss = [[]]"
  by (cases "([c], ss)" rule: join.cases) auto

lemma join_no_sep_single:
  "c \<notin> set (join [c] (s # ss)) \<Longrightarrow> ss = []"
  by (cases ss) auto

lemma join_inject:
  assumes "\<forall>s \<in> set ss. c \<notin> set s" and "\<forall>t \<in> set ts. c \<notin> set t"
    and "ss \<noteq> []" and "ts \<noteq> []" and "join [c] ss = join [c] ts"
  shows "ss = ts"
  using assms
proof (induction ss arbitrary: ts)
  case Nil
  then show ?case by simp
next
  case (Cons s ss)
  obtain t tt where ts: "ts = t # tt" using Cons.prems(4) by (cases ts) auto
  show ?case
  proof (cases ss)
    case Nil
    then have "c \<notin> set (join [c] ts)" using Cons.prems by (simp flip: Cons.prems(5))
    then have "tt = []" unfolding ts by (rule join_no_sep_single)
    with Nil ts Cons.prems show ?thesis by simp
  next
    case (Cons s' ss')
    note ss = this
    show ?thesis
    proof (cases tt)
      case Nil
      then have "c \<notin> set (join [c] (s # ss))" using ts Cons.prems by simp
      then show ?thesis using ss join_no_sep_single by fastforce
    next
      case (Cons t' tt')
      have eq: "s @ c # join [c] ss = t @ c # join [c] tt"
        using Cons.prems(5) ss Cons ts by simp
      have "s = t \<and> join [c] ss = join [c] tt"
        using append_sep_inject [OF _ _ eq] Cons.prems(1,2) ts by simp
      moreover have "ss = tt" if "join [c] ss = join [c] tt"
        using Cons.IH [of tt] that Cons.prems(1,2) ss Cons ts by simp
      ultimately show ?thesis using ts by simp
    qed
  qed
qed

section \<open>Numbers as text\<close>

definition digit_char :: "nat \<Rightarrow> char" where
  "digit_char d = ''0123456789abcdef'' ! d"

text \<open>The digits of \<open>n\<close> in a base from 2 to 16, most significant first
  (\<open>fmt\<close>'s \<open>%d\<close> and \<open>%x\<close> on a non-negative value).\<close>

function nat_text :: "nat \<Rightarrow> nat \<Rightarrow> string" where
  "nat_text b n = (if b < 2 \<or> n < b then [digit_char n] else nat_text b (n div b) @ [digit_char (n mod b)])"
  by pat_completeness auto
termination
  by (relation "measure snd") (auto intro: div_less_dividend)

declare nat_text.simps [simp del]

definition itoa :: "int \<Rightarrow> string" where
  "itoa n = (if n < 0 then CHR ''-'' # nat_text 10 (nat (- n)) else nat_text 10 (nat n))"

text \<open>\<open>strconv\<close>'s digit classes: decimal digits and letters, upper case folded.\<close>

definition digit_value :: "char \<Rightarrow> nat option" where
  "digit_value c = (let n = (of_char (lower_char c) :: nat) in
     if 48 \<le> n \<and> n \<le> 57 then Some (n - 48)
     else if 97 \<le> n \<and> n \<le> 122 then Some (n - 87)
     else None)"

lemma less_16_cases:
  "(d::nat) < 16 \<Longrightarrow> d = 0 \<or> d = 1 \<or> d = 2 \<or> d = 3 \<or> d = 4 \<or> d = 5 \<or> d = 6 \<or> d = 7
    \<or> d = 8 \<or> d = 9 \<or> d = 10 \<or> d = 11 \<or> d = 12 \<or> d = 13 \<or> d = 14 \<or> d = 15"
  by presburger

lemma digit_value_digit_char:
  assumes "d < 16"
  shows "digit_value (digit_char d) = Some d"
  using less_16_cases [OF assms]
  by (elim disjE; simp add: digit_value_def digit_char_def lower_char_def Let_def)

lemma digit_char_not_sep:
  assumes "d < 16"
  shows "digit_char d \<noteq> CHR ''_'' \<and> digit_char d \<noteq> CHR ''-'' \<and> digit_char d \<noteq> CHR ''+''
    \<and> digit_char d \<noteq> CHR ''x'' \<and> lower_char (digit_char d) = digit_char d"
  using less_16_cases [OF assms]
  by (elim disjE; simp add: digit_char_def lower_char_def Let_def)

lemma nat_text_not_Nil [simp]: "nat_text b n \<noteq> []"
  by (subst nat_text.simps) simp

lemma nat_text_chars:
  "2 \<le> b \<Longrightarrow> c \<in> set (nat_text b n) \<Longrightarrow> \<exists>d < b. c = digit_char d"
proof (induction b n rule: nat_text.induct)
  case (1 b n)
  show ?case
  proof (cases "n < b")
    case True
    with 1 show ?thesis by (auto simp: nat_text.simps [of b n])
  next
    case False
    have "\<exists>d < b. digit_char (n mod b) = digit_char d"
      using 1(2) by (intro exI [of _ "n mod b"]) simp
    with 1 False show ?thesis by (auto simp: nat_text.simps [of b n])
  qed
qed

lemma digit_char_inject: "d < 16 \<Longrightarrow> e < 16 \<Longrightarrow> digit_char d = digit_char e \<longleftrightarrow> d = e"
  using digit_value_digit_char by (metis option.inject)

lemma nat_text_inject: "2 \<le> b \<Longrightarrow> b \<le> 16 \<Longrightarrow> nat_text b n = nat_text b m \<longleftrightarrow> n = m"
proof (induction b n arbitrary: m rule: nat_text.induct)
  case (1 b n)
  have single: "length (nat_text b k) = 1 \<longleftrightarrow> k < b" for k
    using 1(2) by (subst nat_text.simps) auto
  show ?case
  proof (cases "n < b \<or> m < b")
    case True
    then show ?thesis using 1(2,3) single [of n] single [of m] digit_char_inject [of n m]
      by (auto simp: nat_text.simps [of b n] nat_text.simps [of b m] not_sym [OF nat_text_not_Nil] split: if_splits)
  next
    case False
    then have "nat_text b n = nat_text b m \<longleftrightarrow> n div b = m div b \<and> n mod b = m mod b"
      using 1 digit_char_inject [of "n mod b" "m mod b"] less_le_trans [of "n mod b" b 16] less_le_trans [of "m mod b" b 16]
      by (simp add: nat_text.simps [of b n] nat_text.simps [of b m])
    then show ?thesis by (metis div_mult_mod_eq)
  qed
qed

lemma itoa_chars: "c \<in> set (itoa n) \<Longrightarrow> c = CHR ''-'' \<or> (\<exists>d < 10. c = digit_char d)"
  using nat_text_chars [of 10 c] by (auto simp: itoa_def split: if_splits)

lemma itoa_inject [simp]: "itoa n = itoa m \<longleftrightarrow> n = m"
proof -
  have "CHR ''-'' \<notin> set (nat_text 10 k)" for k
    proof
    assume "CHR ''-'' \<in> set (nat_text 10 k)"
    then obtain d where "d < 10" "CHR ''-'' = digit_char d" using nat_text_chars [of 10 "CHR ''-''" k] by auto
    with digit_char_not_sep [of d] show False by simp
  qed
  then have "CHR ''-'' # xs \<noteq> nat_text 10 k" "nat_text 10 k \<noteq> CHR ''-'' # xs" for k xs by (metis list.set_intros(1))+
  then show ?thesis by (auto simp: itoa_def nat_text_inject)
qed

section \<open>Lists in chunks\<close>

text \<open>The half-open windows \<open>xs[i : min(i + k, len)]\<close> for \<open>i = 0, k, 2k, \<dots>\<close>.\<close>

function chunks :: "nat \<Rightarrow> 'a list \<Rightarrow> 'a list list" where
  "chunks k xs = (if k = 0 \<or> xs = [] then [] else take k xs # chunks k (drop k xs))"
  by pat_completeness auto
termination
  by (relation "measure (\<lambda>(k, xs). length xs)") auto

declare chunks.simps [simp del]

lemma chunks_Nil [simp]: "chunks k [] = []"
  by (subst chunks.simps) simp

lemma concat_chunks: "0 < k \<Longrightarrow> concat (chunks k xs) = xs"
proof (induction k xs rule: chunks.induct)
  case (1 k xs)
  then show ?case by (subst chunks.simps) auto
qed

lemma chunks_bounds: "0 < k \<Longrightarrow> c \<in> set (chunks k xs) \<Longrightarrow> c \<noteq> [] \<and> length c \<le> k"
proof (induction k xs rule: chunks.induct)
  case (1 k xs)
  show ?case
  proof (cases "xs = []")
    case False
    with 1 show ?thesis by (subst (asm) chunks.simps) auto
  qed (use 1 in simp)
qed

section \<open>Sorting\<close>

text \<open>
  \<open>sort.Slice\<close> is not stable: all it promises is a permutation of its input that is
  ordered by the key. Operations that call it take the sorting function as a parameter
  and their theorems hold for every function with this contract.
\<close>

definition sorts_by :: "('a \<Rightarrow> 'k::linorder) \<Rightarrow> ('a list \<Rightarrow> 'a list) \<Rightarrow> bool" where
  "sorts_by key srt \<longleftrightarrow> (\<forall>xs. mset (srt xs) = mset xs \<and> sorted (map key (srt xs)))"

lemma sorts_by_sort_key: "sorts_by key (sort_key key)"
  by (simp add: sorts_by_def)

lemma sorts_by_mset: "sorts_by key srt \<Longrightarrow> mset (srt xs) = mset xs"
  by (simp add: sorts_by_def)

lemma sorts_by_set: "sorts_by key srt \<Longrightarrow> set (srt xs) = set xs"
  by (metis sorts_by_mset set_mset_mset)

lemma sorts_by_length: "sorts_by key srt \<Longrightarrow> length (srt xs) = length xs"
  by (metis sorts_by_mset size_mset)

lemma sorts_by_sorted: "sorts_by key srt \<Longrightarrow> sorted (map key (srt xs))"
  by (simp add: sorts_by_def)

lemma sorts_by_take_drop:
  assumes "sorts_by key srt" and "x \<in> set (take n (srt xs))" and "y \<in> set (drop n (srt xs))"
  shows "key x \<le> key y"
proof -
  have "sorted (map key (take n (srt xs)) @ map key (drop n (srt xs)))"
    using sorts_by_sorted [OF assms(1), of xs] by (metis append_take_drop_id map_append)
  then show ?thesis using assms(2,3) by (simp add: sorted_append)
qed

end
