(* ===== verification/Go_Errors.thy ===== *)
theory Go_Errors
  imports Go_Prelude
begin

text \<open>
  Package \<open>pkg/errors\<close>: the error values the whole program passes around.

  A Go error is a chain. A leaf is a package-level sentinel (compared by identity, so each
  is named by its message) or a plain message; \<open>fmt.Errorf\<close> with \<open>%w\<close> wraps one or two
  errors inside a text; the four \<open>IndexerError\<close> types embed a \<open>baseError\<close>. The program
  classifies errors in two ways: by substring of the rendered message (\<open>IsErrNotFound\<close> and
  its siblings) and by the first \<open>IndexerError\<close> in the chain (\<open>errors.AsType\<close>).
\<close>

section \<open>Types (types.go)\<close>

datatype Severity = Info | Warning | Error | Critical

datatype RetryBehavior = NonRetryable | Retryable | RetryableWithBackoff

datatype error_kind = NetworkError | DataError | StorageError | SystemError

record ErrorContext =
  Component :: string
  Operation :: string
  BlockNumber :: "int option"
  TxHash :: "string option"
  Timestamp :: int
  Metadata :: "string \<Rightarrow> any option"

datatype goerror =
    Sentinel string
  | ErrMsg string
  | Wrapped string goerror string
  | Wrapped2 string goerror string goerror string
  | Indexer error_kind base_error
and base_error = BaseError (code: string) (message: string) (severity: Severity)
    (retryable: RetryBehavior) (err_context: ErrorContext) (inputData: string)
    (underlying: "goerror option")

type_synonym 'a result = "goerror + 'a"

fun Severity_String :: "Severity \<Rightarrow> string" where
  "Severity_String Info = ''INFO''"
| "Severity_String Warning = ''WARNING''"
| "Severity_String Error = ''ERROR''"
| "Severity_String Critical = ''CRITICAL''"

fun RetryBehavior_String :: "RetryBehavior \<Rightarrow> string" where
  "RetryBehavior_String NonRetryable = ''NON_RETRYABLE''"
| "RetryBehavior_String Retryable = ''RETRYABLE''"
| "RetryBehavior_String RetryableWithBackoff = ''RETRYABLE_WITH_BACKOFF''"

text \<open>\<open>Error()\<close> of every error value.\<close>

fun error_text :: "goerror \<Rightarrow> string" and base_text :: "base_error \<Rightarrow> string" where
  "error_text (Sentinel s) = s"
| "error_text (ErrMsg s) = s"
| "error_text (Wrapped p e q) = p @ error_text e @ q"
| "error_text (Wrapped2 p e q f r) = p @ error_text e @ q @ error_text f @ r"
| "error_text (Indexer k b) = base_text b"
| "base_text (BaseError c m s r ctx i None) = ''['' @ c @ ''] '' @ m"
| "base_text (BaseError c m s r ctx i (Some e)) = ''['' @ c @ ''] '' @ m @ '': '' @ error_text e"

text \<open>\<open>errors.Is\<close>: a sentinel occurs in the chain. \<open>errors.AsType\<close>: the first
  \<open>IndexerError\<close> of the chain, in pre-order.\<close>

fun errors_Is :: "goerror \<Rightarrow> string \<Rightarrow> bool" and base_Is :: "base_error \<Rightarrow> string \<Rightarrow> bool" where
  "errors_Is (Sentinel s) t = (s = t)"
| "errors_Is (ErrMsg s) t = False"
| "errors_Is (Wrapped p e q) t = errors_Is e t"
| "errors_Is (Wrapped2 p e q f r) t = (errors_Is e t \<or> errors_Is f t)"
| "errors_Is (Indexer k b) t = base_Is b t"
| "base_Is (BaseError c m s r ctx i None) t = False"
| "base_Is (BaseError c m s r ctx i (Some e)) t = errors_Is e t"

fun as_indexer :: "goerror \<Rightarrow> (error_kind \<times> base_error) option" where
  "as_indexer (Sentinel s) = None"
| "as_indexer (ErrMsg s) = None"
| "as_indexer (Wrapped p e q) = as_indexer e"
| "as_indexer (Wrapped2 p e q f r) =
     (case as_indexer e of None \<Rightarrow> as_indexer f | Some x \<Rightarrow> Some x)"
| "as_indexer (Indexer k b) = Some (k, b)"

text \<open>\<open>errors.As\<close> against one concrete type looks for that type anywhere in the chain, also
  below an \<open>IndexerError\<close> of another type (\<open>Unwrap\<close> yields the underlying error).\<close>

fun has_kind :: "error_kind \<Rightarrow> goerror \<Rightarrow> bool" and base_has_kind :: "error_kind \<Rightarrow> base_error \<Rightarrow> bool" where
  "has_kind t (Sentinel s) = False"
| "has_kind t (ErrMsg s) = False"
| "has_kind t (Wrapped p e q) = has_kind t e"
| "has_kind t (Wrapped2 p e q f r) = (has_kind t e \<or> has_kind t f)"
| "has_kind t (Indexer k b) = (k = t \<or> base_has_kind t b)"
| "base_has_kind t (BaseError c m s r ctx i None) = False"
| "base_has_kind t (BaseError c m s r ctx i (Some e)) = has_kind t e"

section \<open>Classification by message (utils.go)\<close>

abbreviation ErrStrNotFound :: string where "ErrStrNotFound \<equiv> ''not found''"
abbreviation ErrStrDoesNotExist :: string where "ErrStrDoesNotExist \<equiv> ''does not exist''"
abbreviation ErrStrAlreadyExists :: string where "ErrStrAlreadyExists \<equiv> ''already exists''"
abbreviation ErrStrCollectionAlreadyExists :: string where
  "ErrStrCollectionAlreadyExists \<equiv> ''collection already exists''"
abbreviation ErrStrTransactionConflict :: string where
  "ErrStrTransactionConflict \<equiv> ''transaction conflict''"
abbreviation ErrStrDocumentDeleted :: string where "ErrStrDocumentDeleted \<equiv> ''has been deleted''"

text \<open>The Go predicates take a possibly nil error; \<open>None\<close> is nil.\<close>

definition IsErrNotFound :: "goerror option \<Rightarrow> bool" where
  "IsErrNotFound err = (case err of None \<Rightarrow> False
     | Some e \<Rightarrow> contains (error_text e) ErrStrNotFound \<or> contains (error_text e) ErrStrDoesNotExist)"

definition IsErrAlreadyExists :: "goerror option \<Rightarrow> bool" where
  "IsErrAlreadyExists err = (case err of None \<Rightarrow> False
     | Some e \<Rightarrow> contains (error_text e) ErrStrAlreadyExists)"

definition IsErrTransactionConflict :: "goerror option \<Rightarrow> bool" where
  "IsErrTransactionConflict err = (case err of None \<Rightarrow> False
     | Some e \<Rightarrow> contains (error_text e) ErrStrTransactionConflict)"

definition IsErrDocumentDeleted :: "goerror option \<Rightarrow> bool" where
  "IsErrDocumentDeleted err = (case err of None \<Rightarrow> False
     | Some e \<Rightarrow> contains (error_text e) ErrStrDocumentDeleted)"

section \<open>Classification by type (utils.go)\<close>

definition IsRetryable :: "goerror \<Rightarrow> bool" where
  "IsRetryable err = (case as_indexer err of None \<Rightarrow> False | Some (k, b) \<Rightarrow> retryable b \<noteq> NonRetryable)"

definition IsRetryableWithBackoff :: "goerror \<Rightarrow> bool" where
  "IsRetryableWithBackoff err =
     (case as_indexer err of None \<Rightarrow> False | Some (k, b) \<Rightarrow> retryable b = RetryableWithBackoff)"

definition IsCritical :: "goerror \<Rightarrow> bool" where
  "IsCritical err = (case as_indexer err of None \<Rightarrow> False | Some (k, b) \<Rightarrow> severity b = Critical)"

definition IsNetworkError :: "goerror \<Rightarrow> bool" where
  "IsNetworkError err = has_kind NetworkError err"

definition IsDataError :: "goerror \<Rightarrow> bool" where
  "IsDataError err = has_kind DataError err"

definition IsStorageError :: "goerror \<Rightarrow> bool" where
  "IsStorageError err = has_kind StorageError err"

definition GetErrorCode :: "goerror \<Rightarrow> string" where
  "GetErrorCode err = (case as_indexer err of None \<Rightarrow> ''UNKNOWN'' | Some (k, b) \<Rightarrow> code b)"

text \<open>Durations are nanoseconds. The loop doubles while the attempt counter and the cap allow.\<close>

definition second :: int where
  "second = 1000000000"

fun backoff_loop :: "nat \<Rightarrow> int \<Rightarrow> int" where
  "backoff_loop 0 delay = delay"
| "backoff_loop (Suc n) delay = (if delay < 30 * second then backoff_loop n (delay * 2) else delay)"

definition GetRetryDelay :: "goerror \<Rightarrow> int \<Rightarrow> int" where
  "GetRetryDelay err attemptCount =
     (if \<not> IsRetryable err then 0
      else if IsRetryableWithBackoff err
      then min (backoff_loop (nat attemptCount) second) (30 * second)
      else second)"

section \<open>Constructors (constructors.go)\<close>

type_synonym ContextOption = "ErrorContext \<Rightarrow> ErrorContext"

text \<open>\<open>time.Now()\<close> is the argument \<open>now\<close>.\<close>

definition newBaseError ::
  "int \<Rightarrow> string \<Rightarrow> string \<Rightarrow> Severity \<Rightarrow> RetryBehavior \<Rightarrow> string \<Rightarrow> string \<Rightarrow> string \<Rightarrow>
   goerror option \<Rightarrow> ContextOption list \<Rightarrow> base_error" where
  "newBaseError now c msg sev retr component operation input underl opts =
     BaseError c msg sev retr
       (fold (\<lambda>opt ctx. opt ctx) opts
          \<lparr>Component = component, Operation = operation, BlockNumber = None, TxHash = None,
           Timestamp = now, Metadata = (\<lambda>_. None)\<rparr>)
       input underl"

definition WithBlockNumber :: "int \<Rightarrow> ContextOption" where
  "WithBlockNumber n ctx = ctx\<lparr>BlockNumber := Some n\<rparr>"

definition WithTxHash :: "string \<Rightarrow> ContextOption" where
  "WithTxHash h ctx = ctx\<lparr>TxHash := Some h\<rparr>"

definition WithMetadata :: "string \<Rightarrow> any \<Rightarrow> ContextOption" where
  "WithMetadata k v ctx = ctx\<lparr>Metadata := (Metadata ctx)(k \<mapsto> v)\<rparr>"

definition NewHTTPConnectionFailed where
  "NewHTTPConnectionFailed now cmpt op input u opts =
     Indexer NetworkError (newBaseError now ''HTTP_ERROR'' ''Failed to connect to HTTP endpoint''
       Error Retryable cmpt op input u opts)"

definition NewRPCTimeout where
  "NewRPCTimeout now cmpt op input u opts =
     Indexer NetworkError (newBaseError now ''RPC_TIMEOUT'' ''RPC request timed out''
       Error Retryable cmpt op input u opts)"

definition NewRPCConnectionFailed where
  "NewRPCConnectionFailed now cmpt op input u opts =
     Indexer NetworkError (newBaseError now ''RPC_CONNECTION_FAILED'' ''Failed to connect to RPC endpoint''
       Error Retryable cmpt op input u opts)"

definition NewRateLimited where
  "NewRateLimited now cmpt op input u opts =
     Indexer NetworkError (newBaseError now ''RATE_LIMITED'' ''Rate limited by external service''
       Warning RetryableWithBackoff cmpt op input u opts)"

definition NewInvalidHex where
  "NewInvalidHex now cmpt op input u opts =
     Indexer DataError (newBaseError now ''INVALID_HEX'' (''Invalid hexadecimal format: '' @ input)
       Error NonRetryable cmpt op input u opts)"

definition NewInvalidBlockFormat where
  "NewInvalidBlockFormat now cmpt op input u opts =
     Indexer DataError (newBaseError now ''INVALID_BLOCK_FORMAT'' ''Block data format is invalid''
       Error NonRetryable cmpt op input u opts)"

definition NewInvalidInputFormat where
  "NewInvalidInputFormat now cmpt op input u opts =
     Indexer DataError (newBaseError now ''INVALID_INPUT_FORMAT'' ''Input data format is invalid''
       Error NonRetryable cmpt op input u opts)"

definition NewParsingFailed where
  "NewParsingFailed now cmpt op input u opts =
     Indexer DataError (newBaseError now ''PARSING_FAILED'' (''Failed to parse '' @ input)
       Error NonRetryable cmpt op input u opts)"

definition NewDBConnectionFailed where
  "NewDBConnectionFailed now cmpt op input u opts =
     Indexer StorageError (newBaseError now ''DB_CONNECTION_FAILED'' ''Failed to connect to database''
       Critical Retryable cmpt op input u opts)"

definition NewQueryFailed where
  "NewQueryFailed now cmpt op input u opts =
     Indexer StorageError (newBaseError now ''QUERY_FAILED'' ''Database query execution failed''
       Error Retryable cmpt op input u opts)"

definition NewDocumentNotFound where
  "NewDocumentNotFound now cmpt op documentType input opts =
     Indexer StorageError (newBaseError now ''DOCUMENT_NOT_FOUND''
       (''Required '' @ documentType @ '' document not found'')
       Warning NonRetryable cmpt op input None opts)"

definition NewConfigurationError where
  "NewConfigurationError now cmpt op issue input u opts =
     Indexer SystemError (newBaseError now ''CONFIGURATION_ERROR'' (''Configuration error: '' @ issue)
       Critical NonRetryable cmpt op input u opts)"

definition NewServiceUnavailable where
  "NewServiceUnavailable now cmpt op service input u opts =
     Indexer SystemError (newBaseError now ''SERVICE_UNAVAILABLE'' (''Service unavailable: '' @ service)
       Critical RetryableWithBackoff cmpt op input u opts)"

definition WrapError :: "int \<Rightarrow> goerror option \<Rightarrow> string \<Rightarrow> string \<Rightarrow> (error_kind \<times> base_error) option" where
  "WrapError now err cmpt op = (case err of None \<Rightarrow> None
     | Some e \<Rightarrow> (case as_indexer e of Some x \<Rightarrow> Some x
        | None \<Rightarrow> Some (SystemError, newBaseError now ''WRAPPED_ERROR'' ''Wrapped standard error''
             Error NonRetryable cmpt op [] (Some e) [])))"

definition LogContext :: "goerror \<Rightarrow> doc" where
  "LogContext err = (case as_indexer err of
     Some (k, b) \<Rightarrow>
       (let ctx = err_context b;
            m0 = [''error_code'' \<mapsto> AString (code b),
                  ''severity'' \<mapsto> AString (Severity_String (severity b)),
                  ''retryable'' \<mapsto> AString (RetryBehavior_String (retryable b)),
                  ''component'' \<mapsto> AString (Component ctx),
                  ''operation'' \<mapsto> AString (Operation ctx),
                  ''timestamp'' \<mapsto> AInt64 (Timestamp ctx)];
            m1 = (case BlockNumber ctx of None \<Rightarrow> m0 | Some n \<Rightarrow> m0(''block_number'' \<mapsto> AInt64 n));
            m2 = (case TxHash ctx of None \<Rightarrow> m1 | Some h \<Rightarrow> m1(''tx_hash'' \<mapsto> AString h))
        in m2 ++ Metadata ctx)
   | None \<Rightarrow> [''error'' \<mapsto> AString (error_text err), ''error_type'' \<mapsto> AString ''standard_error''])"

text \<open>Sentinels the program compares with \<open>errors.Is\<close>, named by their message.\<close>

abbreviation context_Canceled :: string where "context_Canceled \<equiv> ''context canceled''"

abbreviation ErrBlockNumberCorrupt :: string where
  "ErrBlockNumberCorrupt \<equiv> ''block exists but has invalid or unparseable number field''"

section \<open>Lemmas\<close>

lemmas err_class_defs = IsErrNotFound_def IsErrAlreadyExists_def IsErrTransactionConflict_def
  IsErrDocumentDeleted_def

lemma err_class_None [simp]:
  "\<not> IsErrNotFound None" "\<not> IsErrAlreadyExists None" "\<not> IsErrTransactionConflict None"
  "\<not> IsErrDocumentDeleted None"
  by (simp_all add: err_class_defs)

text \<open>Wrapping with \<open>%w\<close> keeps every message classification: the retry policies upstream see
  through any number of wrappers.\<close>

lemma IsErrNotFound_Wrapped [intro]: "IsErrNotFound (Some e) \<Longrightarrow> IsErrNotFound (Some (Wrapped p e q))"
  by (auto simp: IsErrNotFound_def)

lemma IsErrAlreadyExists_Wrapped [intro]:
  "IsErrAlreadyExists (Some e) \<Longrightarrow> IsErrAlreadyExists (Some (Wrapped p e q))"
  by (auto simp: IsErrAlreadyExists_def)

lemma IsErrTransactionConflict_Wrapped [intro]:
  "IsErrTransactionConflict (Some e) \<Longrightarrow> IsErrTransactionConflict (Some (Wrapped p e q))"
  by (auto simp: IsErrTransactionConflict_def)

lemma IsErrDocumentDeleted_Wrapped [intro]:
  "IsErrDocumentDeleted (Some e) \<Longrightarrow> IsErrDocumentDeleted (Some (Wrapped p e q))"
  by (auto simp: IsErrDocumentDeleted_def)

lemma IsErrNotFound_NewDocumentNotFound [simp]:
  "IsErrNotFound (Some (NewDocumentNotFound now cmpt op t input opts))"
proof -
  have "contains (''Required '' @ t @ '' document '' @ ErrStrNotFound) ErrStrNotFound"
    by (intro contains_appendI2 contains_refl)
  then have "contains (''['' @ ''DOCUMENT_NOT_FOUND'' @ ''] '' @ ''Required '' @ t @ '' document '' @ ErrStrNotFound)
      ErrStrNotFound"
    by (intro contains_appendI2 contains_refl)
  then show ?thesis
    by (simp add: NewDocumentNotFound_def newBaseError_def IsErrNotFound_def)
qed

lemma backoff_loop_closed:
  assumes "0 < d"
  shows "min (backoff_loop n d) (30 * second) = min (d * 2 ^ n) (30 * second)"
  using assms
proof (induction n arbitrary: d)
  case 0
  then show ?case by simp
next
  case (Suc n)
  show ?case
  proof (cases "d < 30 * second")
    case True
    with Suc.IH [of "d * 2"] Suc.prems show ?thesis by (simp add: mult.assoc)
  next
    case False
    moreover have "d \<le> d * 2 ^ Suc n"
      using Suc.prems one_le_power [of "2::int" "Suc n"] by (simp add: mult_le_cancel_left1)
    ultimately show ?thesis by simp
  qed
qed

end
