(* ===== verification/Chain_Model.thy ===== *)
theory Chain_Model
  imports Go_Errors
begin

text \<open>
  Package \<open>pkg/chains\<close>: the chain-agnostic data (headers, document groups, collection files) and
  the adapter registry; and from \<open>pkg/chains/evm\<close> the collection names and schema files of the
  EVM family.
\<close>

section \<open>Data (chains.go)\<close>

record CollectionFile =
  TypeName :: string
  cf_Name :: string
  File :: string
  SDL :: string

record BlockHeader =
  Number :: height
  Hash :: hash
  ParentHash :: hash

record DocumentGroup =
  Collection :: string
  Docs :: "doc list"
  BatchSize :: int
  BlockNumField :: string
  BlockHashField :: string
  ParentHashField :: string

definition MergeSDL :: "CollectionFile list \<Rightarrow> string" where
  "MergeSDL files = join [CHR 0x0A, CHR 0x0A] (map SDL files)"

section \<open>The adapter registry (chains.go)\<close>

text \<open>The factories return values of interface types; those are type parameters here. A nil
  function is \<open>None\<close>.\<close>

record ChainConfig =
  ChainName :: string
  Network :: string
  Hub :: string
  Adapter :: string

record ('f, 'c, 'k) ChainFactories =
  FetcherFactory :: "(ChainConfig option \<Rightarrow> 'f result) option"
  ConverterFactory :: "(ChainConfig option \<Rightarrow> 'c result) option"
  CollectionsFactory :: "(ChainConfig option \<Rightarrow> 'k result) option"

type_synonym ('f, 'c, 'k) registry = "string \<Rightarrow> ('f, 'c, 'k) ChainFactories option"

abbreviation DefaultAdapterName :: string where "DefaultAdapterName \<equiv> ''evm''"
abbreviation ErrChainFactoryNotRegistered :: string where
  "ErrChainFactoryNotRegistered \<equiv> ''chain factory not registered''"
abbreviation ErrChainFactoryIncomplete :: string where
  "ErrChainFactoryIncomplete \<equiv> ''chain factory incomplete''"

text \<open>\<open>%q\<close> of a printable string.\<close>

definition quoted :: "string \<Rightarrow> string" where
  "quoted s = [CHR 0x22] @ concat (map (\<lambda>c. if c = CHR 0x22 \<or> c = CHR 0x5C then [CHR 0x5C, c] else [c]) s) @ [CHR 0x22]"

text \<open>\<open>None\<close>: the registration panics.\<close>

definition RegisterChain ::
  "string \<Rightarrow> ('f, 'c, 'k) ChainFactories \<Rightarrow> ('f, 'c, 'k) registry \<Rightarrow> ('f, 'c, 'k) registry option" where
  "RegisterChain name fs reg =
     (if FetcherFactory fs = None \<or> ConverterFactory fs = None \<or> CollectionsFactory fs = None then None
      else Some (reg(name \<mapsto> fs)))"

definition adapterName :: "ChainConfig option \<Rightarrow> string" where
  "adapterName cfg = (case cfg of None \<Rightarrow> DefaultAdapterName
     | Some c \<Rightarrow> if Adapter c = [] then DefaultAdapterName else Adapter c)"

definition NewFetcher :: "('f, 'c, 'k) registry \<Rightarrow> ChainConfig option \<Rightarrow> 'f result" where
  "NewFetcher reg cfg = (let name = adapterName cfg in
     case reg name of None \<Rightarrow> Inl (Wrapped [] (Sentinel ErrChainFactoryNotRegistered) ('': '' @ quoted name))
     | Some fs \<Rightarrow> (case FetcherFactory fs of
         None \<Rightarrow> Inl (Wrapped [] (Sentinel ErrChainFactoryIncomplete) ('': '' @ quoted name @ '' has no fetcher''))
       | Some f \<Rightarrow> f cfg))"

definition NewConverter :: "('f, 'c, 'k) registry \<Rightarrow> ChainConfig option \<Rightarrow> 'c result" where
  "NewConverter reg cfg = (let name = adapterName cfg in
     case reg name of None \<Rightarrow> Inl (Wrapped [] (Sentinel ErrChainFactoryNotRegistered) ('': '' @ quoted name))
     | Some fs \<Rightarrow> (case ConverterFactory fs of
         None \<Rightarrow> Inl (Wrapped [] (Sentinel ErrChainFactoryIncomplete) ('': '' @ quoted name @ '' has no converter''))
       | Some f \<Rightarrow> f cfg))"

definition NewCollections :: "('f, 'c, 'k) registry \<Rightarrow> ChainConfig option \<Rightarrow> 'k result" where
  "NewCollections reg cfg = (let name = adapterName cfg in
     case reg name of None \<Rightarrow> Inl (Wrapped [] (Sentinel ErrChainFactoryNotRegistered) ('': '' @ quoted name))
     | Some fs \<Rightarrow> (case CollectionsFactory fs of
         None \<Rightarrow> Inl (Wrapped [] (Sentinel ErrChainFactoryIncomplete) ('': '' @ quoted name @ '' has no collections''))
       | Some f \<Rightarrow> f cfg))"

section \<open>EVM collection names (evm/collections.go)\<close>

record CollectionNames =
  prefix_of :: string
  Block :: string
  BlockSignature :: string
  SnapshotSignature :: string
  Transaction :: string
  AccessListEntry :: string
  Log :: string

abbreviation DefaultCollectionPrefix :: string where "DefaultCollectionPrefix \<equiv> ''Ethereum__Mainnet''"

definition NewCollectionNames :: "string \<Rightarrow> CollectionNames" where
  "NewCollectionNames p = \<lparr>prefix_of = p, Block = p @ ''__Block'', BlockSignature = p @ ''__BlockSignature'',
     SnapshotSignature = p @ ''__SnapshotSignature'', Transaction = p @ ''__Transaction'',
     AccessListEntry = p @ ''__AccessListEntry'', Log = p @ ''__Log''\<rparr>"

definition AllCollections :: "CollectionNames \<Rightarrow> string list" where
  "AllCollections c = [Block c, BlockSignature c, SnapshotSignature c, Transaction c, AccessListEntry c, Log c]"

definition DefaultCollections :: "string list" where
  "DefaultCollections = [''Ethereum__Mainnet__Block'', ''Ethereum__Mainnet__BlockSignature'',
     ''Ethereum__Mainnet__SnapshotSignature'', ''Ethereum__Mainnet__Transaction'',
     ''Ethereum__Mainnet__AccessListEntry'', ''Ethereum__Mainnet__Log'']"

section \<open>EVM schema files (evm/schema_files.go)\<close>

text \<open>The embedded file system is the argument \<open>readFile\<close>; \<open>strings.TrimSpace\<close> strips ASCII
  white space at both ends.\<close>

abbreviation ErrEmptyCollectionFile :: string where "ErrEmptyCollectionFile \<equiv> ''collection file is empty''"

definition is_space :: "char \<Rightarrow> bool" where
  "is_space c \<longleftrightarrow> c \<in> {CHR 0x09, CHR 0x0A, CHR 0x0B, CHR 0x0C, CHR 0x0D, CHR 0x20}"

definition trim_space :: "string \<Rightarrow> string" where
  "trim_space s = rev (dropWhile is_space (rev (dropWhile is_space s)))"

definition readCollectionSDL :: "(string \<Rightarrow> string result) \<Rightarrow> string \<Rightarrow> string result" where
  "readCollectionSDL readFile filename =
     (case readFile (''collections/'' @ filename) of
        Inl e \<Rightarrow> Inl (Wrapped (''failed to read '' @ filename @ '': '') e [])
      | Inr data \<Rightarrow> (let content = trim_space data in
          if content = [] then Inl (Wrapped [] (Sentinel ErrEmptyCollectionFile) ('': '' @ filename))
          else Inr content))"

definition collection_specs :: "CollectionNames \<Rightarrow> (string \<times> string \<times> string) list" where
  "collection_specs c =
     [(Block c, ''block'', ''block.graphql''),
      (BlockSignature c, ''blockSignature'', ''blockSignature.graphql''),
      (SnapshotSignature c, ''snapshotSignature'', ''snapshotSignature.graphql''),
      (Transaction c, ''transaction'', ''transaction.graphql''),
      (AccessListEntry c, ''accessListEntry'', ''accessListEntry.graphql''),
      (Log c, ''log'', ''log.graphql'')]"

fun collect_files ::
  "(string \<Rightarrow> string result) \<Rightarrow> string \<Rightarrow> (string \<times> string \<times> string) list \<Rightarrow> CollectionFile list result" where
  "collect_files readFile p [] = Inr []"
| "collect_files readFile p ((t, n, f) # specs) =
     (case readCollectionSDL readFile f of Inl e \<Rightarrow> Inl e
      | Inr sdl \<Rightarrow> (case collect_files readFile p specs of Inl e \<Rightarrow> Inl e
         | Inr files \<Rightarrow> Inr (\<lparr>TypeName = t, cf_Name = n, File = f,
             SDL = replace_all DefaultCollectionPrefix p sdl\<rparr> # files)))"

definition CollectionFiles :: "(string \<Rightarrow> string result) \<Rightarrow> CollectionNames \<Rightarrow> CollectionFile list result" where
  "CollectionFiles readFile c = collect_files readFile (prefix_of c) (collection_specs c)"

definition MergedSDL :: "(string \<Rightarrow> string result) \<Rightarrow> CollectionNames \<Rightarrow> string result" where
  "MergedSDL readFile c = (case CollectionFiles readFile c of Inl e \<Rightarrow> Inl e | Inr files \<Rightarrow> Inr (MergeSDL files))"

section \<open>Lemmas\<close>

lemmas collection_name_defs = NewCollectionNames_def AllCollections_def

text \<open>No collection name of one chain is a collection name of a chain with another prefix.\<close>

definition collection_suffixes :: "string list" where
  "collection_suffixes = [''__Block'', ''__BlockSignature'', ''__SnapshotSignature'', ''__Transaction'',
     ''__AccessListEntry'', ''__Log'']"

lemma AllCollections_suffixes: "AllCollections (NewCollectionNames p) = map ((@) p) collection_suffixes"
  by (simp add: collection_name_defs collection_suffixes_def)

lemma suffixes_checked:
  "list_all (\<lambda>x. list_all (\<lambda>y. x = y \<or> drop (length x - length y) x \<noteq> y) collection_suffixes) collection_suffixes"
  by (simp add: collection_suffixes_def)

lemma suffix_free:
  assumes "x \<in> set collection_suffixes" and "y \<in> set collection_suffixes" and "x = z @ y"
  shows "z = []"
proof -
  have "drop (length x - length y) x = y" using assms(3) by simp
  then have "x = y" using suffixes_checked assms(1,2) by (auto simp: list_all_iff)
  then show ?thesis using assms(3) by simp
qed

lemma append_suffix_eq:
  assumes "x \<in> set collection_suffixes" and "y \<in> set collection_suffixes" and "p @ x = p' @ y"
  shows "p = p' \<and> x = y"
proof -
  obtain z where "p = p' @ z \<and> z @ x = y \<or> p @ z = p' \<and> x = z @ y"
    using append_eq_append_conv2 [THEN iffD1, OF assms(3)] ..
  then show ?thesis
  proof (elim disjE conjE)
    assume "p = p' @ z" and "z @ x = y"
    with suffix_free [OF assms(2,1), of z] show ?thesis by simp
  next
    assume "p @ z = p'" and "x = z @ y"
    with suffix_free [OF assms(1,2), of z] show ?thesis by simp
  qed
qed

lemma collect_files_types:
  "collect_files readFile p specs = Inr files \<Longrightarrow> map TypeName files = map fst specs \<and> map File files = map (snd \<circ> snd) specs"
  by (induction specs arbitrary: files rule: collect_files.induct) (auto split: sum.splits)

text \<open>\<open>RegisterChain\<close> keeps the registry complete, so the defensive branches are dead.\<close>

definition registry_complete :: "('f, 'c, 'k) registry \<Rightarrow> bool" where
  "registry_complete reg \<longleftrightarrow> (\<forall>name fs. reg name = Some fs \<longrightarrow>
     FetcherFactory fs \<noteq> None \<and> ConverterFactory fs \<noteq> None \<and> CollectionsFactory fs \<noteq> None)"

lemma RegisterChain_complete [go_inv]:
  "registry_complete reg \<Longrightarrow> RegisterChain name fs reg = Some reg' \<Longrightarrow> registry_complete reg'"
  by (auto simp: registry_complete_def RegisterChain_def split: if_splits)

section \<open>Properties\<close>

text \<open>The six collection names of a chain are distinct, and two chains with different
  prefixes have no collection name in common, so one database can hold several chains.\<close>

theorem collections_disjoint:
  shows "distinct (AllCollections (NewCollectionNames p))
    \<and> (set (AllCollections (NewCollectionNames p)) \<inter> set (AllCollections (NewCollectionNames p')) = {} \<or> p = p')"
proof (intro conjI)
  have "distinct collection_suffixes" by (simp add: collection_suffixes_def)
  then show "distinct (AllCollections (NewCollectionNames p))"
    by (simp add: AllCollections_suffixes distinct_map inj_on_def)
  have "p = p'" if "c \<in> (@) p ` set collection_suffixes" and "c \<in> (@) p' ` set collection_suffixes" for c
    using that append_suffix_eq by (elim imageE) blast
  then show "set (AllCollections (NewCollectionNames p)) \<inter> set (AllCollections (NewCollectionNames p')) = {} \<or> p = p'"
    unfolding AllCollections_suffixes set_map by blast
qed

end
