(* ===== verification/Hex_Codec.thy ===== *)
theory Hex_Codec
  imports Chain_Model
begin

text \<open>
  File \<open>pkg/utils/hex.go\<close>, with the part of \<open>strconv\<close> it stands on: \<open>ParseInt\<close> with its prefix
  detection, underscore rule, left-to-right digit loop and 64-bit range checks. Values are integers
  with the 64-bit limits written out. \<open>time.Now()\<close> inside an error value is the argument \<open>now\<close>.
\<close>

section \<open>\<open>strconv.ParseInt\<close>\<close>

abbreviation ErrSyntax :: string where "ErrSyntax \<equiv> ''invalid syntax''"
abbreviation ErrRange :: string where "ErrRange \<equiv> ''value out of range''"

datatype num_fault = SyntaxFault | RangeFault

definition NumError :: "string \<Rightarrow> num_fault \<Rightarrow> goerror" where
  "NumError s0 f = Wrapped (''strconv.ParseInt: parsing '' @ quoted s0 @ '': '')
     (Sentinel (case f of SyntaxFault \<Rightarrow> ErrSyntax | RangeFault \<Rightarrow> ErrRange)) []"

definition maxUint64 :: nat where
  "maxUint64 = 2 ^ 64 - 1"

text \<open>The digit loop. The flag \<open>us\<close> records an underscore.\<close>

fun parse_digits :: "bool \<Rightarrow> nat \<Rightarrow> string \<Rightarrow> nat \<Rightarrow> bool \<Rightarrow> num_fault + nat \<times> bool" where
  "parse_digits base0 base [] n us = Inr (n, us)"
| "parse_digits base0 base (c # cs) n us =
     (if c = CHR ''_'' \<and> base0 then parse_digits base0 base cs n True
      else case digit_value c of None \<Rightarrow> Inl SyntaxFault
      | Some d \<Rightarrow> if d \<ge> base then Inl SyntaxFault
          else if n * base + d > maxUint64 then Inl RangeFault
          else parse_digits base0 base cs (n * base + d) us)"

text \<open>\<open>underscoreOK\<close>: the state is the class of the last character, here whether it was a digit
  (or the base prefix), an underscore, or something else.\<close>

datatype saw = SawStart | SawDigit | SawUnderscore | SawOther

fun underscore_scan :: "bool \<Rightarrow> saw \<Rightarrow> string \<Rightarrow> bool" where
  "underscore_scan hx sw [] = (sw \<noteq> SawUnderscore)"
| "underscore_scan hx sw (c # cs) =
     (case digit_value c of
        Some d \<Rightarrow> if d < 10 \<or> hx \<and> d < 16 then underscore_scan hx SawDigit cs
                  else if sw = SawUnderscore then False else underscore_scan hx SawOther cs
      | None \<Rightarrow> if c = CHR ''_'' then (if sw \<noteq> SawDigit then False else underscore_scan hx SawUnderscore cs)
                else if sw = SawUnderscore then False else underscore_scan hx SawOther cs)"

definition is_letter :: "char \<Rightarrow> char \<Rightarrow> bool" where
  "is_letter l c \<longleftrightarrow> lower_char c = l"

definition underscoreOK :: "string \<Rightarrow> bool" where
  "underscoreOK s =
     (let s = (case s of c # cs \<Rightarrow> if c = CHR ''-'' \<or> c = CHR ''+'' then cs else s | [] \<Rightarrow> s)
      in case s of
        c # d # cs \<Rightarrow> if c = CHR ''0'' \<and> (is_letter (CHR ''b'') d \<or> is_letter (CHR ''o'') d \<or> is_letter (CHR ''x'') d)
            then underscore_scan (is_letter (CHR ''x'') d) SawDigit cs
            else underscore_scan False SawStart s
      | _ \<Rightarrow> underscore_scan False SawStart s)"

definition detect_base :: "string \<Rightarrow> nat \<times> string" where
  "detect_base s =
     (if s \<noteq> [] \<and> hd s = CHR ''0'' then
        (if length s \<ge> 3 \<and> is_letter (CHR ''b'') (s ! 1) then (2, drop 2 s)
         else if length s \<ge> 3 \<and> is_letter (CHR ''o'') (s ! 1) then (8, drop 2 s)
         else if length s \<ge> 3 \<and> is_letter (CHR ''x'') (s ! 1) then (16, drop 2 s)
         else (8, tl s))
      else (10, s))"

definition parse_uint :: "string \<Rightarrow> nat \<Rightarrow> num_fault + nat" where
  "parse_uint s base =
     (if s = [] then Inl SyntaxFault
      else let base0 = (base = 0);
               (b, digits) = (if base0 then detect_base s else (base, s))
           in case parse_digits base0 b digits 0 False of Inl f \<Rightarrow> Inl f
              | Inr (n, us) \<Rightarrow> if us \<and> \<not> underscoreOK s then Inl SyntaxFault else Inr n)"

text \<open>\<open>ParseInt(s, base, 64)\<close> returns a value next to the error: 0 on a syntax error, the nearest
  limit on a range error.\<close>

definition ParseInt :: "string \<Rightarrow> nat \<Rightarrow> int \<times> goerror option" where
  "ParseInt s base =
     (if s = [] then (0, Some (NumError s SyntaxFault))
      else let neg = (hd s = CHR ''-''); u = (if hd s = CHR ''+'' \<or> hd s = CHR ''-'' then tl s else s)
      in case parse_uint u base of
           Inl SyntaxFault \<Rightarrow> (0, Some (NumError s SyntaxFault))
         | Inl RangeFault \<Rightarrow> (if neg then - (2 ^ 63) else 2 ^ 63 - 1, Some (NumError s RangeFault))
         | Inr n \<Rightarrow> if \<not> neg \<and> n \<ge> 2 ^ 63 then (2 ^ 63 - 1, Some (NumError s RangeFault))
             else if neg \<and> n > 2 ^ 63 then (- (2 ^ 63), Some (NumError s RangeFault))
             else (if neg then - int n else int n, None))"

section \<open>\<open>hex.go\<close>\<close>

definition NumberToHex :: "int \<Rightarrow> string" where
  "NumberToHex n = ''0x'' @ (if n < 0 then CHR ''-'' # nat_text 16 (nat (- n)) else nat_text 16 (nat n))"

definition HexToInt :: "int \<Rightarrow> string \<Rightarrow> int result" where
  "HexToInt now s =
     (if s = [] then Inl (NewInvalidHex now ''utils'' ''HexToInt'' s None [])
      else case ParseInt s 0 of
        (r, Some err) \<Rightarrow> Inl (NewInvalidHex now ''utils'' ''HexToInt'' s (Some err) [])
      | (r, None) \<Rightarrow> Inr r)"

section \<open>Lemmas\<close>

lemma parse_digits_append:
  "parse_digits base0 base xs n us = Inr (m, us') \<Longrightarrow>
   parse_digits base0 base (xs @ ys) n us = parse_digits base0 base ys m us'"
  by (induction base0 base xs n us rule: parse_digits.induct) (auto split: option.splits if_splits)

text \<open>Reading the digits of \<open>n\<close> gives \<open>n\<close> back, without an underscore.\<close>

lemma parse_digits_nat_text:
  "2 \<le> b \<Longrightarrow> b \<le> 16 \<Longrightarrow> n \<le> maxUint64 \<Longrightarrow> parse_digits base0 b (nat_text b n) 0 False = Inr (n, False)"
proof (induction b n rule: nat_text.induct)
  case (1 b n)
  have dig: "parse_digits base0 b [digit_char d] m False = Inr (m * b + d, False)"
    if "d < b" "m * b + d \<le> maxUint64" for d m
    using that 1(3) digit_char_not_sep [of d] by (simp add: digit_value_digit_char)
  show ?case
  proof (cases "n < b")
    case True
    then show ?thesis using dig [of n 0] 1(4) by (simp add: nat_text.simps [of b n])
  next
    case False
    have le: "n div b \<le> maxUint64" using 1(4) div_le_dividend [of n b] by linarith
    have "parse_digits base0 b (nat_text b (n div b)) 0 False = Inr (n div b, False)"
      using 1 False le by simp
    then have "parse_digits base0 b (nat_text b n) 0 False
        = parse_digits base0 b [digit_char (n mod b)] (n div b) False"
      using 1(2) False by (simp add: nat_text.simps [of b n] parse_digits_append)
    also have "\<dots> = Inr (n, False)" using dig [of "n mod b" "n div b"] 1(2,4) by simp
    finally show ?thesis .
  qed
qed

lemma parse_digits_bound: "parse_digits base0 b s n us = Inr (m, us') \<Longrightarrow> n \<le> maxUint64 \<Longrightarrow> m \<le> maxUint64"
  by (induction base0 b s n us rule: parse_digits.induct) (auto split: option.splits if_splits)

lemma ParseInt_range: "ParseInt s base = (n, err) \<Longrightarrow> - (2 ^ 63) \<le> n \<and> n < 2 ^ 63"
  by (auto simp: ParseInt_def Let_def split: if_splits sum.splits num_fault.splits)

lemma nat_text_hd:
  assumes "2 \<le> b" and "b \<le> 16"
  shows "hd (nat_text b n) \<noteq> CHR ''-'' \<and> hd (nat_text b n) \<noteq> CHR ''+''"
proof -
  have "hd (nat_text b n) \<in> set (nat_text b n)" by simp
  then obtain d where "d < b" and d: "hd (nat_text b n) = digit_char d"
    using nat_text_chars assms(1) by blast
  then have "d < 16" using assms(2) by simp
  then show ?thesis unfolding d using digit_char_not_sep by blast
qed

lemma ParseInt_decimal:
  assumes "- (2 ^ 63) \<le> n" and "n < 2 ^ 63"
  shows "ParseInt (itoa n) 10 = (n, None)"
proof (cases "n < 0")
  case True
  then have "nat (- n) \<le> maxUint64" using assms by (simp add: maxUint64_def)
  then have "parse_digits False 10 (nat_text 10 (nat (- n))) 0 False = Inr (nat (- n), False)"
    by (intro parse_digits_nat_text) auto
  then show ?thesis using True assms by (simp add: ParseInt_def itoa_def parse_uint_def Let_def)
next
  case False
  then have "nat n \<le> maxUint64" using assms by (simp add: maxUint64_def)
  then have "parse_digits False 10 (nat_text 10 (nat n)) 0 False = Inr (nat n, False)"
    by (intro parse_digits_nat_text) auto
  then show ?thesis using False assms nat_text_hd [of 10 "nat n"]
    by (simp add: ParseInt_def itoa_def parse_uint_def Let_def nat_less_iff)
qed

lemma ParseInt_hex:
  assumes "0 \<le> n" and "n < 2 ^ 63"
  shows "ParseInt (NumberToHex n) 0 = (n, None)"
proof -
  have "nat n \<le> maxUint64" using assms by (simp add: maxUint64_def)
  then have "parse_digits True 16 (nat_text 16 (nat n)) 0 False = Inr (nat n, False)"
    by (intro parse_digits_nat_text) auto
  moreover have "detect_base (NumberToHex n) = (16, nat_text 16 (nat n))"
    using assms nat_text_not_Nil [of 16 "nat n"]
    by (cases "nat_text 16 (nat n)") (auto simp: detect_base_def NumberToHex_def is_letter_def lower_char_def)
  ultimately show ?thesis using assms
    by (simp add: ParseInt_def parse_uint_def NumberToHex_def Let_def nat_less_iff)
qed

text \<open>Decimal text also parses with base 0: a positive number does not start with a zero, and the
  text 0 is an empty octal number.\<close>

lemma nat_text_hd_nonzero: "2 \<le> b \<Longrightarrow> b \<le> 16 \<Longrightarrow> 0 < n \<Longrightarrow> hd (nat_text b n) \<noteq> CHR ''0''"
proof (induction b n rule: nat_text.induct)
  case (1 b n)
  show ?case
  proof (cases "n < b")
    case True
    then have "n < 16" "n \<noteq> 0" using 1 by auto
    then have "digit_char n \<noteq> digit_char 0"
      using digit_value_digit_char [of n] digit_value_digit_char [of 0] by auto
    then show ?thesis using True by (simp add: nat_text.simps [of b n] digit_char_def)
  next
    case False
    then have "0 < n div b" using 1 by (simp add: div_greater_zero_iff)
    then show ?thesis using 1 False by (simp add: nat_text.simps [of b n] hd_append)
  qed
qed

lemma ParseInt_auto_decimal:
  assumes "0 \<le> n" and "n < 2 ^ 63"
  shows "ParseInt (itoa n) 0 = (n, None)"
proof (cases "n = 0")
  case True
  have "nat_text 10 0 = ''0''" by (simp add: nat_text.simps [of 10 0] digit_char_def)
  then show ?thesis
    using True by (simp add: ParseInt_def itoa_def parse_uint_def detect_base_def Let_def)
next
  case False
  have "nat n \<le> maxUint64" using assms by (simp add: maxUint64_def)
  then have "parse_digits True 10 (nat_text 10 (nat n)) 0 False = Inr (nat n, False)"
    by (intro parse_digits_nat_text) auto
  moreover have "detect_base (nat_text 10 (nat n)) = (10, nat_text 10 (nat n))"
    using nat_text_hd_nonzero [of 10 "nat n"] False assms by (simp add: detect_base_def)
  ultimately show ?thesis using assms nat_text_hd [of 10 "nat n"]
    by (simp add: ParseInt_def parse_uint_def itoa_def Let_def nat_less_iff)
qed

lemma itoa_not_Nil [simp]: "itoa n \<noteq> []"
  by (simp add: itoa_def)

lemma HexToInt_decimal: "0 \<le> n \<Longrightarrow> n < 2 ^ 63 \<Longrightarrow> HexToInt now (itoa n) = Inr n"
  by (simp add: HexToInt_def ParseInt_auto_decimal)

section \<open>Properties\<close>

text \<open>The hexadecimal and the decimal text of a non-negative \<open>int64\<close> both parse back to the
  number, and whatever text parses yields a number in the \<open>int64\<close> range.\<close>

theorem HexToInt_roundtrip:
  assumes "0 \<le> n" and "n < 2 ^ 63"
  shows "HexToInt now (NumberToHex n) = Inr n \<and> HexToInt now (itoa n) = Inr n
    \<and> (\<forall>s m. HexToInt now s \<noteq> Inr m \<or> - (2 ^ 63) \<le> m \<and> m < 2 ^ 63)"
proof (intro conjI allI)
  show "HexToInt now (NumberToHex n) = Inr n"
    using ParseInt_hex [OF assms] by (simp add: HexToInt_def NumberToHex_def)
  show "HexToInt now (itoa n) = Inr n" by (rule HexToInt_decimal [OF assms])
  show "HexToInt now s \<noteq> Inr m \<or> - (2 ^ 63) \<le> m \<and> m < 2 ^ 63" for s m
    using ParseInt_range by (auto simp: HexToInt_def split: if_splits prod.splits option.splits)
qed

theorem HexToInt_roundtrip_witness: "HexToInt 0 (NumberToHex 19000000) = Inr 19000000"
  using HexToInt_roundtrip [of 19000000 0] by simp

end
