(* ===== verification/Evm_Stamper.thy ===== *)
theory Evm_Stamper
  imports Chain_Model
begin

text \<open>
  File \<open>pkg/chains/evm/link_stamper.go\<close>: the links \<open>_blockID\<close> and \<open>_transactionID\<close> between the
  documents of a block. The source mutates the document maps in place and leaves the documents
  before a failing one stamped, so \<open>StampBeforeWrite\<close> returns the documents next to the error, and
  \<open>RecordDocIDs\<close> the stamper next to it.
\<close>

section \<open>Model\<close>

record evmLinkStamper =
  aleParentRefs :: "hash list"
  cols :: CollectionNames
  txHashToID :: "hash \<Rightarrow> docID option"
  blockID :: docID

definition newEvmLinkStamper :: "CollectionNames \<Rightarrow> hash list \<Rightarrow> evmLinkStamper" where
  "newEvmLinkStamper c refs = \<lparr>aleParentRefs = refs, cols = c, txHashToID = (\<lambda>_. None), blockID = []\<rparr>"

abbreviation (input) err_bad_key :: "string \<Rightarrow> nat \<Rightarrow> string \<Rightarrow> goerror" where
  "err_bad_key kind j field \<equiv> ErrMsg (''link stamper: '' @ kind @ '' doc '' @ itoa (int j)
     @ '' has missing, non-string, or empty '' @ quoted field)"

abbreviation (input) err_no_block :: "string \<Rightarrow> nat \<Rightarrow> goerror" where
  "err_no_block kind j \<equiv> ErrMsg (''link stamper: no block docID registered before stamping '' @ kind
     @ '' doc '' @ itoa (int j))"

fun stamp_txs :: "docID \<Rightarrow> nat \<Rightarrow> doc list \<Rightarrow> goerror option \<times> doc list" where
  "stamp_txs bid j [] = (None, [])"
| "stamp_txs bid j (d # ds) =
     (if string_or_empty (mget d ''hash'') = [] then (Some (err_bad_key ''transaction'' j ''hash''), d # ds)
      else if bid = [] then (Some (err_no_block ''transaction'' j), d # ds)
      else let (e, ds') = stamp_txs bid (j + 1) ds in (e, d(''_blockID'' \<mapsto> AString bid) # ds'))"

fun stamp_logs :: "docID \<Rightarrow> (hash \<Rightarrow> docID option) \<Rightarrow> nat \<Rightarrow> doc list \<Rightarrow> goerror option \<times> doc list" where
  "stamp_logs bid m j [] = (None, [])"
| "stamp_logs bid m j (d # ds) =
     (let txHash = string_or_empty (mget d ''transactionHash'') in
      if txHash = [] then (Some (err_bad_key ''log'' j ''transactionHash''), d # ds)
      else if bid = [] then (Some (err_no_block ''log'' j), d # ds)
      else let d1 = d(''_blockID'' \<mapsto> AString bid);
               d2 = (case m txHash of Some txID \<Rightarrow> d1(''_transactionID'' \<mapsto> AString txID) | None \<Rightarrow> d1);
               (e, ds') = stamp_logs bid m (j + 1) ds
           in (e, d2 # ds'))"

fun stamp_ales :: "hash list \<Rightarrow> (hash \<Rightarrow> docID option) \<Rightarrow> nat \<Rightarrow> doc list \<Rightarrow> doc list" where
  "stamp_ales refs m j [] = []"
| "stamp_ales refs m j (d # ds) =
     (if j \<ge> length refs then d
      else case m (refs ! j) of Some txID \<Rightarrow> d(''_transactionID'' \<mapsto> AString txID) | None \<Rightarrow> d)
     # stamp_ales refs m (j + 1) ds"

definition err_unknown_collection :: "string \<Rightarrow> goerror" where
  "err_unknown_collection c = ErrMsg (''link stamper: unknown collection '' @ quoted c)"

definition StampBeforeWrite :: "evmLinkStamper \<Rightarrow> string \<Rightarrow> doc list \<Rightarrow> goerror option \<times> doc list" where
  "StampBeforeWrite s collection docs =
     (if collection = Block (cols s) then (None, docs)
      else if collection = Transaction (cols s) then stamp_txs (blockID s) 0 docs
      else if collection = Log (cols s) then stamp_logs (blockID s) (txHashToID s) 0 docs
      else if collection = AccessListEntry (cols s)
        then (None, stamp_ales (aleParentRefs s) (txHashToID s) 0 docs)
      else (Some (err_unknown_collection collection), docs))"

fun record_txs :: "docID list \<Rightarrow> nat \<Rightarrow> doc list \<Rightarrow> (hash \<Rightarrow> docID option) \<Rightarrow> goerror option \<times> (hash \<Rightarrow> docID option)" where
  "record_txs ids j [] m = (None, m)"
| "record_txs ids j (d # ds) m =
     (let txHash = string_or_empty (mget d ''hash'') in
      if txHash = [] then (Some (err_bad_key ''transaction'' j ''hash''), m)
      else record_txs ids (j + 1) ds (if j < length ids then m(txHash \<mapsto> ids ! j) else m))"

definition RecordDocIDs ::
  "evmLinkStamper \<Rightarrow> string \<Rightarrow> doc list \<Rightarrow> docID list \<Rightarrow> goerror option \<times> evmLinkStamper" where
  "RecordDocIDs s collection docs ids =
     (if collection = Block (cols s) then (None, if ids \<noteq> [] then s\<lparr>blockID := hd ids\<rparr> else s)
      else if collection = Transaction (cols s)
        then (let (e, m) = record_txs ids 0 docs (txHashToID s) in (e, s\<lparr>txHashToID := m\<rparr>))
      else if collection = Log (cols s) \<or> collection = AccessListEntry (cols s) then (None, s)
      else (Some (err_unknown_collection collection), s))"

section \<open>The interface \<open>BlockHandler.Store\<close> relies on\<close>

text \<open>
  Stamping changes link fields only and never the number of documents; recording never touches the
  documents (it has no access to change them) and accepts any number of docIDs.
\<close>

abbreviation link_fields :: "string set" where
  "link_fields \<equiv> {''_blockID'', ''_transactionID''}"

definition same_but_links :: "doc \<Rightarrow> doc \<Rightarrow> bool" where
  "same_but_links d d' \<longleftrightarrow> (\<forall>k. k \<in> link_fields \<or> d' k = d k)"

locale link_stamper =
  fixes stamp :: "'s \<Rightarrow> string \<Rightarrow> doc list \<Rightarrow> goerror option \<times> doc list"
    and record_ids :: "'s \<Rightarrow> string \<Rightarrow> doc list \<Rightarrow> docID list \<Rightarrow> goerror option \<times> 's"
  assumes stamp_frame: "list_all2 same_but_links docs (snd (stamp s c docs))"
    and record_short: "fst (stamp s c docs) = None \<Longrightarrow>
      fst (record_ids s c (snd (stamp s c docs)) ids) = None"
begin

lemma stamp_length: "length (snd (stamp s c docs)) = length docs"
  using stamp_frame list_all2_lengthD by metis

lemma stamp_frame_nth:
  "i < length docs \<Longrightarrow> k \<notin> link_fields \<Longrightarrow> (snd (stamp s c docs) ! i) k = (docs ! i) k"
  using stamp_frame [of docs s c] by (auto simp: list_all2_conv_all_nth same_but_links_def)

end

lemma same_but_links_refl [simp]: "same_but_links d d"
  by (simp add: same_but_links_def)

lemma same_but_links_upd [simp]:
  "same_but_links d d' \<Longrightarrow> same_but_links d (d'(''_blockID'' \<mapsto> v))"
  "same_but_links d d' \<Longrightarrow> same_but_links d (d'(''_transactionID'' \<mapsto> v))"
  by (auto simp: same_but_links_def)

lemma same_links_refl [simp]: "list_all2 same_but_links ds ds"
  by (simp add: list.rel_refl)

lemma stamp_txs_frame: "list_all2 same_but_links ds (snd (stamp_txs bid j ds))"
  by (induction bid j ds rule: stamp_txs.induct) (auto simp: split_def Let_def)

lemma stamp_logs_frame: "list_all2 same_but_links ds (snd (stamp_logs bid m j ds))"
  by (induction bid m j ds rule: stamp_logs.induct) (auto simp: split_def Let_def split: option.splits)

lemma stamp_ales_frame: "list_all2 same_but_links ds (stamp_ales refs m j ds)"
  by (induction refs m j ds rule: stamp_ales.induct) (auto split: option.splits)

lemma same_but_links_mget: "same_but_links d d' \<Longrightarrow> k \<notin> link_fields \<Longrightarrow> mget d' k = mget d k"
  unfolding mget_def same_but_links_def by metis

lemma stamp_txs_ok_keys: "fst (stamp_txs bid j ds) = None \<Longrightarrow> list_all (\<lambda>d. string_or_empty (mget d ''hash'') \<noteq> []) ds"
  by (induction bid j ds rule: stamp_txs.induct) (auto simp: split_def Let_def split: if_splits)

lemma record_txs_ok: "list_all (\<lambda>d. string_or_empty (mget d ''hash'') \<noteq> []) ds \<Longrightarrow> fst (record_txs ids j ds m) = None"
  by (induction ids j ds m rule: record_txs.induct) (auto simp: Let_def)

lemma keys_frame:
  "list_all2 same_but_links ds ds' \<Longrightarrow> list_all (\<lambda>d. string_or_empty (mget d ''hash'') \<noteq> []) ds \<Longrightarrow>
   list_all (\<lambda>d. string_or_empty (mget d ''hash'') \<noteq> []) ds'"
  by (induction rule: list_all2_induct) (auto simp: same_but_links_mget)

interpretation els: link_stamper StampBeforeWrite RecordDocIDs
proof
  fix docs s c and ids :: "docID list"
  show "list_all2 same_but_links docs (snd (StampBeforeWrite s c docs))"
    by (simp add: StampBeforeWrite_def stamp_txs_frame stamp_logs_frame stamp_ales_frame)
  assume ok: "fst (StampBeforeWrite s c docs) = None"
  show "fst (RecordDocIDs s c (snd (StampBeforeWrite s c docs)) ids) = None"
  proof (cases "c \<noteq> Block (cols s) \<and> c = Transaction (cols s)")
    case True
    then have "list_all (\<lambda>d. string_or_empty (mget d ''hash'') \<noteq> []) (snd (stamp_txs (blockID s) 0 docs))"
      using ok keys_frame [OF stamp_txs_frame stamp_txs_ok_keys, of "blockID s" 0 docs]
      by (auto simp: StampBeforeWrite_def)
    then show ?thesis using True by (simp add: StampBeforeWrite_def RecordDocIDs_def split_def record_txs_ok)
  next
    case False
    then show ?thesis using ok by (auto simp: StampBeforeWrite_def RecordDocIDs_def split: if_splits)
  qed
qed

section \<open>What the links resolve to\<close>

abbreviation doc_hash :: "doc \<Rightarrow> hash" where "doc_hash d \<equiv> string_or_empty (mget d ''hash'')"
abbreviation doc_txHash :: "doc \<Rightarrow> hash" where "doc_txHash d \<equiv> string_or_empty (mget d ''transactionHash'')"

text \<open>The docID recorded for a transaction hash: of the last transaction with that hash.\<close>

definition tx_link :: "doc list \<Rightarrow> docID list \<Rightarrow> hash \<Rightarrow> docID option" where
  "tx_link txs ids = map_of (rev (zip (map doc_hash txs) ids))"

lemma stamp_txs_all:
  "bid \<noteq> [] \<Longrightarrow> list_all (\<lambda>d. doc_hash d \<noteq> []) ds \<Longrightarrow>
   stamp_txs bid j ds = (None, map (\<lambda>d. d(''_blockID'' \<mapsto> AString bid)) ds)"
  by (induction bid j ds rule: stamp_txs.induct) (auto simp: Let_def)

definition log_links :: "docID \<Rightarrow> (hash \<Rightarrow> docID option) \<Rightarrow> doc \<Rightarrow> doc" where
  "log_links bid m d = (case m (doc_txHash d) of
     Some txID \<Rightarrow> d(''_blockID'' \<mapsto> AString bid, ''_transactionID'' \<mapsto> AString txID)
   | None \<Rightarrow> d(''_blockID'' \<mapsto> AString bid))"

lemma stamp_logs_all:
  "bid \<noteq> [] \<Longrightarrow> list_all (\<lambda>d. doc_txHash d \<noteq> []) ds \<Longrightarrow>
   stamp_logs bid m j ds = (None, map (log_links bid m) ds)"
  by (induction bid m j ds rule: stamp_logs.induct) (auto simp: Let_def log_links_def split: option.splits)

lemma stamp_ales_nth:
  "i < length ds \<Longrightarrow> stamp_ales refs m j ds ! i =
     (if j + i < length refs then (case m (refs ! (j + i)) of
        Some txID \<Rightarrow> (ds ! i)(''_transactionID'' \<mapsto> AString txID) | None \<Rightarrow> ds ! i) else ds ! i)"
proof (induction refs m j ds arbitrary: i rule: stamp_ales.induct)
  case (2 refs m j d ds)
  then show ?case by (cases i) (auto split: option.splits)
qed simp

lemma record_txs_map:
  "list_all (\<lambda>d. doc_hash d \<noteq> []) ds \<Longrightarrow>
   record_txs ids j ds m = (None, m ++ map_of (rev (zip (map doc_hash ds) (drop j ids))))"
proof (induction ids j ds m rule: record_txs.induct)
  case (2 ids j d ds m)
  show ?case
  proof (cases "j < length ids")
    case True
    then have "drop j ids = ids ! j # drop (j + 1) ids" by (simp add: Cons_nth_drop_Suc)
    moreover have "record_txs ids (j + 1) ds (m(doc_hash d \<mapsto> ids ! j)) =
        (None, m(doc_hash d \<mapsto> ids ! j) ++ map_of (rev (zip (map doc_hash ds) (drop (j + 1) ids))))"
      using 2 True by (simp add: fun_upd_def)
    ultimately show ?thesis using 2(2) True by (simp add: Let_def)
  next
    case False
    with 2 show ?thesis by (simp add: Let_def)
  qed
qed simp

lemma evm_names_distinct [simp]:
  "Transaction (NewCollectionNames p) \<noteq> Block (NewCollectionNames p)"
  "Log (NewCollectionNames p) \<noteq> Block (NewCollectionNames p)"
  "Log (NewCollectionNames p) \<noteq> Transaction (NewCollectionNames p)"
  "AccessListEntry (NewCollectionNames p) \<noteq> Block (NewCollectionNames p)"
  "AccessListEntry (NewCollectionNames p) \<noteq> Transaction (NewCollectionNames p)"
  "AccessListEntry (NewCollectionNames p) \<noteq> Log (NewCollectionNames p)"
  by (simp_all add: NewCollectionNames_def)

section \<open>Properties\<close>

text \<open>C40: links are resolved by the write protocol. After the block's docID and then the
  transactions' docIDs are recorded, stamping succeeds for all groups; every transaction and log
  carries the block's docID, and every log and access-list entry carries the docID that was
  recorded for its transaction hash, where one was recorded. Nothing else in a document changes.\<close>

theorem links_resolve:
  fixes p :: string and bid :: docID and refs :: "hash list" and blocks txs logs ales :: "doc list"
    and ids :: "docID list"
  defines "c \<equiv> NewCollectionNames p"
  defines "s1 \<equiv> snd (RecordDocIDs (newEvmLinkStamper c refs) (Block c) blocks [bid])"
  defines "txs' \<equiv> snd (StampBeforeWrite s1 (Transaction c) txs)"
  defines "s2 \<equiv> snd (RecordDocIDs s1 (Transaction c) txs' ids)"
  assumes "bid \<noteq> []" and "list_all (\<lambda>d. doc_hash d \<noteq> []) txs" and "list_all (\<lambda>d. doc_txHash d \<noteq> []) logs"
  shows "StampBeforeWrite s1 (Transaction c) txs = (None, map (\<lambda>d. d(''_blockID'' \<mapsto> AString bid)) txs)
    \<and> fst (RecordDocIDs s1 (Transaction c) txs' ids) = None
    \<and> StampBeforeWrite s2 (Log c) logs = (None, map (log_links bid (tx_link txs ids)) logs)
    \<and> fst (StampBeforeWrite s2 (AccessListEntry c) ales) = None
    \<and> (\<forall>i < length ales. snd (StampBeforeWrite s2 (AccessListEntry c) ales) ! i =
        (case (if i < length refs then tx_link txs ids (refs ! i) else None) of
           Some txID \<Rightarrow> (ales ! i)(''_transactionID'' \<mapsto> AString txID) | None \<Rightarrow> ales ! i))"
proof -
  have s1: "s1 = (newEvmLinkStamper c refs)\<lparr>blockID := bid\<rparr>" "cols s1 = c" "blockID s1 = bid"
    by (simp_all add: s1_def RecordDocIDs_def newEvmLinkStamper_def)
  have txs: "StampBeforeWrite s1 (Transaction c) txs = (None, map (\<lambda>d. d(''_blockID'' \<mapsto> AString bid)) txs)"
    using assms(5,6) s1 by (simp add: StampBeforeWrite_def c_def stamp_txs_all)
  then have txs': "txs' = map (\<lambda>d. d(''_blockID'' \<mapsto> AString bid)) txs" by (simp add: txs'_def)
  have "list_all (\<lambda>d. doc_hash d \<noteq> []) txs'" using assms(6) by (simp add: txs' list_all_iff)
  then have rec: "RecordDocIDs s1 (Transaction c) txs' ids = (None, s1\<lparr>txHashToID := tx_link txs ids\<rparr>)"
    using s1 record_txs_map [of txs' ids 0]
    by (simp add: RecordDocIDs_def c_def tx_link_def txs' comp_def newEvmLinkStamper_def)
  then have s2: "s2 = s1\<lparr>txHashToID := tx_link txs ids\<rparr>" by (simp add: s2_def)
  show ?thesis
    using txs rec s1 assms(5,7)
    by (auto simp: s2 StampBeforeWrite_def c_def stamp_logs_all stamp_ales_nth newEvmLinkStamper_def)
qed

definition demo_tx_doc :: doc where "demo_tx_doc = [''hash'' \<mapsto> AString ''0xaa'']"
definition demo_log_doc :: doc where "demo_log_doc = [''transactionHash'' \<mapsto> AString ''0xaa'']"

theorem links_resolve_witness:
  "\<exists>s. StampBeforeWrite s ''Ethereum__Mainnet__Log'' [demo_log_doc]
    = (None, [demo_log_doc(''_blockID'' \<mapsto> AString ''bae-1'', ''_transactionID'' \<mapsto> AString ''bae-2'')])"
  using links_resolve [where p = "''Ethereum__Mainnet''" and refs = "[]" and blocks = "[]" and bid = "''bae-1''"
      and txs = "[demo_tx_doc]" and ids = "[''bae-2'']" and logs = "[demo_log_doc]" and ales = "[]"]
  by (auto simp: demo_tx_doc_def demo_log_doc_def mget_def string_or_empty_def log_links_def tx_link_def
      NewCollectionNames_def)

end
