(* ===== verification/Evm_Converter.thy ===== *)
theory Evm_Converter
  imports Hex_Codec Evm_Stamper
begin

text \<open>
  Package \<open>pkg/chains/evm\<close>, files \<open>types.go\<close> and \<open>converter.go\<close>: from a fetched block bundle to
  document groups, and the progress queries against the store.

  A Go pointer that may be nil is an \<open>option\<close>. The database is only asked through \<open>ExecRequest\<close>:
  the argument \<open>exec\<close> maps a query text to the GraphQL errors and data. The verbs \<open>%v\<close> and \<open>%#v\<close>
  of \<open>fmt\<close>, used in one log and error text, are arguments.
\<close>

section \<open>Chain data (types.go, fetcher.go)\<close>

record AccessEntry =
  ale_Address :: string
  StorageKeys :: "string list"

record EvmLog =
  log_Address :: string
  Topics :: "string list"
  log_Data :: string
  log_BlockNumber :: string
  log_TransactionHash :: hash
  log_TransactionIndex :: int
  log_BlockHash :: hash
  LogIndex :: int
  Removed :: bool

record TransactionReceipt =
  rc_TransactionHash :: hash
  rc_TransactionIndex :: string
  rc_BlockHash :: hash
  rc_BlockNumber :: string
  rc_From :: string
  rc_To :: string
  rc_CumulativeGasUsed :: string
  rc_GasUsed :: string
  rc_EffectiveGasPrice :: string
  ContractAddress :: string
  rc_Logs :: "EvmLog list"
  rc_Status :: string

record EvmTransaction =
  tx_Hash :: hash
  tx_BlockHash :: hash
  tx_BlockNumber :: string
  tx_From :: string
  tx_To :: string
  tx_Value :: string
  tx_Gas :: string
  tx_GasPrice :: string
  tx_MaxFeePerGas :: string
  tx_MaxPriorityFeePerGas :: string
  tx_Input :: string
  tx_Nonce :: string
  tx_TransactionIndex :: int
  tx_Type :: string
  tx_ChainID :: string
  AccessList :: "AccessEntry list"
  tx_V :: string
  tx_R :: string
  tx_S :: string
  tx_Status :: bool
  tx_GasUsed :: string
  tx_CumulativeGasUsed :: string
  tx_EffectiveGasPrice :: string
  tx_Logs :: "EvmLog list"

record EvmBlock =
  blk_Hash :: hash
  blk_Number :: string
  blk_Timestamp :: string
  blk_ParentHash :: hash
  blk_Difficulty :: string
  blk_TotalDifficulty :: string
  blk_GasUsed :: string
  blk_GasLimit :: string
  blk_BaseFeePerGas :: string
  blk_Nonce :: string
  blk_Miner :: string
  blk_Size :: string
  blk_StateRoot :: string
  blk_Sha3Uncles :: string
  blk_TransactionsRoot :: string
  blk_ReceiptsRoot :: string
  blk_LogsBloom :: string
  blk_ExtraData :: string
  blk_MixHash :: string
  blk_Uncles :: "string list"
  blk_Transactions :: "EvmTransaction list"

record BlockBundle =
  bdl_Block :: "EvmBlock option"
  bdl_Transactions :: "EvmTransaction option list"
  bdl_Receipts :: "TransactionReceipt option list"

text \<open>The raw block of the chain-agnostic interfaces: a bundle pointer or a value of another type.\<close>

datatype raw_block = RawBundle "BlockBundle option" | RawOther string

section \<open>Configuration\<close>

record ConverterConfig =
  Chain :: ChainConfig
  MaxDocsPerTxn :: int
  MaxTxDocsPerBatch :: int
  MaxLogDocsPerBatch :: int
  MaxALEDocsPerBatch :: int
  LowestBlockQueryLimit :: int

definition chainPrefixFromConfig :: "ConverterConfig option \<Rightarrow> string" where
  "chainPrefixFromConfig cfg = (case cfg of None \<Rightarrow> DefaultCollectionPrefix
     | Some c \<Rightarrow> (let name = (if ChainName (Chain c) = [] then ''Ethereum'' else ChainName (Chain c));
                      network = (if Network (Chain c) = [] then ''Mainnet'' else Network (Chain c))
                  in name @ ''__'' @ network))"

record Converter =
  collections :: CollectionNames
  cfg :: "ConverterConfig option"

definition NewEvmConverter :: "ConverterConfig option \<Rightarrow> Converter" where
  "NewEvmConverter c = \<lparr>collections = NewCollectionNames (chainPrefixFromConfig c), cfg = c\<rparr>"

definition positive_or :: "(ConverterConfig \<Rightarrow> int) \<Rightarrow> Converter \<Rightarrow> int \<Rightarrow> int" where
  "positive_or field c d = (case cfg c of None \<Rightarrow> d | Some k \<Rightarrow> if field k > 0 then field k else d)"

definition maxDocsPerTxn :: "Converter \<Rightarrow> int" where
  "maxDocsPerTxn c = positive_or MaxDocsPerTxn c 1000"

definition lowestBlockQueryLimit :: "Converter \<Rightarrow> int" where
  "lowestBlockQueryLimit c = positive_or LowestBlockQueryLimit c 1"

definition txBatchSize :: "Converter \<Rightarrow> int \<Rightarrow> int" where
  "txBatchSize c d = positive_or MaxTxDocsPerBatch c d"

definition logBatchSize :: "Converter \<Rightarrow> int \<Rightarrow> int" where
  "logBatchSize c d = positive_or MaxLogDocsPerBatch c d"

definition aleBatchSize :: "Converter \<Rightarrow> int \<Rightarrow> int" where
  "aleBatchSize c d = positive_or MaxALEDocsPerBatch c d"

section \<open>Documents\<close>

definition buildBlockData :: "EvmBlock \<Rightarrow> int \<Rightarrow> doc" where
  "buildBlockData b blockInt = [
     ''hash'' \<mapsto> AString (blk_Hash b),
     ''number'' \<mapsto> AInt64 blockInt,
     ''timestamp'' \<mapsto> AString (blk_Timestamp b),
     ''parentHash'' \<mapsto> AString (blk_ParentHash b),
     ''difficulty'' \<mapsto> AString (blk_Difficulty b),
     ''totalDifficulty'' \<mapsto> AString (blk_TotalDifficulty b),
     ''gasUsed'' \<mapsto> AString (blk_GasUsed b),
     ''gasLimit'' \<mapsto> AString (blk_GasLimit b),
     ''baseFeePerGas'' \<mapsto> AString (blk_BaseFeePerGas b),
     ''nonce'' \<mapsto> AString (blk_Nonce b),
     ''miner'' \<mapsto> AString (blk_Miner b),
     ''size'' \<mapsto> AString (blk_Size b),
     ''stateRoot'' \<mapsto> AString (blk_StateRoot b),
     ''sha3Uncles'' \<mapsto> AString (blk_Sha3Uncles b),
     ''transactionsRoot'' \<mapsto> AString (blk_TransactionsRoot b),
     ''receiptsRoot'' \<mapsto> AString (blk_ReceiptsRoot b),
     ''logsBloom'' \<mapsto> AString (blk_LogsBloom b),
     ''extraData'' \<mapsto> AString (blk_ExtraData b),
     ''mixHash'' \<mapsto> AString (blk_MixHash b),
     ''uncles'' \<mapsto> AStrings (blk_Uncles b)]"

definition buildTransactionData :: "EvmTransaction \<Rightarrow> doc" where
  "buildTransactionData t = (let txBlockNum = fst (ParseInt (tx_BlockNumber t) 10) in [
     ''hash'' \<mapsto> AString (tx_Hash t),
     ''blockNumber'' \<mapsto> AInt64 txBlockNum,
     ''blockHash'' \<mapsto> AString (tx_BlockHash t),
     ''transactionIndex'' \<mapsto> AInt (tx_TransactionIndex t),
     ''from'' \<mapsto> AString (tx_From t),
     ''to'' \<mapsto> AString (tx_To t),
     ''value'' \<mapsto> AString (tx_Value t),
     ''gas'' \<mapsto> AString (tx_Gas t),
     ''gasPrice'' \<mapsto> AString (tx_GasPrice t),
     ''maxFeePerGas'' \<mapsto> AString (tx_MaxFeePerGas t),
     ''maxPriorityFeePerGas'' \<mapsto> AString (tx_MaxPriorityFeePerGas t),
     ''input'' \<mapsto> AString (tx_Input t),
     ''nonce'' \<mapsto> AString (tx_Nonce t),
     ''type'' \<mapsto> AString (tx_Type t),
     ''chainId'' \<mapsto> AString (tx_ChainID t),
     ''v'' \<mapsto> AString (tx_V t),
     ''r'' \<mapsto> AString (tx_R t),
     ''s'' \<mapsto> AString (tx_S t),
     ''gasUsed'' \<mapsto> AString (tx_GasUsed t),
     ''cumulativeGasUsed'' \<mapsto> AString (tx_CumulativeGasUsed t),
     ''effectiveGasPrice'' \<mapsto> AString (tx_EffectiveGasPrice t),
     ''status'' \<mapsto> ABool (tx_Status t)])"

definition buildLogData :: "EvmLog \<Rightarrow> doc" where
  "buildLogData l = (let logBlockNum = (case HexToInt 0 (log_BlockNumber l) of Inl _ \<Rightarrow> 0 | Inr n \<Rightarrow> n) in [
     ''address'' \<mapsto> AString (log_Address l),
     ''topics'' \<mapsto> AStrings (Topics l),
     ''data'' \<mapsto> AString (log_Data l),
     ''blockNumber'' \<mapsto> AInt64 logBlockNum,
     ''transactionHash'' \<mapsto> AString (log_TransactionHash l),
     ''transactionIndex'' \<mapsto> AInt (log_TransactionIndex l),
     ''blockHash'' \<mapsto> AString (log_BlockHash l),
     ''logIndex'' \<mapsto> AInt (LogIndex l),
     ''removed'' \<mapsto> AString (if Removed l then ''true'' else ''false'')])"

definition buildALEData :: "AccessEntry \<Rightarrow> int \<Rightarrow> doc" where
  "buildALEData a blockNumber = [
     ''address'' \<mapsto> AString (ale_Address a),
     ''blockNumber'' \<mapsto> AInt64 blockNumber,
     ''storageKeys'' \<mapsto> AStrings (StorageKeys a)]"

definition buildTransactionDocs :: "BlockBundle \<Rightarrow> doc list" where
  "buildTransactionDocs b = concat (map (\<lambda>tx. case tx of None \<Rightarrow> [] | Some t \<Rightarrow> [buildTransactionData t])
     (bdl_Transactions b))"

definition buildReceiptMap :: "TransactionReceipt option list \<Rightarrow> hash \<Rightarrow> TransactionReceipt option" where
  "buildReceiptMap rs = fold (\<lambda>r m. case r of None \<Rightarrow> m | Some x \<Rightarrow> m(rc_TransactionHash x \<mapsto> x)) rs (\<lambda>_. None)"

definition buildLogDocs :: "EvmTransaction option list \<Rightarrow> (hash \<Rightarrow> TransactionReceipt option) \<Rightarrow> doc list" where
  "buildLogDocs txs receiptMap = concat (map (\<lambda>tx. case tx of None \<Rightarrow> []
     | Some t \<Rightarrow> (case receiptMap (tx_Hash t) of None \<Rightarrow> [] | Some r \<Rightarrow> map buildLogData (rc_Logs r))) txs)"

definition aleDocKey :: "hash \<Rightarrow> AccessEntry \<Rightarrow> string" where
  "aleDocKey txHash a = txHash @ ''|'' @ ale_Address a @ ''|'' @ join '','' (StorageKeys a)"

fun ale_entries :: "hash \<Rightarrow> int \<Rightarrow> AccessEntry list \<Rightarrow> string set \<times> doc list \<times> hash list \<Rightarrow> string set \<times> doc list \<times> hash list" where
  "ale_entries h n [] acc = acc"
| "ale_entries h n (a # as) (seen, docs, refs) =
     (let key = aleDocKey h a in
      if key \<in> seen then ale_entries h n as (seen, docs, refs)
      else ale_entries h n as (insert key seen, docs @ [buildALEData a n], refs @ [h]))"

definition buildALEDocs :: "EvmTransaction option list \<Rightarrow> int \<Rightarrow> doc list \<times> hash list" where
  "buildALEDocs txs blockInt = snd (fold (\<lambda>tx acc. case tx of None \<Rightarrow> acc
     | Some t \<Rightarrow> ale_entries (tx_Hash t) blockInt (AccessList t) acc) txs ({}, [], []))"

section \<open>Convert\<close>

record ConversionResult =
  Groups :: "DocumentGroup list"
  SignatureCollection :: string
  LinkStamper :: evmLinkStamper

abbreviation (input) data_group :: "string \<Rightarrow> doc list \<Rightarrow> int \<Rightarrow> DocumentGroup" where
  "data_group col docs batch \<equiv> \<lparr>Collection = col, Docs = docs, BatchSize = batch,
     BlockNumField = ''blockNumber'', BlockHashField = [], ParentHashField = []\<rparr>"

definition Convert :: "int \<Rightarrow> Converter \<Rightarrow> raw_block \<Rightarrow> ConversionResult result" where
  "Convert now c rawBlock = (case rawBlock of
     RawOther t \<Rightarrow> Inl (ErrMsg (''converter: expected *BlockBundle, got '' @ t))
   | RawBundle None \<Rightarrow> Inl (ErrMsg ''converter: nil block in bundle'')
   | RawBundle (Some bundle) \<Rightarrow> (case bdl_Block bundle of
       None \<Rightarrow> Inl (ErrMsg ''converter: nil block in bundle'')
     | Some block \<Rightarrow> (case HexToInt now (blk_Number block) of
         Inl e \<Rightarrow> Inl (Wrapped ''converter: parse block number: '' e [])
       | Inr blockInt \<Rightarrow>
          (let blockData = buildBlockData block blockInt;
               txDocs = buildTransactionDocs bundle;
               receiptMap = buildReceiptMap (bdl_Receipts bundle);
               logDocs = buildLogDocs (bdl_Transactions bundle) receiptMap;
               (aleDocs, refs) = buildALEDocs (bdl_Transactions bundle) blockInt;
               defaultBatch = maxDocsPerTxn c;
               cs = collections c;
               groups = [\<lparr>Collection = Block cs, Docs = [blockData], BatchSize = defaultBatch,
                   BlockNumField = ''number'', BlockHashField = ''hash'', ParentHashField = ''parentHash''\<rparr>]
                 @ (if txDocs \<noteq> [] then [data_group (Transaction cs) txDocs (txBatchSize c defaultBatch)] else [])
                 @ (if logDocs \<noteq> [] then [data_group (Log cs) logDocs (logBatchSize c defaultBatch)] else [])
                 @ (if aleDocs \<noteq> [] then [data_group (AccessListEntry cs) aleDocs (aleBatchSize c defaultBatch)] else [])
           in Inr \<lparr>Groups = groups, SignatureCollection = BlockSignature cs,
                LinkStamper = newEvmLinkStamper cs refs\<rparr>))))"

section \<open>Progress queries\<close>

record gql_result =
  gql_Errors :: "goerror list"
  gql_Data :: any

type_synonym exec_request = "string \<Rightarrow> gql_result"

text \<open>\<open>%T\<close> of a dynamic value.\<close>

fun go_type :: "any \<Rightarrow> string" where
  "go_type ANil = ''<nil>''"
| "go_type (AString _) = ''string''"
| "go_type (AInt64 _) = ''int64''"
| "go_type (AInt _) = ''int''"
| "go_type (AFloat64 _) = ''float64''"
| "go_type (ABool _) = ''bool''"
| "go_type (AStrings _) = ''[]string''"
| "go_type (AMap _) = ''map[string]interface {}''"
| "go_type (ASlice _) = ''[]interface {}''"
| "go_type (AMaps _) = ''[]map[string]interface {}''"

definition parseBlockNumberRow :: "doc \<Rightarrow> height option" where
  "parseBlockNumberRow block = (case mget block ''number'' of
     AFloat64 v \<Rightarrow> Some (trunc_real v) | AInt64 v \<Rightarrow> Some v | AInt v \<Rightarrow> Some v | _ \<Rightarrow> None)"

text \<open>Rows of a result field: \<open>[]any\<close> or \<open>[]map[string]any\<close>.\<close>

fun rows_of :: "any \<Rightarrow> any list option" where
  "rows_of (ASlice arr) = Some arr"
| "rows_of (AMaps arr) = Some (map AMap arr)"
| "rows_of _ = None"

fun usable_row ::
  "(any \<Rightarrow> string) \<Rightarrow> (any \<Rightarrow> string) \<Rightarrow> string list \<Rightarrow> any list \<Rightarrow> string list + height" where
  "usable_row fmtv fmtgo skipped [] = Inl skipped"
| "usable_row fmtv fmtgo skipped (r # rs) =
     (case as_map r of
        None \<Rightarrow> usable_row fmtv fmtgo (skipped @ [''row='' @ fmtgo r]) rs
      | Some block \<Rightarrow> (case parseBlockNumberRow block of
          Some num \<Rightarrow> Inr num
        | None \<Rightarrow> (let raw = mget block ''number'' in
            usable_row fmtv fmtgo (skipped @ [''docID='' @ string_or_empty (mget block ''_docID'')
              @ '' number='' @ go_type raw @ ''('' @ fmtv raw @ '')'']) rs)))"

definition firstUsableRow :: "(any \<Rightarrow> string) \<Rightarrow> (any \<Rightarrow> string) \<Rightarrow> any list \<Rightarrow> string \<Rightarrow> height result" where
  "firstUsableRow fmtv fmtgo rows opName = (case usable_row fmtv fmtgo [] rows of
     Inr n \<Rightarrow> Inr n
   | Inl skipped \<Rightarrow> Inl (Wrapped (opName @ '': '') (Sentinel ErrBlockNumberCorrupt)
       ('' (all '' @ itoa (int (length rows)) @ '' rows corrupt: '' @ join ''; '' skipped @ '')'')))"

definition any_query :: "string \<Rightarrow> string" where
  "any_query blockCol = ''query {'' @ blockCol @ '' (limit: 1) { _docID }}''"

definition hasAnyBlockDocs :: "int \<Rightarrow> exec_request \<Rightarrow> string \<Rightarrow> string \<Rightarrow> bool result" where
  "hasAnyBlockDocs now exec blockCol opName = (let query = any_query blockCol; res = exec query in
     case gql_Errors res of
       e # _ \<Rightarrow> Inl (NewQueryFailed now ''defra'' opName query (Some e) [])
     | [] \<Rightarrow> (case as_map (gql_Data res) of None \<Rightarrow> Inr False
         | Some data \<Rightarrow> (case rows_of (mget data blockCol) of None \<Rightarrow> Inr False | Some rows \<Rightarrow> Inr (rows \<noteq> []))))"

definition number_query :: "string \<Rightarrow> string \<Rightarrow> int \<Rightarrow> string" where
  "number_query blockCol order queryLimit =
     ''query {'' @ blockCol @ '' (filter: {'' @ ''number'' @ '': {_geq: 0}}, order: {'' @ ''number'' @ '': '' @ order
       @ ''}, limit: '' @ itoa queryLimit @ '') { '' @ ''number'' @ '' _docID }}''"

definition queryBlockNumber ::
  "(any \<Rightarrow> string) \<Rightarrow> (any \<Rightarrow> string) \<Rightarrow> int \<Rightarrow> exec_request \<Rightarrow> Converter \<Rightarrow> string \<Rightarrow> string \<Rightarrow> int \<Rightarrow> height result" where
  "queryBlockNumber fmtv fmtgo now exec c order opName queryLimit =
     (let blockCol = Block (collections c); query = number_query blockCol order queryLimit; res = exec query in
      case gql_Errors res of
        e # _ \<Rightarrow> Inl (NewQueryFailed now ''defra'' opName query (Some e) [])
      | [] \<Rightarrow> (case as_map (gql_Data res) of
          None \<Rightarrow> Inl (NewDocumentNotFound now ''defra'' opName blockCol ''no data'' [])
        | Some data \<Rightarrow> (case rows_of (mget data blockCol) of
            None \<Rightarrow> Inl (NewDocumentNotFound now ''defra'' opName blockCol ''no blocks'' [])
          | Some [] \<Rightarrow> (case hasAnyBlockDocs now exec blockCol opName of
                Inl e \<Rightarrow> Inl e
              | Inr present \<Rightarrow>
                  if present then Inl (Wrapped (opName @ '': '') (Sentinel ErrBlockNumberCorrupt)
                    '' (no rows have a usable number field)'')
                  else Inl (NewDocumentNotFound now ''defra'' opName blockCol ''no blocks'' []))
          | Some rows \<Rightarrow> firstUsableRow fmtv fmtgo rows opName)))"

definition GetHighestStoredBlockNumber ::
  "(any \<Rightarrow> string) \<Rightarrow> (any \<Rightarrow> string) \<Rightarrow> int \<Rightarrow> exec_request \<Rightarrow> Converter \<Rightarrow> height result" where
  "GetHighestStoredBlockNumber fmtv fmtgo now exec c =
     queryBlockNumber fmtv fmtgo now exec c ''DESC'' ''GetHighestStoredBlockNumber'' 1"

definition GetLowestStoredBlockNumber ::
  "(any \<Rightarrow> string) \<Rightarrow> (any \<Rightarrow> string) \<Rightarrow> int \<Rightarrow> exec_request \<Rightarrow> Converter \<Rightarrow> height result" where
  "GetLowestStoredBlockNumber fmtv fmtgo now exec c =
     queryBlockNumber fmtv fmtgo now exec c ''ASC'' ''GetLowestStoredBlockNumber'' (lowestBlockQueryLimit c)"

definition range_query :: "string \<Rightarrow> string \<Rightarrow> int \<Rightarrow> int \<Rightarrow> string" where
  "range_query colName field chunkStart chunkEnd =
     ''query { '' @ colName @ ''(filter: {'' @ field @ '': {_geq: '' @ itoa chunkStart @ '', _leq: '' @ itoa chunkEnd
       @ ''}}) { _docID } }''"

definition row_docIDs :: "any list \<Rightarrow> docID list" where
  "row_docIDs rows = concat (map (\<lambda>r. case as_map r of None \<Rightarrow> []
     | Some m \<Rightarrow> (case as_string (mget m ''_docID'') of None \<Rightarrow> [] | Some d \<Rightarrow> [d])) rows)"

function query_chunks :: "exec_request \<Rightarrow> string \<Rightarrow> string \<Rightarrow> int \<Rightarrow> int \<Rightarrow> docID list \<Rightarrow> docID list result" where
  "query_chunks exec colName field chunkStart to acc =
     (if chunkStart > to then Inr acc
      else let chunkEnd = min (chunkStart + 100 - 1) to; res = exec (range_query colName field chunkStart chunkEnd) in
        case gql_Errors res of
          e # _ \<Rightarrow> Inl (Wrapped (''query '' @ colName @ '' ['' @ itoa chunkStart @ ''-'' @ itoa chunkEnd @ '']: '') e [])
        | [] \<Rightarrow> query_chunks exec colName field (chunkStart + 100) to
            (acc @ (case as_map (gql_Data res) of None \<Rightarrow> []
              | Some data \<Rightarrow> (case rows_of (mget data colName) of None \<Rightarrow> [] | Some rows \<Rightarrow> row_docIDs rows))))"
  by pat_completeness auto
termination
  by (relation "measure (\<lambda>(exec, colName, field, a, to, acc). nat (to - a + 1))") auto

declare query_chunks.simps [simp del]

definition queryCollectionDocIDs :: "exec_request \<Rightarrow> string \<Rightarrow> string \<Rightarrow> int \<Rightarrow> int \<Rightarrow> docID list result" where
  "queryCollectionDocIDs exec colName field from to = query_chunks exec colName field from to []"

fun range_collections ::
  "exec_request \<Rightarrow> int \<Rightarrow> int \<Rightarrow> (string \<times> string) list \<Rightarrow> (string \<times> docID list) list result" where
  "range_collections exec from to [] = Inr []"
| "range_collections exec from to ((name, field) # rest) =
     (case queryCollectionDocIDs exec name field from to of
        Inl e \<Rightarrow> Inl (Wrapped (''query docIDs for '' @ name @ '': '') e [])
      | Inr ids \<Rightarrow> (case range_collections exec from to rest of Inl e \<Rightarrow> Inl e
         | Inr m \<Rightarrow> Inr (if ids \<noteq> [] then (name, ids) # m else m)))"

definition GetDocIDsByBlockRange ::
  "exec_request \<Rightarrow> Converter \<Rightarrow> int \<Rightarrow> int \<Rightarrow> (string \<times> docID list) list result" where
  "GetDocIDsByBlockRange exec c from to = range_collections exec from to
     [(Block (collections c), ''number''), (Transaction (collections c), ''blockNumber''),
      (Log (collections c), ''blockNumber''), (AccessListEntry (collections c), ''blockNumber''),
      (BlockSignature (collections c), ''blockNumber'')]"

section \<open>Access lists: what the key identifies\<close>

definition ale_pairs :: "EvmTransaction option list \<Rightarrow> (hash \<times> AccessEntry) list" where
  "ale_pairs txs = concat (map (\<lambda>tx. case tx of None \<Rightarrow> [] | Some t \<Rightarrow> map (Pair (tx_Hash t)) (AccessList t)) txs)"

text \<open>Hexadecimal input: no separator inside a component, no empty storage key.\<close>

definition clean_pair :: "hash \<times> AccessEntry \<Rightarrow> bool" where
  "clean_pair p \<longleftrightarrow> CHR ''|'' \<notin> set (fst p) \<and> CHR ''|'' \<notin> set (ale_Address (snd p))
     \<and> list_all (\<lambda>k. k \<noteq> [] \<and> CHR '','' \<notin> set k) (StorageKeys (snd p))"

abbreviation pair_key :: "hash \<times> AccessEntry \<Rightarrow> string" where
  "pair_key p \<equiv> aleDocKey (fst p) (snd p)"

lemma storage_keys_inject:
  assumes "list_all (\<lambda>k. k \<noteq> [] \<and> CHR '','' \<notin> set k) ks" and "list_all (\<lambda>k. k \<noteq> [] \<and> CHR '','' \<notin> set k) ls"
    and "join '','' ks = join '','' ls"
  shows "ks = ls"
proof (cases "ks = [] \<or> ls = []")
  case True
  then have "join '','' ks = [] \<and> join '','' ls = []" using assms(3) by auto
  then show ?thesis using assms(1,2) by (auto simp: join_eq_Nil_iff)
next
  case False
  then show ?thesis using join_inject [of ks "CHR '',''" ls] assms by (auto simp: list_all_iff)
qed

lemma pair_key_inject:
  assumes "clean_pair p" and "clean_pair p'" and "pair_key p = pair_key p'"
  shows "p = p'"
proof -
  obtain h a h' a' where p: "p = (h, a)" "p' = (h', a')" by (metis surj_pair)
  have eq: "h @ CHR ''|'' # (ale_Address a @ CHR ''|'' # join '','' (StorageKeys a))
      = h' @ CHR ''|'' # (ale_Address a' @ CHR ''|'' # join '','' (StorageKeys a'))"
    using assms(3) unfolding p aleDocKey_def fst_conv snd_conv by simp
  have h: "h = h' \<and> ale_Address a @ CHR ''|'' # join '','' (StorageKeys a)
      = ale_Address a' @ CHR ''|'' # join '','' (StorageKeys a')"
    using append_sep_inject [OF _ _ eq] assms(1,2) by (simp add: p clean_pair_def)
  then have "ale_Address a = ale_Address a' \<and> join '','' (StorageKeys a) = join '','' (StorageKeys a')"
    using append_sep_inject [OF _ _ conjunct2 [OF h]] assms(1,2) by (simp add: p clean_pair_def)
  moreover from this have "StorageKeys a = StorageKeys a'"
    using storage_keys_inject assms by (simp add: p clean_pair_def)
  ultimately show ?thesis using h by (simp add: p)
qed

text \<open>Keep the first occurrence of each pair.\<close>

fun first_only :: "'a set \<Rightarrow> 'a list \<Rightarrow> 'a list" where
  "first_only seen [] = []"
| "first_only seen (x # xs) = (if x \<in> seen then first_only seen xs else x # first_only (insert x seen) xs)"

lemma first_only_facts:
  "distinct (first_only seen xs) \<and> set (first_only seen xs) = set xs - seen \<and> subseq (first_only seen xs) xs"
  by (induction seen xs rule: first_only.induct) auto

lemma ale_entries_first_only:
  assumes "\<forall>p \<in> S. clean_pair p" and "list_all clean_pair (map (Pair h) as)"
  shows "ale_entries h n as (pair_key ` S, docs, refs) =
    (pair_key ` (S \<union> set (map (Pair h) as)),
     docs @ map (\<lambda>p. buildALEData (snd p) n) (first_only S (map (Pair h) as)),
     refs @ map fst (first_only S (map (Pair h) as)))"
  using assms
proof (induction as arbitrary: S docs refs)
  case (Cons a as)
  have mem: "aleDocKey h a \<in> pair_key ` S \<longleftrightarrow> (h, a) \<in> S"
  proof
    assume "aleDocKey h a \<in> pair_key ` S"
    then obtain p where "p \<in> S" and eq: "pair_key (h, a) = pair_key p" by auto
    moreover have "clean_pair (h, a)" using Cons.prems(2) by simp
    ultimately show "(h, a) \<in> S" using pair_key_inject [OF _ _ eq] Cons.prems(1) by auto
  qed (auto intro: rev_image_eqI)
  show ?case
  proof (cases "(h, a) \<in> S")
    case True
    then have "S \<union> insert (h, a) (Pair h ` set as) = S \<union> Pair h ` set as" by auto
    then show ?thesis using True mem Cons by (simp add: Let_def insert_absorb)
  next
    case False
    have ins: "insert (aleDocKey h a) (pair_key ` S) = pair_key ` insert (h, a) S" by simp
    show ?thesis using False mem Cons.prems Cons.IH [of "insert (h, a) S"]
      by (simp add: Let_def ins del: image_insert)
  qed
qed simp

lemma first_only_append: "first_only S (xs @ ys) = first_only S xs @ first_only (S \<union> set xs) ys"
  by (induction S xs rule: first_only.induct) (auto simp: insert_absorb Un_insert_left)

lemma ale_fold_first_only:
  assumes "\<forall>p \<in> S. clean_pair p" and "list_all clean_pair (ale_pairs txs)"
  shows "fold (\<lambda>tx acc. case tx of None \<Rightarrow> acc
      | Some t \<Rightarrow> ale_entries (tx_Hash t) n (AccessList t) acc) txs (pair_key ` S, docs, refs) =
    (pair_key ` (S \<union> set (ale_pairs txs)),
     docs @ map (\<lambda>p. buildALEData (snd p) n) (first_only S (ale_pairs txs)),
     refs @ map fst (first_only S (ale_pairs txs)))"
  using assms
proof (induction txs arbitrary: S docs refs)
  case Nil
  then show ?case by (simp add: ale_pairs_def)
next
  case (Cons tx txs)
  show ?case
  proof (cases tx)
    case None
    with Cons show ?thesis by (simp add: ale_pairs_def)
  next
    case (Some t)
    let ?ps = "map (Pair (tx_Hash t)) (AccessList t)"
    have ps: "ale_pairs (Some t # txs) = ?ps @ ale_pairs txs" by (simp add: ale_pairs_def)
    have cl: "list_all clean_pair ?ps" "list_all clean_pair (ale_pairs txs)" using Cons.prems(2) ps Some by auto
    have S: "\<forall>p \<in> S \<union> set ?ps. clean_pair p" using Cons.prems(1) cl(1) by (auto simp: list_all_iff)
    show ?thesis
      using Cons.IH [OF S cl(2)] ale_entries_first_only [OF Cons.prems(1) cl(1)]
      by (simp add: Some ps first_only_append Un_assoc del: set_map)
  qed
qed

section \<open>Range queries\<close>

text \<open>What DefraDB documents for a range filter: the rows are the stored documents of the
  collection whose field lies in the range.\<close>

definition in_range :: "int \<Rightarrow> int \<Rightarrow> (int \<times> docID) list \<Rightarrow> docID list" where
  "in_range a b stored = map snd (filter (\<lambda>(n, d). a \<le> n \<and> n \<le> b) stored)"

definition answers_range :: "exec_request \<Rightarrow> string \<Rightarrow> string \<Rightarrow> (int \<times> docID) list \<Rightarrow> int \<Rightarrow> int \<Rightarrow> bool" where
  "answers_range exec col field stored from to \<longleftrightarrow> (\<forall>a b. from \<le> a \<and> a \<le> b \<and> b \<le> to \<longrightarrow>
     exec (range_query col field a b) =
       \<lparr>gql_Errors = [], gql_Data = AMap [col \<mapsto> AMaps (map (\<lambda>d. [''_docID'' \<mapsto> AString d]) (in_range a b stored))]\<rparr>)"

lemma row_docIDs_maps: "row_docIDs (map AMap (map (\<lambda>d. [''_docID'' \<mapsto> AString d]) ds)) = ds"
  by (induction ds) (auto simp: row_docIDs_def mget_def)

lemma in_range_split:
  assumes "a \<le> c + 1" and "c \<le> b"
  shows "mset (in_range a c stored) + mset (in_range (c + 1) b stored) = mset (in_range a b stored)"
proof -
  have "mset (filter (\<lambda>(n, d). a \<le> n \<and> n \<le> c) stored) + mset (filter (\<lambda>(n, d). c + 1 \<le> n \<and> n \<le> b) stored)
      = mset (filter (\<lambda>(n, d). a \<le> n \<and> n \<le> b) stored)"
    using assms by (induction stored) auto
  then show ?thesis by (simp add: in_range_def flip: image_mset_union)
qed

lemma query_chunks_exact:
  "answers_range exec col field stored from to \<Longrightarrow> from \<le> a \<Longrightarrow>
   \<exists>ids. query_chunks exec col field a to acc = Inr (acc @ ids) \<and> mset ids = mset (in_range a to stored)"
proof (induction exec col field a to acc rule: query_chunks.induct)
  case (1 exec col field a to acc)
  show ?case
  proof (cases "a > to")
    case True
    then have "in_range a to stored = []" by (auto simp: in_range_def filter_empty_conv)
    with True show ?thesis by (simp add: query_chunks.simps [of exec col field a])
  next
    case False
    let ?b = "min (a + 100 - 1) to"
    have res: "exec (range_query col field a ?b) = \<lparr>gql_Errors = [],
        gql_Data = AMap [col \<mapsto> AMaps (map (\<lambda>d. [''_docID'' \<mapsto> AString d]) (in_range a ?b stored))]\<rparr>"
      using 1(2,3) False unfolding answers_range_def by (auto simp: min_def)
    obtain ids where ids: "query_chunks exec col field (a + 100) to (acc @ in_range a ?b stored)
        = Inr ((acc @ in_range a ?b stored) @ ids)" "mset ids = mset (in_range (a + 100) to stored)"
      using 1(1) [OF False refl refl] 1(2,3) res row_docIDs_maps
      by (auto simp: mget_def)
    have tail: "in_range (a + 100) to stored = in_range (?b + 1) to stored"
      by (auto simp: in_range_def min_def intro!: arg_cong [where f = "map snd"] filter_cong)
    have "mset (in_range a ?b stored @ ids) = mset (in_range a to stored)"
      using ids(2) tail in_range_split [of a ?b to stored] False by simp
    moreover have "query_chunks exec col field a to acc = Inr (acc @ in_range a ?b stored @ ids)"
      using False ids(1) res row_docIDs_maps
      by (subst query_chunks.simps) (simp add: Let_def mget_def)
    ultimately show ?thesis by blast
  qed
qed

section \<open>Stored block numbers\<close>

text \<open>What DefraDB documents for the two queries of \<open>queryBlockNumber\<close>, for a block collection that
  holds documents with an optional number: the filter keeps the non-negative numbers, the order
  clause sorts them, the limit cuts; the unfiltered query sees every document.\<close>

definition usable_docs :: "(docID \<times> int option) list \<Rightarrow> (docID \<times> int) list" where
  "usable_docs docs = concat (map (\<lambda>(d, n). case n of Some k \<Rightarrow> if 0 \<le> k then [(d, k)] else [] | None \<Rightarrow> []) docs)"

definition number_row :: "docID \<times> int \<Rightarrow> doc" where
  "number_row p = [''number'' \<mapsto> AInt64 (snd p), ''_docID'' \<mapsto> AString (fst p)]"

definition answers_numbers :: "exec_request \<Rightarrow> string \<Rightarrow> (docID \<times> int option) list \<Rightarrow> bool" where
  "answers_numbers exec col docs \<longleftrightarrow>
     (\<forall>qlim > 0. exec (number_query col ''ASC'' qlim) = \<lparr>gql_Errors = [], gql_Data =
        AMap [col \<mapsto> AMaps (map number_row (take (nat qlim) (sort_key snd (usable_docs docs))))]\<rparr>)
   \<and> (\<forall>qlim > 0. exec (number_query col ''DESC'' qlim) = \<lparr>gql_Errors = [], gql_Data =
        AMap [col \<mapsto> AMaps (map number_row (take (nat qlim) (rev (sort_key snd (usable_docs docs)))))]\<rparr>)
   \<and> exec (any_query col) = \<lparr>gql_Errors = [], gql_Data =
        AMap [col \<mapsto> AMaps (map (\<lambda>(d, n). [''_docID'' \<mapsto> AString d]) (take 1 docs))]\<rparr>"

lemma usable_row_number: "usable_row fmtv fmtgo sk (map AMap (map number_row (p # ps))) = Inr (snd p)"
  by (simp add: number_row_def parseBlockNumberRow_def mget_def)

lemma query_nonempty:
  assumes "exec (number_query (Block (collections c)) order qlim) = \<lparr>gql_Errors = [],
      gql_Data = AMap [Block (collections c) \<mapsto> AMaps (map number_row (p # ps))]\<rparr>"
  shows "queryBlockNumber fmtv fmtgo now exec c order opName qlim = Inr (snd p)"
  using assms usable_row_number [of fmtv fmtgo "[]" p ps]
  by (simp add: queryBlockNumber_def Let_def mget_def firstUsableRow_def)

lemma query_empty:
  assumes "exec (number_query (Block (collections c)) order qlim) = \<lparr>gql_Errors = [],
      gql_Data = AMap [Block (collections c) \<mapsto> AMaps []]\<rparr>"
    and "exec (any_query (Block (collections c))) = \<lparr>gql_Errors = [], gql_Data =
        AMap [Block (collections c) \<mapsto> AMaps rows]\<rparr>"
  shows "queryBlockNumber fmtv fmtgo now exec c order opName qlim =
    (if rows = [] then Inl (NewDocumentNotFound now ''defra'' opName (Block (collections c)) ''no blocks'' [])
     else Inl (Wrapped (opName @ '': '') (Sentinel ErrBlockNumberCorrupt) '' (no rows have a usable number field)''))"
  using assms by (auto simp: queryBlockNumber_def Let_def mget_def hasAnyBlockDocs_def)

lemma sort_key_hd_Min:
  fixes key :: "'a \<Rightarrow> int"
  assumes "xs \<noteq> []"
  shows "\<exists>p ps. sort_key key xs = p # ps \<and> key p = Min (key ` set xs)"
proof -
  obtain p ps where p: "sort_key key xs = p # ps" using assms by (metis list.exhaust length_0_conv length_sort)
  have "sorted (map key (p # ps))" using sorted_sort_key [of key xs] p by simp
  then have "\<forall>y \<in> set xs. key p \<le> key y" using p by (metis list.map(2) sorted_simps(2) set_ConsD
      imageI list.set_map set_sort order_refl)
  moreover have "p \<in> set xs" using p by (metis list.set_intros(1) set_sort)
  ultimately have "key p = Min (key ` set xs)" by (intro Min_eqI [symmetric]) auto
  with p show ?thesis by blast
qed

lemma sort_key_last_Max:
  fixes key :: "'a \<Rightarrow> int"
  assumes "xs \<noteq> []"
  shows "\<exists>p ps. rev (sort_key key xs) = p # ps \<and> key p = Max (key ` set xs)"
proof -
  obtain p ps where p: "rev (sort_key key xs) = p # ps"
    using assms by (metis list.exhaust length_0_conv length_rev length_sort)
  then have q: "sort_key key xs = rev ps @ [p]" by (metis rev_rev_ident rev.simps(2))
  have "sorted (map key (rev ps @ [p]))" using sorted_sort_key [of key xs] q by simp
  then have "\<forall>y \<in> set xs. key y \<le> key p" using q set_sort [of key xs] by (auto simp: sorted_append)
  moreover have "p \<in> set xs" using q set_sort [of key xs] by auto
  ultimately have "key p = Max (key ` set xs)" by (intro Max_eqI [symmetric]) auto
  with p show ?thesis by blast
qed

lemma corrupt_not_notFound:
  "opName \<in> {''GetHighestStoredBlockNumber'', ''GetLowestStoredBlockNumber''} \<Longrightarrow>
   \<not> IsErrNotFound (Some (Wrapped (opName @ '': '') (Sentinel ErrBlockNumberCorrupt)
      '' (no rows have a usable number field)''))"
  by (auto simp: IsErrNotFound_def contains_def sublist_code)

section \<open>Properties\<close>

text \<open>With a store that answers as documented, the two progress queries return the highest and
  the lowest stored block number; a store whose block documents all lack a usable number yields the
  corruption error, which is never mistaken for an empty store; an empty store yields not-found.\<close>

theorem stored_block_bounds:
  fixes c :: Converter and fmtv fmtgo :: "any \<Rightarrow> string" and now :: int
  assumes "answers_numbers exec (Block (collections c)) docs"
  defines "ns \<equiv> snd ` set (usable_docs docs)"
  defines "high \<equiv> GetHighestStoredBlockNumber fmtv fmtgo now exec c"
  defines "low \<equiv> GetLowestStoredBlockNumber fmtv fmtgo now exec c"
  shows "if ns \<noteq> {} then high = Inr (Max ns) \<and> low = Inr (Min ns)
    else if docs \<noteq> [] then (\<exists>e. high = Inl e \<and> errors_Is e ErrBlockNumberCorrupt \<and> \<not> IsErrNotFound (Some e))
      \<and> (\<exists>e. low = Inl e \<and> errors_Is e ErrBlockNumberCorrupt \<and> \<not> IsErrNotFound (Some e))
    else (\<exists>e. high = Inl e \<and> IsErrNotFound (Some e)) \<and> (\<exists>e. low = Inl e \<and> IsErrNotFound (Some e))"
proof -
  let ?u = "usable_docs docs"
  have qlim: "0 < lowestBlockQueryLimit c" by (auto simp: lowestBlockQueryLimit_def positive_or_def split: option.splits)
  show ?thesis
  proof (cases "?u = []")
    case False
    obtain p ps where p: "sort_key snd ?u = p # ps" "snd p = Min ns"
      using sort_key_hd_Min [OF False, of snd] by (auto simp: ns_def)
    obtain q qs where q: "rev (sort_key snd ?u) = q # qs" "snd q = Max ns"
      using sort_key_last_Max [OF False, of snd] by (auto simp: ns_def)
    have "high = Inr (snd q)" unfolding high_def GetHighestStoredBlockNumber_def
      by (rule query_nonempty [where ps = "[]"]) (use assms(1) q in \<open>simp add: answers_numbers_def\<close>)
    moreover obtain k where k: "nat (lowestBlockQueryLimit c) = Suc k" using qlim by (cases "nat (lowestBlockQueryLimit c)") auto
    then have "low = Inr (snd p)" unfolding low_def GetLowestStoredBlockNumber_def
      using assms(1) p qlim
      by (intro query_nonempty [where ps = "take k ps"]) (simp add: answers_numbers_def)
    ultimately show ?thesis using p q False by (simp add: ns_def)
  next
    case True
    have rows: "map (\<lambda>(d, n). [''_docID'' \<mapsto> AString d]) (take 1 docs) = [] \<longleftrightarrow> docs = []" by auto
    have h: "high = (if docs = []
        then Inl (NewDocumentNotFound now ''defra'' ''GetHighestStoredBlockNumber'' (Block (collections c)) ''no blocks'' [])
        else Inl (Wrapped (''GetHighestStoredBlockNumber'' @ '': '') (Sentinel ErrBlockNumberCorrupt)
          '' (no rows have a usable number field)''))"
      unfolding high_def GetHighestStoredBlockNumber_def rows [symmetric]
      by (rule query_empty) (use assms(1) True in \<open>simp_all add: answers_numbers_def\<close>)
    have l: "low = (if docs = []
        then Inl (NewDocumentNotFound now ''defra'' ''GetLowestStoredBlockNumber'' (Block (collections c)) ''no blocks'' [])
        else Inl (Wrapped (''GetLowestStoredBlockNumber'' @ '': '') (Sentinel ErrBlockNumberCorrupt)
          '' (no rows have a usable number field)''))"
      unfolding low_def GetLowestStoredBlockNumber_def rows [symmetric]
      by (rule query_empty) (use assms(1) True qlim in \<open>simp_all add: answers_numbers_def\<close>)
    show ?thesis
      using h l True corrupt_not_notFound [of "''GetHighestStoredBlockNumber''"]
        corrupt_not_notFound [of "''GetLowestStoredBlockNumber''"]
      by (simp add: ns_def del: append.simps)
  qed
qed

definition demo_exec :: exec_request where
  "demo_exec q = (if q = any_query ''Ethereum__Mainnet__Block''
     then \<lparr>gql_Errors = [], gql_Data = AMap [''Ethereum__Mainnet__Block'' \<mapsto> AMaps [[''_docID'' \<mapsto> AString ''bae-7'']]]\<rparr>
     else \<lparr>gql_Errors = [], gql_Data = AMap [''Ethereum__Mainnet__Block'' \<mapsto> AMaps [number_row (''bae-7'', 42)]]\<rparr>)"

lemma demo_exec_answers:
  "answers_numbers demo_exec (Block (collections (NewEvmConverter None))) [(''bae-7'', Some 42)]"
proof -
  have take: "take (nat n) [x] = [x]" if "0 < n" for n :: int and x :: "docID \<times> int"
    using that by (cases "nat n") auto
  have ne: "number_query col order n \<noteq> any_query col" for col order n
    by (simp add: number_query_def any_query_def)
  have col: "Block (collections (NewEvmConverter None)) = ''Ethereum__Mainnet__Block''"
    by (simp add: NewEvmConverter_def NewCollectionNames_def chainPrefixFromConfig_def)
  show ?thesis unfolding answers_numbers_def col demo_exec_def
    by (simp only: ne if_False if_True) (simp add: usable_docs_def take)
qed

theorem stored_block_bounds_witness:
  "GetHighestStoredBlockNumber (\<lambda>_. []) (\<lambda>_. []) 0 demo_exec (NewEvmConverter None) = Inr 42
   \<and> GetLowestStoredBlockNumber (\<lambda>_. []) (\<lambda>_. []) 0 demo_exec (NewEvmConverter None) = Inr 42"
  using stored_block_bounds [OF demo_exec_answers, of "\<lambda>_. []" "\<lambda>_. []" 0]
  by (simp add: usable_docs_def)

text \<open>The docIDs of a collection for a block range are exactly those of the stored documents
  whose number lies in the range, each as often as it is stored, although the range is asked in
  windows of 100 blocks.\<close>

theorem queryCollectionDocIDs_exact:
  assumes "answers_range exec col field stored from to"
  shows "\<exists>ids. queryCollectionDocIDs exec col field from to = Inr ids \<and> mset ids = mset (in_range from to stored)"
  using query_chunks_exact [OF assms order_refl, of "[]"] by (simp add: queryCollectionDocIDs_def)

theorem queryCollectionDocIDs_exact_witness:
  "\<exists>ids. queryCollectionDocIDs
     (\<lambda>q. \<lparr>gql_Errors = [], gql_Data = AMap [''Log'' \<mapsto> AMaps [[''_docID'' \<mapsto> AString ''bae-1'']]]\<rparr>) ''Log'' ''blockNumber'' 5 5
     = Inr ids \<and> mset ids = {#''bae-1''#}"
proof -
  let ?exec = "\<lambda>q. \<lparr>gql_Errors = [], gql_Data = AMap [''Log'' \<mapsto> AMaps [[''_docID'' \<mapsto> AString ''bae-1'']]]\<rparr>"
  have "answers_range ?exec ''Log'' ''blockNumber'' [(5, ''bae-1''), (6, ''bae-2'')] 5 5"
    by (auto simp: answers_range_def in_range_def)
  from queryCollectionDocIDs_exact [OF this] show ?thesis by (simp add: in_range_def)
qed

text \<open>The access-list documents of a block are one per distinct pair of transaction and
  entry, in chain order, each with its transaction's hash as parent reference: repeats inside a
  transaction are dropped, equal entries of different transactions are kept. Hash, address and
  storage keys are hexadecimal, so they contain no separator and no key is empty.\<close>

theorem buildALEDocs_distinct:
  assumes "list_all clean_pair (ale_pairs txs)"
  shows "\<exists>ps. buildALEDocs txs n = (map (\<lambda>p. buildALEData (snd p) n) ps, map fst ps)
    \<and> distinct ps \<and> set ps = set (ale_pairs txs) \<and> subseq ps (ale_pairs txs)"
  using ale_fold_first_only [of "{}" txs n "[]" "[]"] assms first_only_facts [of "{}" "ale_pairs txs"]
  by (intro exI [of _ "first_only {} (ale_pairs txs)"]) (simp add: buildALEDocs_def)

definition demo_tx :: "hash \<Rightarrow> EvmTransaction" where
  "demo_tx h = \<lparr>tx_Hash = h, tx_BlockHash = ''0xb1'', tx_BlockNumber = ''7'', tx_From = [], tx_To = [],
     tx_Value = [], tx_Gas = [], tx_GasPrice = [], tx_MaxFeePerGas = [], tx_MaxPriorityFeePerGas = [],
     tx_Input = [], tx_Nonce = [], tx_TransactionIndex = 0, tx_Type = [], tx_ChainID = [],
     AccessList = [\<lparr>ale_Address = ''0xaa'', StorageKeys = [''0x01'']\<rparr>, \<lparr>ale_Address = ''0xaa'', StorageKeys = [''0x01'']\<rparr>],
     tx_V = [], tx_R = [], tx_S = [], tx_Status = True, tx_GasUsed = [], tx_CumulativeGasUsed = [],
     tx_EffectiveGasPrice = [], tx_Logs = []\<rparr>"

theorem buildALEDocs_distinct_witness:
  "\<exists>ps. buildALEDocs [Some (demo_tx ''0x11''), None, Some (demo_tx ''0x22'')] 7
      = (map (\<lambda>p. buildALEData (snd p) 7) ps, map fst ps)
    \<and> distinct ps \<and> set ps = set (ale_pairs [Some (demo_tx ''0x11''), None, Some (demo_tx ''0x22'')])
    \<and> subseq ps (ale_pairs [Some (demo_tx ''0x11''), None, Some (demo_tx ''0x22'')])"
  by (rule buildALEDocs_distinct) (simp add: ale_pairs_def demo_tx_def clean_pair_def)

text \<open>The RPC client writes every block number in decimal (\<open>%d\<close>): in the block, in each
  transaction and in each log.\<close>

definition bundle_numbered :: "height \<Rightarrow> BlockBundle \<Rightarrow> bool" where
  "bundle_numbered n b \<longleftrightarrow>
     (case bdl_Block b of None \<Rightarrow> False | Some blk \<Rightarrow> blk_Number blk = itoa n)
     \<and> list_all (\<lambda>tx. case tx of None \<Rightarrow> True | Some t \<Rightarrow> tx_BlockNumber t = itoa n) (bdl_Transactions b)
     \<and> list_all (\<lambda>r. case r of None \<Rightarrow> True
         | Some x \<Rightarrow> list_all (\<lambda>l. log_BlockNumber l = itoa n) (rc_Logs x)) (bdl_Receipts b)"

lemma buildReceiptMap_range: "buildReceiptMap rs h = Some r \<Longrightarrow> Some r \<in> set rs"
proof -
  have "fold (\<lambda>r m. case r of None \<Rightarrow> m | Some x \<Rightarrow> m(rc_TransactionHash x \<mapsto> x)) rs m h = Some r \<Longrightarrow>
      Some r \<in> set rs \<or> m h = Some r" for m
    by (induction rs arbitrary: m) (fastforce split: option.splits if_splits)+
  then show "buildReceiptMap rs h = Some r \<Longrightarrow> Some r \<in> set rs" by (fastforce simp: buildReceiptMap_def)
qed

lemma doc_numbers:
  assumes "bundle_numbered n b" and "0 \<le> n" and "n < 2 ^ 63"
  shows "d \<in> set (buildTransactionDocs b) \<Longrightarrow> d ''blockNumber'' = Some (AInt64 n)"
    and "d \<in> set (buildLogDocs (bdl_Transactions b) (buildReceiptMap (bdl_Receipts b))) \<Longrightarrow>
      d ''blockNumber'' = Some (AInt64 n)"
    and "d \<in> set (fst (buildALEDocs txs n)) \<Longrightarrow> d ''blockNumber'' = Some (AInt64 n)"
proof -
  assume "d \<in> set (buildTransactionDocs b)"
  then obtain t where "Some t \<in> set (bdl_Transactions b)" and d: "d = buildTransactionData t"
    by (auto simp: buildTransactionDocs_def split: option.splits)
  then have "tx_BlockNumber t = itoa n" using assms(1) by (auto simp: bundle_numbered_def list_all_iff)
  then show "d ''blockNumber'' = Some (AInt64 n)"
    using ParseInt_decimal [of n] assms(2,3) by (simp add: d buildTransactionData_def Let_def)
next
  assume "d \<in> set (buildLogDocs (bdl_Transactions b) (buildReceiptMap (bdl_Receipts b)))"
  then obtain h r l where r: "buildReceiptMap (bdl_Receipts b) h = Some r" "l \<in> set (rc_Logs r)" "d = buildLogData l"
    by (auto simp: buildLogDocs_def split: option.splits) metis
  then have "log_BlockNumber l = itoa n"
    using assms(1) buildReceiptMap_range [OF r(1)] by (auto simp: bundle_numbered_def list_all_iff split: option.splits)
  then show "d ''blockNumber'' = Some (AInt64 n)"
    using HexToInt_decimal [of n 0] assms(2,3) r(3) by (simp add: buildLogData_def Let_def)
next
  have ents: "\<forall>d \<in> set docs. d ''blockNumber'' = Some (AInt64 n) \<Longrightarrow>
      \<forall>d \<in> set (fst (snd (ale_entries h n as (seen, docs, refs)))). d ''blockNumber'' = Some (AInt64 n)"
    for h as seen docs refs
  proof (induction as arbitrary: seen docs refs)
    case (Cons a as)
    have new: "\<forall>d \<in> set (docs @ [buildALEData a n]). d ''blockNumber'' = Some (AInt64 n)"
      using Cons.prems by (simp add: buildALEData_def)
    show ?case using Cons.IH [OF Cons.prems] Cons.IH [OF new] by (simp add: Let_def)
  qed simp
  have "\<forall>d \<in> set (fst (snd acc)). d ''blockNumber'' = Some (AInt64 n) \<Longrightarrow>
      \<forall>d \<in> set (fst (snd (fold (\<lambda>tx acc. case tx of None \<Rightarrow> acc
        | Some t \<Rightarrow> ale_entries (tx_Hash t) n (AccessList t) acc) txs acc))). d ''blockNumber'' = Some (AInt64 n)"
    for acc
  proof (induction txs arbitrary: acc)
    case (Cons tx txs)
    obtain seen docs refs where acc: "acc = (seen, docs, refs)" by (metis surj_pair)
    show ?case
    proof (cases tx)
      case None
      then show ?thesis using Cons.IH [OF Cons.prems] by simp
    next
      case (Some t)
      have "\<forall>d \<in> set docs. d ''blockNumber'' = Some (AInt64 n)" using Cons.prems by (simp add: acc)
      from Cons.IH [OF ents [OF this]] show ?thesis by (simp add: Some acc)
    qed
  qed simp
  from this [of "({}, [], [])"] show "d \<in> set (fst (buildALEDocs txs n)) \<Longrightarrow> d ''blockNumber'' = Some (AInt64 n)"
    by (simp add: buildALEDocs_def)
qed

text \<open>Converting a block whose parts carry its number succeeds; the groups are the block
  followed by those of transactions, logs and access lists that are not empty, in the order the
  link stamper needs; the block group holds exactly the block document; and every document of
  every group carries the block's number under the field the group names.\<close>

theorem Convert_groups:
  assumes "bundle_numbered n b" and "0 \<le> n" and "n < 2 ^ 63"
  shows "\<exists>r blk gs. Convert now c (RawBundle (Some b)) = Inr r \<and> bdl_Block b = Some blk
    \<and> Groups r = \<lparr>Collection = Block (collections c), Docs = [buildBlockData blk n], BatchSize = maxDocsPerTxn c,
        BlockNumField = ''number'', BlockHashField = ''hash'', ParentHashField = ''parentHash''\<rparr> # gs
    \<and> subseq (map Collection gs)
        [Transaction (collections c), Log (collections c), AccessListEntry (collections c)]
    \<and> (\<forall>g \<in> set (Groups r). Docs g \<noteq> [] \<and> 0 < BatchSize g
        \<and> (\<forall>d \<in> set (Docs g). d (BlockNumField g) = Some (AInt64 n)))
    \<and> length (concat (map Docs gs)) = length (buildTransactionDocs b)
        + length (buildLogDocs (bdl_Transactions b) (buildReceiptMap (bdl_Receipts b)))
        + length (fst (buildALEDocs (bdl_Transactions b) n))"
proof -
  obtain blk where blk: "bdl_Block b = Some blk" "HexToInt now (blk_Number blk) = Inr n"
    using assms HexToInt_decimal by (auto simp: bundle_numbered_def split: option.splits)
  obtain ales refs where ales: "buildALEDocs (bdl_Transactions b) n = (ales, refs)" by force
  have pos: "0 < maxDocsPerTxn c" "0 < txBatchSize c (maxDocsPerTxn c)" "0 < logBatchSize c (maxDocsPerTxn c)"
    "0 < aleBatchSize c (maxDocsPerTxn c)"
    by (auto simp: maxDocsPerTxn_def txBatchSize_def logBatchSize_def aleBatchSize_def positive_or_def split: option.splits)
  let ?txs = "buildTransactionDocs b"
  let ?logs = "buildLogDocs (bdl_Transactions b) (buildReceiptMap (bdl_Receipts b))"
  let ?gs = "(if ?txs \<noteq> [] then [data_group (Transaction (collections c)) ?txs (txBatchSize c (maxDocsPerTxn c))] else [])
    @ (if ?logs \<noteq> [] then [data_group (Log (collections c)) ?logs (logBatchSize c (maxDocsPerTxn c))] else [])
    @ (if ales \<noteq> [] then [data_group (AccessListEntry (collections c)) ales (aleBatchSize c (maxDocsPerTxn c))] else [])"
  let ?g = "\<lparr>Collection = Block (collections c), Docs = [buildBlockData blk n], BatchSize = maxDocsPerTxn c,
        BlockNumField = ''number'', BlockHashField = ''hash'', ParentHashField = ''parentHash''\<rparr>"
  let ?r = "\<lparr>Groups = ?g # ?gs, SignatureCollection = BlockSignature (collections c),
        LinkStamper = newEvmLinkStamper (collections c) refs\<rparr>"
  have conv: "Convert now c (RawBundle (Some b)) = Inr ?r" using blk ales by (simp add: Convert_def Let_def)
  have sub: "subseq (map Collection ?gs) [Transaction (collections c), Log (collections c), AccessListEntry (collections c)]"
    by simp
  have all: "Docs g \<noteq> [] \<and> 0 < BatchSize g \<and> (\<forall>d \<in> set (Docs g). d (BlockNumField g) = Some (AInt64 n))"
    if "g \<in> set (Groups ?r)" for g
  proof -
    have "\<forall>d \<in> set ales. d ''blockNumber'' = Some (AInt64 n)" using doc_numbers(3) [OF assms, of _ "bdl_Transactions b"] ales by simp
    moreover have "buildBlockData blk n ''number'' = Some (AInt64 n)" by (simp add: buildBlockData_def)
    ultimately show ?thesis using that pos doc_numbers(1,2) [OF assms] by (auto split: if_splits)
  qed
  have len: "length (concat (map Docs ?gs)) = length ?txs + length ?logs + length (fst (buildALEDocs (bdl_Transactions b) n))"
    by (simp add: ales)
  show ?thesis
    using conv blk(1) sub all len
    by (intro exI [of _ ?r] exI [of _ blk] exI [of _ ?gs] conjI ballI) (assumption | blast | simp)+
qed

definition demo_block :: EvmBlock where
  "demo_block = \<lparr>blk_Hash = ''0xb1'', blk_Number = ''7'', blk_Timestamp = [], blk_ParentHash = ''0xb0'',
     blk_Difficulty = [], blk_TotalDifficulty = [], blk_GasUsed = [], blk_GasLimit = [], blk_BaseFeePerGas = [],
     blk_Nonce = [], blk_Miner = [], blk_Size = [], blk_StateRoot = [], blk_Sha3Uncles = [],
     blk_TransactionsRoot = [], blk_ReceiptsRoot = [], blk_LogsBloom = [], blk_ExtraData = [], blk_MixHash = [],
     blk_Uncles = [], blk_Transactions = []\<rparr>"

definition demo_bundle :: BlockBundle where
  "demo_bundle = \<lparr>bdl_Block = Some demo_block, bdl_Transactions = [Some (demo_tx ''0x11''), None], bdl_Receipts = []\<rparr>"

lemma itoa_7: "itoa 7 = ''7''"
  by (simp add: itoa_def nat_text.simps digit_char_def)

theorem Convert_groups_witness:
  "\<exists>r gs. Convert 0 (NewEvmConverter None) (RawBundle (Some demo_bundle)) = Inr r
    \<and> Groups r = \<lparr>Collection = ''Ethereum__Mainnet__Block'', Docs = [buildBlockData demo_block 7], BatchSize = 1000,
        BlockNumField = ''number'', BlockHashField = ''hash'', ParentHashField = ''parentHash''\<rparr> # gs"
proof -
  have "bundle_numbered 7 demo_bundle"
    by (simp add: bundle_numbered_def demo_bundle_def demo_block_def demo_tx_def itoa_7)
  from Convert_groups [OF this, of 0 "NewEvmConverter None"] show ?thesis
    by (auto simp: NewEvmConverter_def NewCollectionNames_def chainPrefixFromConfig_def maxDocsPerTxn_def
        positive_or_def demo_bundle_def)
qed

end
