(* ===== verification/Continuity.thy ===== *)
theory Continuity
  imports Evm_Converter
begin

text \<open>
  File \<open>pkg/indexer/concurrent_processor.go\<close>, the sequential procedures of the block processor: the
  parent-hash detection rules, the retry loops around fetch and store, the failure handler of the
  store pool and the reorg walk-back.

  A retry loop that may wait forever is a \<open>partial_function\<close> whose value \<open>None\<close> is not
  returning; the outcomes of its successive calls and of the context are functions of the attempt
  number. The store is a function on the world of the database. A nil reorg handler is \<open>None\<close>; a
  handler is used through \<open>GetStoredBlockHash\<close>.
\<close>

section \<open>Data\<close>

record reorgSignal =
  rollbackFrom :: height
  orphanHash :: hash
  chainHash :: hash

record BlockResult =
  br_Num :: height
  br_ID :: docID
  br_Hash :: hash
  br_ParentHash :: hash
  br_Success :: bool
  br_Error :: "goerror option"
  br_Converted :: ConversionResult

type_synonym stored_query = "height \<Rightarrow> hash result"

abbreviation MaxRPCRetries :: nat where "MaxRPCRetries \<equiv> 3"
abbreviation maxWalkBackDepth :: int where "maxWalkBackDepth \<equiv> 64"

definition empty_conversion :: ConversionResult where
  "empty_conversion = \<lparr>Groups = [], SignatureCollection = [],
     LinkStamper = newEvmLinkStamper (NewCollectionNames []) []\<rparr>"

section \<open>Hashes of a conversion\<close>

fun extractBlockHash :: "DocumentGroup list \<Rightarrow> hash" where
  "extractBlockHash [] = []"
| "extractBlockHash (g # gs) =
     (if BlockHashField g \<noteq> [] \<and> Docs g \<noteq> [] then
        (case as_string (mget (hd (Docs g)) (BlockHashField g)) of Some h \<Rightarrow> h | None \<Rightarrow> extractBlockHash gs)
      else extractBlockHash gs)"

fun extractBlockParentHash :: "DocumentGroup list \<Rightarrow> hash" where
  "extractBlockParentHash [] = []"
| "extractBlockParentHash (g # gs) =
     (if ParentHashField g \<noteq> [] \<and> Docs g \<noteq> [] then
        (case as_string (mget (hd (Docs g)) (ParentHashField g)) of Some h \<Rightarrow> h | None \<Rightarrow> extractBlockParentHash gs)
      else extractBlockParentHash gs)"

section \<open>Detection rules\<close>

definition continuitySignal :: "height \<Rightarrow> hash \<Rightarrow> height \<Rightarrow> hash \<Rightarrow> BlockResult \<Rightarrow> reorgSignal option" where
  "continuitySignal runStartBlock seedHash lastCheckedNum lastCheckedHash nxt = (let n = br_Num nxt in
     if n = runStartBlock \<and> seedHash \<noteq> [] \<and> br_ParentHash nxt \<noteq> [] \<and> br_ParentHash nxt \<noteq> seedHash
     then Some \<lparr>rollbackFrom = n - 1, orphanHash = seedHash, chainHash = br_ParentHash nxt\<rparr>
     else if lastCheckedNum = n - 1 \<and> lastCheckedHash \<noteq> [] \<and> br_ParentHash nxt \<noteq> []
       \<and> br_ParentHash nxt \<noteq> lastCheckedHash
     then Some \<lparr>rollbackFrom = n - 1, orphanHash = lastCheckedHash, chainHash = br_ParentHash nxt\<rparr>
     else None)"

definition gapFallbackSignal :: "hash \<Rightarrow> BlockResult \<Rightarrow> reorgSignal option" where
  "gapFallbackSignal storedHash nxt =
     (if storedHash = [] \<or> br_ParentHash nxt = [] \<or> storedHash = br_ParentHash nxt then None
      else Some \<lparr>rollbackFrom = br_Num nxt - 1, orphanHash = storedHash, chainHash = br_ParentHash nxt\<rparr>)"

definition detectStaleOrphan :: "stored_query \<Rightarrow> BlockResult \<Rightarrow> reorgSignal option" where
  "detectStaleOrphan query item =
     (if br_Hash item = [] then None
      else case query (br_Num item) of Inl _ \<Rightarrow> None
      | Inr stored \<Rightarrow> if stored = [] then None
          else if stored = br_Hash item then None
          else Some \<lparr>rollbackFrom = br_Num item, orphanHash = stored, chainHash = br_Hash item\<rparr>)"

section \<open>Retry around the RPC\<close>

text \<open>
  The loop shared by \<open>fetchBlockWithRetry\<close> and \<open>fetchHeaderByHashWithRetry\<close>. At attempt \<open>i\<close>,
  \<open>pre i\<close> is the context error before the call, \<open>call i\<close> the outcome of the call and \<open>wait i\<close>
  the context error if the context ends during the pause after it.
\<close>

record rpc_env =
  pre :: "nat \<Rightarrow> goerror option"
  wait :: "nat \<Rightarrow> goerror option"

partial_function (option) rpc_retry ::
  "rpc_env \<Rightarrow> (nat \<Rightarrow> 'a result) \<Rightarrow> (goerror \<Rightarrow> goerror) \<Rightarrow> nat \<Rightarrow> nat \<Rightarrow> 'a result option" where
  "rpc_retry env call wrap i otherErrors =
     (case pre env i of Some e \<Rightarrow> Some (Inl e)
      | None \<Rightarrow> (case call i of
          Inr v \<Rightarrow> Some (Inr v)
        | Inl err \<Rightarrow>
            if IsErrNotFound (Some err) then
              (case wait env i of Some e \<Rightarrow> Some (Inl e) | None \<Rightarrow> rpc_retry env call wrap (Suc i) otherErrors)
            else if Suc otherErrors \<ge> MaxRPCRetries then Some (Inl (wrap err))
            else (case wait env i of Some e \<Rightarrow> Some (Inl e)
                  | None \<Rightarrow> rpc_retry env call wrap (Suc i) (Suc otherErrors))))"

definition fetchBlockWithRetry :: "rpc_env \<Rightarrow> (nat \<Rightarrow> raw_block result) \<Rightarrow> height \<Rightarrow> raw_block result option" where
  "fetchBlockWithRetry env FetchBlock n = rpc_retry env FetchBlock
     (\<lambda>err. Wrapped (''failed to fetch block '' @ itoa n @ '': '') err []) 0 0"

definition fetchHeaderByHashWithRetry :: "rpc_env \<Rightarrow> (nat \<Rightarrow> BlockHeader result) \<Rightarrow> hash \<Rightarrow> BlockHeader result option" where
  "fetchHeaderByHashWithRetry env FetchHeader h = rpc_retry env FetchHeader
     (\<lambda>err. Wrapped (''failed to fetch block header by hash '' @ h @ '': '') err []) 0 0"

definition fetchAndConvertBlock ::
  "int \<Rightarrow> Converter \<Rightarrow> rpc_env \<Rightarrow> (nat \<Rightarrow> raw_block result) \<Rightarrow> height \<Rightarrow> BlockResult option" where
  "fetchAndConvertBlock now conv env FetchBlock n = (case fetchBlockWithRetry env FetchBlock n of
     None \<Rightarrow> None
   | Some (Inl err) \<Rightarrow> Some \<lparr>br_Num = n, br_ID = [], br_Hash = [], br_ParentHash = [], br_Success = False,
       br_Error = Some err, br_Converted = empty_conversion\<rparr>
   | Some (Inr raw) \<Rightarrow> (case Convert now conv raw of
       Inl err \<Rightarrow> Some \<lparr>br_Num = n, br_ID = [], br_Hash = [], br_ParentHash = [], br_Success = False,
         br_Error = Some (Wrapped ''convert block: '' err []), br_Converted = empty_conversion\<rparr>
     | Inr converted \<Rightarrow> Some \<lparr>br_Num = n, br_ID = [], br_Hash = extractBlockHash (Groups converted),
         br_ParentHash = extractBlockParentHash (Groups converted), br_Success = True, br_Error = None,
         br_Converted = converted\<rparr>))"

section \<open>Store with retry\<close>

text \<open>
  \<open>Store\<close> maps the world of the database to a new world and either the block's docID or an error.
  The third component of the result tells whether a \<open>SignExisting\<close> goroutine was started.
\<close>

fun store_attempts ::
  "rpc_env \<Rightarrow> ('w \<Rightarrow> 'w \<times> docID result) \<Rightarrow> height \<Rightarrow> hash \<Rightarrow>
   nat \<Rightarrow> nat \<Rightarrow> 'w \<Rightarrow> 'w \<times> BlockResult \<times> bool" where
  "store_attempts env store n h attempt 0 w =
     (w, \<lparr>br_Num = n, br_ID = [], br_Hash = h, br_ParentHash = [], br_Success = False,
        br_Error = Some (ErrMsg (''failed to store block '' @ itoa n @ '': exhausted retries'')),
        br_Converted = empty_conversion\<rparr>, False)"
| "store_attempts env store n h attempt (Suc left) w =
     (let failed = (\<lambda>e. \<lparr>br_Num = n, br_ID = [], br_Hash = h, br_ParentHash = [], br_Success = False,
            br_Error = Some e, br_Converted = empty_conversion\<rparr>);
          stored = (\<lambda>bid. \<lparr>br_Num = n, br_ID = bid, br_Hash = h, br_ParentHash = [], br_Success = True,
            br_Error = None, br_Converted = empty_conversion\<rparr>)
      in case pre env attempt of Some e \<Rightarrow> (w, failed e, False)
      | None \<Rightarrow> (case store w of
          (w', Inr bid) \<Rightarrow> (w', stored bid, False)
        | (w', Inl err) \<Rightarrow>
            if IsErrAlreadyExists (Some err) then (w', stored [], True)
            else if IsErrTransactionConflict (Some err) \<and> attempt < MaxRPCRetries - 1 then
              (case wait env attempt of Some e \<Rightarrow> (w', failed e, False)
               | None \<Rightarrow> store_attempts env store n h (Suc attempt) left w')
            else (w', failed (Wrapped ''failed to store block: '' err []), False)))"

definition storeWithRetry ::
  "rpc_env \<Rightarrow> (ConversionResult \<Rightarrow> 'w \<Rightarrow> 'w \<times> docID result) \<Rightarrow>
   height \<Rightarrow> ConversionResult \<Rightarrow> 'w \<Rightarrow> 'w \<times> BlockResult \<times> bool" where
  "storeWithRetry env Store n r w =
     store_attempts env (Store r) n (extractBlockHash (Groups r)) 0 MaxRPCRetries w"

section \<open>Walk-back\<close>

text \<open>\<open>finalized\<close> is the outcome of \<open>FetchFinalizedBlockNumber\<close>, \<open>query\<close> the stored-hash query and
  \<open>header\<close> the outcome of \<open>fetchHeaderByHashWithRetry\<close> for a hash. The loop descends one height per
  iteration, so it ends below genesis at the latest.\<close>

function walk_back ::
  "stored_query \<Rightarrow> (hash \<Rightarrow> BlockHeader result) \<Rightarrow> height \<Rightarrow> height \<Rightarrow> height \<Rightarrow> int \<Rightarrow> height \<Rightarrow> hash \<Rightarrow>
   (height \<Rightarrow> hash option) \<Rightarrow> (height \<times> (height \<Rightarrow> hash option)) result" where
  "walk_back query header configuredStart startHeight finalFloor depth cur curHash chainHashes =
     (if cur < 0 then Inl (ErrMsg (''reorg walk-back from height '' @ itoa startHeight
        @ '': walked past genesis without a common ancestor''))
      else let chainHashes = chainHashes(cur \<mapsto> curHash) in
        case query cur of
          Inl err \<Rightarrow> Inl (Wrapped (''reorg walk-back: query stored hash at '' @ itoa cur @ '': '') err [])
        | Inr stored \<Rightarrow>
            if stored \<noteq> [] \<and> stored = curHash then Inr (cur, chainHashes)
            else if stored = [] \<and> cur < configuredStart then Inr (cur, chainHashes)
            else if finalFloor < 0 \<and> depth \<ge> maxWalkBackDepth
            then Inl (ErrMsg (''reorg walk-back from height '' @ itoa startHeight @ '': exceeded the ''
              @ itoa maxWalkBackDepth @ ''-level depth cap without a common ancestor (no finalized height available)''))
            else (case header curHash of
              Inl err \<Rightarrow> Inl (Wrapped (''reorg walk-back from height '' @ itoa startHeight @ '': '') err [])
            | Inr hdr \<Rightarrow>
                if ParentHash hdr = [] then Inl (ErrMsg (''reorg walk-back: block '' @ curHash @ '' carries no parent hash''))
                else walk_back query header configuredStart startHeight finalFloor (depth + 1) (cur - 1) (ParentHash hdr) chainHashes))"
  by pat_completeness auto
termination
  by (relation "measure (\<lambda>(q, h, c, s, f, d, cur, ch, m). nat (cur + 1))") auto

declare walk_back.simps [simp del]

definition resolveForkPoint ::
  "height result \<Rightarrow> stored_query \<Rightarrow> (hash \<Rightarrow> BlockHeader result) \<Rightarrow> height \<Rightarrow> height \<Rightarrow> hash \<Rightarrow>
   (height \<times> (height \<Rightarrow> hash option)) result" where
  "resolveForkPoint finalized query header configuredStart startHeight startChainHash =
     (if startHeight < 0 then Inl (ErrMsg ''reorg walk-back: walked past genesis without a common ancestor'')
      else if startChainHash = [] then Inl (ErrMsg (''reorg walk-back from height '' @ itoa startHeight
        @ '': the chain hash at the conflict height is unknown''))
      else let finalFloor = (case finalized of Inl _ \<Rightarrow> -1 | Inr f \<Rightarrow> f)
           in walk_back query header configuredStart startHeight finalFloor 0 startHeight startChainHash (\<lambda>_. None))"

section \<open>Lemmas on the retry loops\<close>

lemma rpc_retry_returns:
  assumes "i \<le> j" and "pre env j \<noteq> None \<or> wait env j \<noteq> None \<or> (\<exists>v. call j = Inr v)"
  shows "\<exists>r. rpc_retry env call wrap i k = Some r"
  using assms
proof (induction "j - i" arbitrary: i k)
  case 0
  then have "i = j" by simp
  with 0 show ?case
    by (subst rpc_retry.simps) (auto split: option.splits sum.splits)
next
  case (Suc d)
  then have "d = j - Suc i" "Suc i \<le> j" by auto
  with Suc have "\<exists>r. rpc_retry env call wrap (Suc i) k' = Some r" for k' by blast
  then show ?case by (subst rpc_retry.simps) (auto split: option.splits sum.splits)
qed

text \<open>What a returned result can be: the context's error, the value of some attempt, or the wrapped
  error of an attempt that was not a not-found.\<close>

definition rpc_outcome :: "rpc_env \<Rightarrow> (nat \<Rightarrow> 'a result) \<Rightarrow> (goerror \<Rightarrow> goerror) \<Rightarrow> nat \<Rightarrow> 'a result \<Rightarrow> bool" where
  "rpc_outcome env call wrap i r \<longleftrightarrow> (\<exists>j \<ge> i. case r of
     Inr v \<Rightarrow> call j = Inr v
   | Inl e \<Rightarrow> pre env j = Some e \<or> wait env j = Some e
       \<or> (\<exists>err. call j = Inl err \<and> \<not> IsErrNotFound (Some err) \<and> e = wrap err))"

lemma rpc_outcome_Suc: "rpc_outcome env call wrap (Suc i) r \<Longrightarrow> rpc_outcome env call wrap i r"
  unfolding rpc_outcome_def by (meson Suc_leD)

lemma rpc_outcome_here:
  "pre env i = Some e \<Longrightarrow> rpc_outcome env call wrap i (Inl e)"
  "wait env i = Some e \<Longrightarrow> rpc_outcome env call wrap i (Inl e)"
  "call i = Inr v \<Longrightarrow> rpc_outcome env call wrap i (Inr v)"
  "call i = Inl err \<Longrightarrow> \<not> IsErrNotFound (Some err) \<Longrightarrow> rpc_outcome env call wrap i (Inl (wrap err))"
  unfolding rpc_outcome_def by (intro exI [of _ i]; auto)+

lemma rpc_retry_sound:
  assumes "rpc_retry env call wrap i k = Some r"
  shows "rpc_outcome env call wrap i r"
proof (rule rpc_retry.raw_induct [where P = "\<lambda>env call wrap i k r. rpc_outcome env call wrap i r", OF _ assms])
  fix self :: "rpc_env \<Rightarrow> (nat \<Rightarrow> 'a result) \<Rightarrow> (goerror \<Rightarrow> goerror) \<Rightarrow> nat \<Rightarrow> nat \<Rightarrow> 'a result option"
    and env call wrap i k r
  assume IH: "\<And>env call wrap i k r. self env call wrap i k = Some r \<Longrightarrow> rpc_outcome env call wrap i r"
    and eq: "(case pre env i of Some e \<Rightarrow> Some (Inl e)
      | None \<Rightarrow> (case call i of
          Inr v \<Rightarrow> Some (Inr v)
        | Inl err \<Rightarrow>
            if IsErrNotFound (Some err) then
              (case wait env i of Some e \<Rightarrow> Some (Inl e) | None \<Rightarrow> self env call wrap (Suc i) k)
            else if Suc k \<ge> MaxRPCRetries then Some (Inl (wrap err))
            else (case wait env i of Some e \<Rightarrow> Some (Inl e)
                  | None \<Rightarrow> self env call wrap (Suc i) (Suc k)))) = Some r"
  have step: "rpc_outcome env call wrap i r" if "self env call wrap (Suc i) k' = Some r" for k'
    using IH [OF that] by (rule rpc_outcome_Suc)
  show "rpc_outcome env call wrap i r"
  proof (cases "call i")
    case (Inr v)
    then show ?thesis using eq rpc_outcome_here(1) [of env i] rpc_outcome_here(3) [of call i v]
      by (auto split: option.splits)
  next
    case (Inl err)
    then show ?thesis using eq
      by (auto split: option.splits if_splits intro: rpc_outcome_here step)
  qed
qed

text \<open>Three errors that are not not-found end the loop.\<close>

lemma rpc_retry_gives_up:
  assumes "pre env 0 = None" "pre env 1 = None" "pre env 2 = None" "wait env 0 = None" "wait env 1 = None"
    and "call 0 = Inl e0" "call 1 = Inl e1" "call 2 = Inl e2"
    and "\<not> IsErrNotFound (Some e0)" "\<not> IsErrNotFound (Some e1)" "\<not> IsErrNotFound (Some e2)"
  shows "rpc_retry env call wrap 0 0 = Some (Inl (wrap e2))"
  using assms by (simp add: rpc_retry.simps numeral_2_eq_2)

section \<open>Lemmas on the walk-back\<close>

text \<open>One descended height that does not end the walk.\<close>

definition passed :: "stored_query \<Rightarrow> (hash \<Rightarrow> BlockHeader result) \<Rightarrow> height \<Rightarrow> (height \<Rightarrow> hash option) \<Rightarrow> height \<Rightarrow> bool" where
  "passed query header configuredStart ch h \<longleftrightarrow> (\<exists>x s hdr. ch h = Some x \<and> query h = Inr s
     \<and> (if s = [] then configuredStart \<le> h else s \<noteq> x)
     \<and> header x = Inr hdr \<and> ParentHash hdr \<noteq> [] \<and> ch (h - 1) = Some (ParentHash hdr))"

lemma walk_back_sound:
  "walk_back query header cs start fl depth cur curHash m = Inr (f, ch) \<Longrightarrow>
   0 \<le> f \<and> f \<le> cur \<and> ch cur = Some curHash
   \<and> (\<exists>x s. ch f = Some x \<and> query f = Inr s \<and> (s \<noteq> [] \<and> s = x \<or> s = [] \<and> f < cs))
   \<and> (\<forall>h. f < h \<and> h \<le> cur \<longrightarrow> passed query header cs ch h)
   \<and> (\<forall>h. h < f \<or> cur < h \<longrightarrow> ch h = m h)
   \<and> (fl < 0 \<longrightarrow> depth \<le> 64 \<longrightarrow> cur - f \<le> 64 - depth)"
proof (induction query header cs start fl depth cur curHash m rule: walk_back.induct)
  case (1 query header cs start fl depth cur curHash m)
  note eq = walk_back.simps [of query header cs start fl depth cur curHash m]
  have cur: "0 \<le> cur" using "1.prems" unfolding eq by (auto split: if_splits)
  obtain s where s: "query cur = Inr s" using "1.prems" cur unfolding eq by (auto simp: Let_def split: sum.splits)
  show ?case
  proof (cases "s \<noteq> [] \<and> s = curHash \<or> s = [] \<and> cur < cs")
    case True
    then have "f = cur" "ch = m(cur \<mapsto> curHash)" using "1.prems" cur s unfolding eq by (auto simp: Let_def split: if_splits)
    then show ?thesis using True cur s by auto
  next
    case False
    have ns: "\<not> (s \<noteq> [] \<and> s = curHash)" "\<not> (s = [] \<and> cur < cs)" using False by auto
    have cap: "\<not> (fl < 0 \<and> 64 \<le> depth)"
      using "1.prems" cur s ns unfolding eq by (auto simp: Let_def split: if_splits)
    obtain hdr where hdr: "header curHash = Inr hdr" "ParentHash hdr \<noteq> []"
      using "1.prems" cur s ns cap unfolding eq by (auto simp: Let_def split: if_splits sum.splits)
    have rec: "walk_back query header cs start fl (depth + 1) (cur - 1) (ParentHash hdr) (m(cur \<mapsto> curHash)) = Inr (f, ch)"
      using "1.prems" cur s ns cap hdr unfolding eq by (auto simp: Let_def split: if_splits)
    have IH: "0 \<le> f" "f \<le> cur - 1" "ch (cur - 1) = Some (ParentHash hdr)"
      "\<exists>x s. ch f = Some x \<and> query f = Inr s \<and> (s \<noteq> [] \<and> s = x \<or> s = [] \<and> f < cs)"
      "\<forall>h. f < h \<and> h \<le> cur - 1 \<longrightarrow> passed query header cs ch h"
      "\<forall>h. h < f \<or> cur - 1 < h \<longrightarrow> ch h = (m(cur \<mapsto> curHash)) h"
      "fl < 0 \<longrightarrow> depth + 1 \<le> 64 \<longrightarrow> cur - 1 - f \<le> 64 - (depth + 1)"
      using "1.IH" [OF _ refl s ns cap hdr(1) hdr(2) rec] cur by auto
    have top: "ch cur = Some curHash" using IH(6) by simp
    then have "passed query header cs ch cur" using s ns hdr IH(3) by (auto simp: passed_def)
    then have all: "\<forall>h. f < h \<and> h \<le> cur \<longrightarrow> passed query header cs ch h"
      using IH(5) by (metis zle_diff1_eq order_le_less)
    have rest: "\<forall>h. h < f \<or> cur < h \<longrightarrow> ch h = m h" using IH(2,6) by auto
    have "fl < 0 \<longrightarrow> depth \<le> 64 \<longrightarrow> cur - f \<le> 64 - depth" using IH(7) cap by auto
    with IH(1,2,4) top all rest show ?thesis by simp
  qed
qed

text \<open>A node and a store seen from a walk-back: along the new chain \<open>chain\<close> every header is known
  and links to its predecessor, and every stored-hash query answers.\<close>

definition walkable :: "stored_query \<Rightarrow> (hash \<Rightarrow> BlockHeader result) \<Rightarrow> (height \<Rightarrow> hash) \<Rightarrow> (height \<Rightarrow> hash) \<Rightarrow> height \<Rightarrow> height \<Rightarrow> bool" where
  "walkable query header chain st a b \<longleftrightarrow> (\<forall>h \<in> {a .. b}. chain h \<noteq> [] \<and> query h = Inr (st h)
     \<and> (h = a \<or> (\<exists>hdr. header (chain h) = Inr hdr \<and> ParentHash hdr = chain (h - 1))))"

definition stops_at :: "(height \<Rightarrow> hash) \<Rightarrow> (height \<Rightarrow> hash) \<Rightarrow> height \<Rightarrow> height \<Rightarrow> bool" where
  "stops_at chain st cs h \<longleftrightarrow> st h \<noteq> [] \<and> st h = chain h \<or> st h = [] \<and> h < cs"

lemma walk_back_finds:
  assumes "walkable query header chain st a cur" and "0 \<le> a" and "a \<le> cur"
    and "stops_at chain st cs a" and "\<forall>h. a < h \<and> h \<le> cur \<longrightarrow> \<not> stops_at chain st cs h"
    and "fl < 0 \<longrightarrow> depth + (cur - a) \<le> 64"
  shows "\<exists>ch. walk_back query header cs start fl depth cur (chain cur) m = Inr (a, ch)"
  using assms
proof (induction "nat (cur - a)" arbitrary: cur depth m)
  case 0
  then have "cur = a" by simp
  then show ?case using 0 by (subst walk_back.simps) (auto simp: walkable_def stops_at_def Let_def)
next
  case (Suc k)
  then have lt: "a < cur" and k: "k = nat (cur - 1 - a)" by auto
  have cur: "query cur = Inr (st cur)" "chain cur \<noteq> []" "\<not> stops_at chain st cs cur" "chain (cur - 1) \<noteq> []"
    using Suc.prems lt by (auto simp: walkable_def)
  obtain hdr where hdr: "header (chain cur) = Inr hdr" "ParentHash hdr = chain (cur - 1)"
    using bspec [OF Suc.prems(1) [unfolded walkable_def], of cur] lt by auto
  have w: "walkable query header chain st a (cur - 1)" using Suc.prems(1) by (auto simp: walkable_def)
  have "\<exists>ch. walk_back query header cs start fl (depth + 1) (cur - 1) (chain (cur - 1)) (m(cur \<mapsto> chain cur)) = Inr (a, ch)"
    using Suc.hyps(1) [OF k w] Suc.prems lt by auto
  moreover have "\<not> (fl < 0 \<and> 64 \<le> depth)" using Suc.prems(6) lt by auto
  ultimately show ?case
    using cur hdr lt Suc.prems(2) by (subst walk_back.simps) (auto simp: stops_at_def Let_def)
qed

section \<open>Properties\<close>

text \<open>C34: the walk-back is sound. When it returns a fork point, the height is not negative and not
  above the start; the stored hash there equals the new chain's hash, or nothing is stored and the
  height lies below the configured start; every height above it up to the start carries a new-chain
  hash, linked to the one below by a header's parent hash, and what is stored there disagrees or is
  missing; no other height is in the map; and without a finalized height it is at most 64 deep.\<close>

theorem resolveForkPoint_sound:
  assumes "resolveForkPoint finalized query header cs start startHash = Inr (f, ch)"
  shows "0 \<le> f \<and> f \<le> start \<and> ch start = Some startHash \<and> startHash \<noteq> []
    \<and> (\<exists>x s. ch f = Some x \<and> query f = Inr s \<and> (s \<noteq> [] \<and> s = x \<or> s = [] \<and> f < cs))
    \<and> (\<forall>h. f < h \<and> h \<le> start \<longrightarrow> passed query header cs ch h)
    \<and> dom ch = {f .. start}
    \<and> (isl finalized \<longrightarrow> start - f \<le> 64)"
proof -
  let ?fl = "case finalized of Inl _ \<Rightarrow> -1 | Inr f \<Rightarrow> f"
  have w: "walk_back query header cs start ?fl 0 start startHash (\<lambda>_. None) = Inr (f, ch)"
    and h: "startHash \<noteq> []"
    using assms by (auto simp: resolveForkPoint_def split: if_splits)
  note sound = walk_back_sound [OF w]
  have "dom ch = {f .. start}"
  proof (intro set_eqI iffI)
    fix h assume "h \<in> dom ch"
    then show "h \<in> {f .. start}" using sound by (metis atLeastAtMost_iff domIff not_le)
  next
    fix h assume h: "h \<in> {f .. start}"
    show "h \<in> dom ch"
    proof (cases "h = f")
      case True
      then show ?thesis using sound by auto
    next
      case False
      then have "passed query header cs ch h" using h sound by auto
      then show ?thesis by (auto simp: passed_def)
    qed
  qed
  with sound h show ?thesis by (auto simp: isl_def)
qed

definition demo_query :: stored_query where
  "demo_query h = Inr (if h = 8 then ''0xc8'' else if h = 9 then ''0xold9'' else [])"

definition demo_header :: "hash \<Rightarrow> BlockHeader result" where
  "demo_header h = (if h = ''0xc9'' then Inr \<lparr>Number = 9, Hash = ''0xc9'', ParentHash = ''0xc8''\<rparr>
     else Inl (ErrMsg ''header not found''))"

lemma demo_walk: "resolveForkPoint (Inr 5) demo_query demo_header 3 9 ''0xc9'' = Inr (8, [9 \<mapsto> ''0xc9'', 8 \<mapsto> ''0xc8''])"
  by (simp add: resolveForkPoint_def walk_back.simps [of _ _ _ _ _ _ 9] walk_back.simps [of _ _ _ _ _ _ 8]
      demo_query_def demo_header_def)

theorem resolveForkPoint_sound_witness:
  "dom [9 \<mapsto> ''0xc9'', 8 \<mapsto> ''0xc8''] = {8 .. 9 :: height}
   \<and> passed demo_query demo_header 3 [9 \<mapsto> ''0xc9'', 8 \<mapsto> ''0xc8''] 9"
  using resolveForkPoint_sound [OF demo_walk] by simp



text \<open>A block fetch returns as soon as some attempt finds the block or the context ends,
  whatever not-found answers come first; and what it returns is the context's error, the content of
  an attempt, or the wrapped third error that was not a not-found.\<close>

theorem fetchBlockWithRetry_returns:
  assumes "pre env j \<noteq> None \<or> wait env j \<noteq> None \<or> (\<exists>v. FetchBlock j = Inr v)"
  shows "\<exists>r. fetchBlockWithRetry env FetchBlock n = Some r
    \<and> rpc_outcome env FetchBlock (\<lambda>err. Wrapped (''failed to fetch block '' @ itoa n @ '': '') err []) 0 r"
  using rpc_retry_returns [of 0 j env FetchBlock] rpc_retry_sound assms
  unfolding fetchBlockWithRetry_def by blast

definition late_block :: "nat \<Rightarrow> raw_block result" where
  "late_block i = (if i < 5 then Inl (ErrMsg ''not found'') else Inr (RawBundle None))"

definition quiet_env :: rpc_env where
  "quiet_env = \<lparr>pre = \<lambda>_. None, wait = \<lambda>_. None\<rparr>"

theorem fetchBlockWithRetry_returns_witness:
  "\<exists>r. fetchBlockWithRetry quiet_env late_block 12 = Some r
    \<and> rpc_outcome quiet_env late_block (\<lambda>err. Wrapped (''failed to fetch block '' @ itoa 12 @ '': '') err []) 0 r"
  using fetchBlockWithRetry_returns [of quiet_env 5 late_block 12] by (simp add: late_block_def)

text \<open>The calls \<open>storeWithRetry\<close> makes: the world before call \<open>i\<close>.\<close>

definition world_at :: "('w \<Rightarrow> 'w \<times> docID result) \<Rightarrow> 'w \<Rightarrow> nat \<Rightarrow> 'w" where
  "world_at store w i = ((\<lambda>w. fst (store w)) ^^ i) w"

lemma world_at_Suc: "world_at store w (Suc i) = world_at store (fst (store w)) i"
  unfolding world_at_def by (simp add: funpow_Suc_right del: funpow.simps)

definition stored_or_present :: "docID result \<Rightarrow> bool" where
  "stored_or_present r \<longleftrightarrow> (case r of Inr _ \<Rightarrow> True | Inl e \<Rightarrow> IsErrAlreadyExists (Some e))"

lemma store_attempts_calls:
  assumes "store_attempts env store n h attempt left w = (w', res, sign)"
  shows "\<exists>k \<le> left. w' = world_at store w k \<and> br_Num res = n \<and> br_Hash res = h
    \<and> (br_Success res \<longleftrightarrow> 0 < k \<and> stored_or_present (snd (store (world_at store w (k - 1)))))
    \<and> (br_Success res \<longleftrightarrow> br_Error res = None)
    \<and> (\<forall>i. i + 1 < k \<longrightarrow> (\<exists>e. snd (store (world_at store w i)) = Inl e \<and> IsErrTransactionConflict (Some e)))"
  using assms
proof (induction left arbitrary: attempt w)
  case 0
  then show ?case by (auto simp: world_at_def)
next
  case (Suc left)
  obtain w1 r1 where st: "store w = (w1, r1)" by force
  have one: "world_at store w 1 = w1" "world_at store w 0 = w" by (simp_all add: world_at_def st)
  show ?case
  proof (cases "pre env attempt")
    case (Some e)
    then show ?thesis using Suc.prems one by (intro exI [of _ 0]) auto
  next
    case None
    show ?thesis
    proof (cases "\<exists>err. r1 = Inl err \<and> \<not> IsErrAlreadyExists (Some err) \<and> IsErrTransactionConflict (Some err)
        \<and> attempt < MaxRPCRetries - 1 \<and> wait env attempt = None")
      case True
      then have "store_attempts env store n h (Suc attempt) left w1 = (w', res, sign)"
        using Suc.prems None st by auto
      from Suc.IH [OF this] obtain k where k: "k \<le> left \<and> w' = world_at store w1 k \<and> br_Num res = n \<and> br_Hash res = h
        \<and> (br_Success res \<longleftrightarrow> 0 < k \<and> stored_or_present (snd (store (world_at store w1 (k - 1)))))
        \<and> (br_Success res \<longleftrightarrow> br_Error res = None)
        \<and> (\<forall>i. i + 1 < k \<longrightarrow> (\<exists>e. snd (store (world_at store w1 i)) = Inl e \<and> IsErrTransactionConflict (Some e)))" ..
      have shift: "world_at store w (Suc i) = world_at store w1 i" for i by (simp add: world_at_Suc st)
      have r1: "\<not> stored_or_present r1" "\<exists>e. r1 = Inl e \<and> IsErrTransactionConflict (Some e)"
        using True by (auto simp: stored_or_present_def)
      have "br_Success res \<longleftrightarrow> stored_or_present (snd (store (world_at store w k)))"
        using k r1(1) shift one st by (cases k) auto
      moreover have "\<exists>e. snd (store (world_at store w i)) = Inl e \<and> IsErrTransactionConflict (Some e)" if "i < k" for i
        using that k r1(2) shift one st by (cases i) auto
      ultimately show ?thesis using k by (intro exI [of _ "Suc k"] conjI) (auto simp: shift)
    next
      case False
      then show ?thesis using Suc.prems None st one
        by (intro exI [of _ 1]) (auto simp: stored_or_present_def Let_def split: sum.splits if_splits option.splits)
    qed
  qed
qed

text \<open>Storing a block calls \<open>Store\<close> at most three times, each call but the last answered with
  a transaction conflict; the result is a success exactly when the last call stored the block or
  reported that it exists already, and carries an error otherwise.\<close>

theorem storeWithRetry_calls:
  assumes "storeWithRetry env Store n r w = (w', res, sign)"
  shows "\<exists>k \<le> 3. w' = world_at (Store r) w k \<and> br_Num res = n \<and> br_Hash res = extractBlockHash (Groups r)
    \<and> (br_Success res \<longleftrightarrow> 0 < k \<and> stored_or_present (snd (Store r (world_at (Store r) w (k - 1)))))
    \<and> (br_Success res \<longleftrightarrow> br_Error res = None)
    \<and> (\<forall>i. i + 1 < k \<longrightarrow> (\<exists>e. snd (Store r (world_at (Store r) w i)) = Inl e \<and> IsErrTransactionConflict (Some e)))"
  using store_attempts_calls [OF assms [unfolded storeWithRetry_def]] .

definition conflict_once :: "ConversionResult \<Rightarrow> nat \<Rightarrow> nat \<times> docID result" where
  "conflict_once r calls = (calls + 1, if calls = 0 then Inl (ErrMsg ''transaction conflict'') else Inr ''bae-1'')"

theorem storeWithRetry_calls_witness:
  "\<exists>k \<le> 3. (2 :: nat) = world_at (conflict_once empty_conversion) 0 k \<and> 0 < k
    \<and> stored_or_present (snd (conflict_once empty_conversion (world_at (conflict_once empty_conversion) 0 (k - 1))))"
proof -
  obtain res where run: "storeWithRetry quiet_env conflict_once 5 empty_conversion 0 = (2, res, False)" "br_Success res"
    by (simp add: storeWithRetry_def conflict_once_def quiet_env_def numeral_3_eq_3 IsErrAlreadyExists_def
        IsErrTransactionConflict_def contains_def sublist_code)
  from storeWithRetry_calls [OF run(1)] run(2) show ?thesis by blast
qed

text \<open>The hashes the continuity check uses are those of the fetched block: converting a bundle
  yields groups whose block hash and parent hash are the block's own.\<close>

theorem converted_hashes:
  assumes "fetchAndConvertBlock now conv env FetchBlock n = Some res" and "br_Success res"
  shows "\<exists>b blk. fetchBlockWithRetry env FetchBlock n = Some (Inr (RawBundle (Some b))) \<and> bdl_Block b = Some blk
    \<and> br_Num res = n \<and> br_Hash res = blk_Hash blk \<and> br_ParentHash res = blk_ParentHash blk"
proof -
  obtain raw r where raw: "fetchBlockWithRetry env FetchBlock n = Some (Inr raw)" "Convert now conv raw = Inr r"
    and res: "br_Num res = n" "br_Hash res = extractBlockHash (Groups r)" "br_ParentHash res = extractBlockParentHash (Groups r)"
    using assms by (auto simp: fetchAndConvertBlock_def split: option.splits sum.splits)
  obtain b blk k where b: "raw = RawBundle (Some b)" "bdl_Block b = Some blk" "HexToInt now (blk_Number blk) = Inr k"
    using raw(2) by (auto simp: Convert_def split: raw_block.splits option.splits sum.splits)
  then obtain gs where "Groups r = \<lparr>Collection = Block (collections conv), Docs = [buildBlockData blk k],
      BatchSize = maxDocsPerTxn conv, BlockNumField = ''number'', BlockHashField = ''hash'',
      ParentHashField = ''parentHash''\<rparr> # gs"
    using raw(2) by (auto simp: Convert_def Let_def split: prod.splits)
  then show ?thesis using raw b res by (simp add: buildBlockData_def mget_def)
qed

theorem converted_hashes_witness:
  "\<exists>b blk. fetchBlockWithRetry quiet_env (\<lambda>_. Inr (RawBundle (Some demo_bundle))) 7 = Some (Inr (RawBundle (Some b)))
    \<and> bdl_Block b = Some blk \<and> blk_Hash blk = ''0xb1''"
proof -
  have f: "fetchBlockWithRetry quiet_env (\<lambda>_. Inr (RawBundle (Some demo_bundle))) 7 = Some (Inr (RawBundle (Some demo_bundle)))"
    by (simp add: fetchBlockWithRetry_def rpc_retry.simps quiet_env_def)
  obtain r where r: "Convert 0 (NewEvmConverter None) (RawBundle (Some demo_bundle)) = Inr r"
    using HexToInt_decimal [of 7 0] by (simp add: Convert_def demo_bundle_def demo_block_def itoa_7 Let_def split_def)
  obtain res where res: "fetchAndConvertBlock 0 (NewEvmConverter None) quiet_env
      (\<lambda>_. Inr (RawBundle (Some demo_bundle))) 7 = Some res" "br_Success res"
    using f r by (simp add: fetchAndConvertBlock_def)
  from converted_hashes [OF this] f show ?thesis by (auto simp: demo_bundle_def demo_block_def)
qed

end
