(* ===== verification/Collector.thy ===== *)
theory Collector
  imports Continuity
begin

text \<open>
  File \<open>pkg/indexer/concurrent_processor.go\<close>, one run of the block processor: the dispatcher, the
  fetch workers, the bounded store pool and the single collector that checks results in height order,
  hands them to the pool, applies the completions in height order and resolves reorg episodes.

  The state of the run is one record. Channels are lists (buffered, first in first out), the
  WaitGroup is an integer, the run context is the flag \<open>cancelled\<close>. Each operation of the collector
  is a function on the state; what it learns from outside during one turn (stored hashes, headers,
  re-fetched blocks, a cancellation in the middle, the completions of the stores still in the pool
  in the order they arrive during a drain) is the argument \<open>env\<close>. The goroutines interleave in the
  step relation \<open>pstep\<close>. Two fields only observe: \<open>callbacks\<close> lists the items whose
  \<open>onBlockProcessed\<close> callback fired, \<open>checked\<close> the items that passed the ordered check.
\<close>

section \<open>Data\<close>

abbreviation maxRewalksPerEpisode :: nat where "maxRewalksPerEpisode \<equiv> 64"
abbreviation maxGapRefillsPerWait :: nat where "maxGapRefillsPerWait \<equiv> 64"
abbreviation DefaultWorkersAhead :: nat where "DefaultWorkersAhead \<equiv> 2"

record rollbackPoint =
  forkPoint :: height
  oldTip :: height
  chainHashes :: "height \<Rightarrow> hash option"

record reorgEpisode =
  baseHeight :: height
  baseParentHash :: hash
  lastParkedHash :: hash
  rewalks :: nat
  gapRefills :: nat
  stalePinned :: bool
  staleTopHeight :: height
  staleTopHash :: hash

record storeCompletion =
  item :: BlockResult
  computed :: BlockResult
  stale :: "reorgSignal option"

record proc =
  pending :: "height \<Rightarrow> BlockResult option"
  nextToCommit :: height
  runStartBlock :: height
  seedHash :: hash
  lastCheckedNum :: height
  lastCheckedHash :: hash
  applyCursor :: height
  reorderCompletions :: "(height \<times> storeCompletion) list"
  applyHoles :: "height list"
  committedHashes :: "height \<Rightarrow> hash option"
  rollback :: "rollbackPoint option"
  episode :: "reorgEpisode option"
  fatalErr :: "goerror option"
  heightRollbacks :: "height \<Rightarrow> nat"
  episodeRollbacks :: nat
  dispatchedUpTo :: height
  configuredStart :: height
  holdingDispatch :: "BlockResult option"
  inFlight :: int
  cancelled :: bool
  panicked :: bool
  atSelect :: bool
  workQ :: "height list"
  fetching :: "height list"
  resultQ :: "BlockResult list"
  storeQ :: "BlockResult list"
  storeClosed :: bool
  running :: "BlockResult list"
  completionQ :: "storeCompletion list"
  callbacks :: "BlockResult list"
  checked :: "height \<Rightarrow> BlockResult option"

record collector_env =
  handler :: "stored_query option"
  finalized :: "height result"
  header :: "hash \<Rightarrow> BlockHeader result"
  refetch :: "nat \<Rightarrow> BlockResult"
  arrivals :: "storeCompletion list"
  gapCancel :: bool
  walkCancel :: bool
  refillCancel :: "nat \<Rightarrow> bool"

section \<open>Error texts\<close>

definition err_store_refused :: "height \<Rightarrow> goerror \<Rightarrow> goerror" where
  "err_store_refused n e = Wrapped (''block '' @ itoa n @ '' store refused: '') e
     '' (a soft-deleted content-derived docID cannot be re-added; the deleted documents must be hard-purged by the pruner before this height can be re-indexed; indexing stopped)''"

definition err_reorg_at :: "height \<Rightarrow> goerror \<Rightarrow> goerror" where
  "err_reorg_at n e = Wrapped (''reorg detected at height '' @ itoa n @ '': '') e []"

definition err_flip_flop :: "height \<Rightarrow> nat \<Rightarrow> goerror" where
  "err_flip_flop n k = ErrMsg (''reorg detected at height '' @ itoa n @ '': the confirmation wait re-anchored ''
     @ itoa (int k) @ '' times; the RPC node keeps flip-flopping between chains'')"

definition err_unusable :: "height \<Rightarrow> nat \<Rightarrow> goerror" where
  "err_unusable n k = ErrMsg (''reorg detected at height '' @ itoa n @ '': the confirmation wait re-fetched ''
     @ itoa (int k) @ '' unusable verification points'')"

definition err_wait_failed :: "height \<Rightarrow> height \<Rightarrow> goerror \<Rightarrow> goerror" where
  "err_wait_failed n target e = Wrapped (''reorg detected at height '' @ itoa n
     @ '': confirmation wait failed at '' @ itoa target @ '': '') e []"

section \<open>Run control\<close>

definition runCancel :: "proc \<Rightarrow> proc" where
  "runCancel s = s\<lparr>cancelled := True\<rparr>"

definition failRun :: "goerror \<Rightarrow> proc \<Rightarrow> proc" where
  "failRun e s = runCancel (if fatalErr s = None then s\<lparr>fatalErr := Some e\<rparr> else s)"

text \<open>The state in which \<open>processBlocksOnce\<close> starts its goroutines. The rollback counters, the
  configured start and nothing else survive from the previous run.\<close>

definition init_run :: "height \<Rightarrow> hash \<Rightarrow> height \<Rightarrow> (height \<Rightarrow> nat) \<Rightarrow> nat \<Rightarrow> proc" where
  "init_run startBlock seed cs hr er = \<lparr>pending = (\<lambda>_. None), nextToCommit = startBlock,
     runStartBlock = startBlock, seedHash = seed, lastCheckedNum = startBlock - 1, lastCheckedHash = seed,
     applyCursor = startBlock, reorderCompletions = [], applyHoles = [], committedHashes = (\<lambda>_. None),
     rollback = None, episode = None, fatalErr = None, heightRollbacks = hr, episodeRollbacks = er,
     dispatchedUpTo = startBlock - 1, configuredStart = cs, holdingDispatch = None, inFlight = 0,
     cancelled = False, panicked = False, atSelect = False, workQ = [], fetching = [], resultQ = [],
     storeQ = [], storeClosed = False, running = [], completionQ = [], callbacks = [], checked = (\<lambda>_. None)\<rparr>"

section \<open>Ordered check\<close>

definition popPending :: "proc \<Rightarrow> proc \<times> BlockResult option option" where
  "popPending s = (case pending s (nextToCommit s) of
     None \<Rightarrow> (s, None)
   | Some nxt \<Rightarrow>
       (let s' = s\<lparr>pending := (pending s)(nextToCommit s := None), nextToCommit := nextToCommit s + 1\<rparr>
        in if rollback s \<noteq> None \<or> cancelled s then (s', Some None) else (s', Some (Some nxt))))"

definition pendingContinuitySignal :: "BlockResult \<Rightarrow> proc \<Rightarrow> reorgSignal option" where
  "pendingContinuitySignal nxt s =
     continuitySignal (runStartBlock s) (seedHash s) (lastCheckedNum s) (lastCheckedHash s) nxt"

definition poppedGapSignal :: "collector_env \<Rightarrow> BlockResult \<Rightarrow> proc \<Rightarrow> proc \<times> reorgSignal option" where
  "poppedGapSignal env nxt s =
     (case handler env of None \<Rightarrow> (s, None)
      | Some query \<Rightarrow>
          if br_ParentHash nxt \<noteq> [] \<and> br_Num nxt \<noteq> runStartBlock s \<and> lastCheckedNum s = br_Num nxt - 1
             \<and> lastCheckedHash s = []
          then (case query (br_Num nxt - 1) of
              Inl _ \<Rightarrow> (s, None)
            | Inr stored \<Rightarrow> if cancelled s \<or> gapCancel env then (s\<lparr>cancelled := True\<rparr>, None)
                else (s, gapFallbackSignal stored nxt))
          else (s, None))"

definition startReorgEpisode :: "reorgSignal \<Rightarrow> BlockResult \<Rightarrow> proc \<Rightarrow> proc" where
  "startReorgEpisode signal parked s = s\<lparr>episode := Some \<lparr>baseHeight = br_Num parked,
     baseParentHash = chainHash signal, lastParkedHash = br_Hash parked, rewalks = 0, gapRefills = 0,
     stalePinned = False, staleTopHeight = 0, staleTopHash = []\<rparr>\<rparr>"

definition checkedForDispatch :: "collector_env \<Rightarrow> BlockResult \<Rightarrow> proc \<Rightarrow> proc \<times> BlockResult option" where
  "checkedForDispatch env nxt s =
     (if \<not> br_Success nxt then
        (s\<lparr>lastCheckedNum := br_Num nxt, lastCheckedHash := [], applyHoles := br_Num nxt # applyHoles s\<rparr>, None)
      else case pendingContinuitySignal nxt s of
        Some signal \<Rightarrow> (startReorgEpisode signal nxt s, None)
      | None \<Rightarrow> (case poppedGapSignal env nxt s of
          (s1, Some signal) \<Rightarrow> (startReorgEpisode signal nxt s1, None)
        | (s1, None) \<Rightarrow> (s1\<lparr>lastCheckedNum := br_Num nxt, lastCheckedHash := br_Hash nxt,
              checked := (checked s1)(br_Num nxt \<mapsto> nxt)\<rparr>, Some nxt)))"

section \<open>Ordered apply\<close>

lemma filter_less_member: "x \<in> set xs \<Longrightarrow> \<not> P x \<Longrightarrow> length (filter P xs) < length xs"
  by (simp add: length_filter_less)

text \<open>\<open>collectReadyCompletionsLocked\<close> on the cursor, the holes and the reorder buffer.\<close>

function collectReady ::
  "height \<Rightarrow> height list \<Rightarrow> (height \<times> storeCompletion) list \<Rightarrow>
   storeCompletion list \<times> height \<times> height list \<times> (height \<times> storeCompletion) list" where
  "collectReady cursor holes reorder =
     (if cursor \<in> set holes then collectReady (cursor + 1) (filter (\<lambda>h. h \<noteq> cursor) holes) reorder
      else case map_of reorder cursor of
        None \<Rightarrow> ([], cursor, holes, reorder)
      | Some c \<Rightarrow> (let (batch, cursor', holes', reorder') =
            collectReady (cursor + 1) holes (filter (\<lambda>p. fst p \<noteq> cursor) reorder)
          in (c # batch, cursor', holes', reorder')))"
  by pat_completeness auto

termination
proof (relation "measure (\<lambda>(c, holes, reorder). length holes + length reorder)", goal_cases)
  case (2 cursor holes reorder)
  then have "length (filter (\<lambda>h. h \<noteq> cursor) holes) < length holes" by (intro filter_less_member) auto
  then show ?case by simp
next
  case (3 cursor holes reorder c)
  then have "(cursor, c) \<in> set reorder" by (auto dest: map_of_SomeD)
  then have "length (filter (\<lambda>p. fst p \<noteq> cursor) reorder) < length reorder"
    by (intro filter_less_member [of "(cursor, c)"]) auto
  then show ?case by simp
qed simp

declare collectReady.simps [simp del]

definition applyCommit :: "BlockResult \<Rightarrow> proc \<Rightarrow> proc" where
  "applyCommit it s = s\<lparr>
     committedHashes := (\<lambda>h. if h < nextToCommit s - 2 then None
       else ((committedHashes s)(br_Num it \<mapsto> br_Hash it)) h),
     episodeRollbacks := 0, heightRollbacks := (\<lambda>_. 0), callbacks := callbacks s @ [it]\<rparr>"

text \<open>
  \<open>applyOneCompletion\<close> may open a stale-pinned episode, whose drain applies further completions: the
  source recurses. The opener is the argument \<open>opn\<close> here; the knot is tied below.
\<close>

definition applyOneCompletion :: "(storeCompletion \<Rightarrow> proc \<Rightarrow> proc) \<Rightarrow> storeCompletion \<Rightarrow> bool \<Rightarrow> proc \<Rightarrow> proc" where
  "applyOneCompletion opn c suppress s = (case br_Error (computed c) of
     Some e \<Rightarrow>
       if IsErrDocumentDeleted (Some e)
       then failRun (err_store_refused (br_Num (item c)) e) s
       else if stale c = None then s
       else if rollback s \<noteq> None \<or> fatalErr s \<noteq> None then s
       else (case episode s of
          None \<Rightarrow> opn c s
        | Some ep \<Rightarrow> if stalePinned ep \<and> br_Num (item c) > staleTopHeight ep
            then s\<lparr>episode := Some (ep\<lparr>staleTopHeight := br_Num (item c), staleTopHash := br_Hash (item c)\<rparr>)\<rparr>
            else s)
   | None \<Rightarrow> if suppress then s else applyCommit (item c) s)"

fun applyBatch :: "(storeCompletion \<Rightarrow> proc \<Rightarrow> proc) \<Rightarrow> storeCompletion list \<Rightarrow> bool \<Rightarrow> proc \<Rightarrow> proc" where
  "applyBatch opn [] suppress s = s"
| "applyBatch opn (c # cs) suppress s =
     applyBatch opn cs suppress (applyOneCompletion opn c (suppress \<or> rollback s \<noteq> None \<or> fatalErr s \<noteq> None) s)"

definition park :: "storeCompletion \<Rightarrow> (height \<times> storeCompletion) list \<Rightarrow> (height \<times> storeCompletion) list" where
  "park c reorder = (br_Num (item c), c) # filter (\<lambda>p. fst p \<noteq> br_Num (item c)) reorder"

definition applyCompletion :: "(storeCompletion \<Rightarrow> proc \<Rightarrow> proc) \<Rightarrow> storeCompletion \<Rightarrow> bool \<Rightarrow> proc \<Rightarrow> proc" where
  "applyCompletion opn c suppress s =
     (let (batch, cursor, holes, reorder) =
        collectReady (applyCursor s) (applyHoles s) (park c (reorderCompletions s))
      in applyBatch opn batch suppress
        (s\<lparr>applyCursor := cursor, applyHoles := holes, reorderCompletions := reorder\<rparr>))"

section \<open>Episodes\<close>

text \<open>
  \<open>drainInFlightStores\<close> waits until every store handed to the pool has reported, consuming the
  completions already buffered and then those still outstanding, in the order they arrive. A second
  drain in the same turn finds the pool empty, so only the completions of stores that are in the
  pool arrive.
\<close>

definition outstanding :: "collector_env \<Rightarrow> proc \<Rightarrow> storeCompletion list" where
  "outstanding env s = filter (\<lambda>c. item c \<in> set (running s @ storeQ s)) (arrivals env)"

definition drop_held :: "proc \<Rightarrow> proc" where
  "drop_held s = (case holdingDispatch s of None \<Rightarrow> s
     | Some _ \<Rightarrow> s\<lparr>inFlight := inFlight s - 1, holdingDispatch := None\<rparr>)"

definition settle_pool :: "proc \<Rightarrow> proc" where
  "settle_pool s = s\<lparr>storeQ := [], running := [], completionQ := [],
     inFlight := inFlight s - int (length (storeQ s) + length (running s))\<rparr>"

definition drainInFlightStores :: "(storeCompletion \<Rightarrow> proc \<Rightarrow> proc) \<Rightarrow> collector_env \<Rightarrow> proc \<Rightarrow> proc" where
  "drainInFlightStores opn env s =
     (let suppress = (case episode s of None \<Rightarrow> False | Some ep \<Rightarrow> stalePinned ep); s1 = drop_held s
      in fold (\<lambda>c. applyCompletion opn c suppress) (completionQ s1 @ outstanding env s1) (settle_pool s1))"

text \<open>The walk-back calls the reorg handler without testing it for nil, so without a handler it
  panics once both its argument checks pass.\<close>

definition finalizeEpisode ::
  "(storeCompletion \<Rightarrow> proc \<Rightarrow> proc) \<Rightarrow> collector_env \<Rightarrow> BlockResult option \<Rightarrow> proc \<Rightarrow> proc" where
  "finalizeEpisode opn env confirmed s0 = (let s = drainInFlightStores opn env s0 in
     if cancelled s then s\<lparr>episode := None\<rparr>
     else case episode s of None \<Rightarrow> s
     | Some ep \<Rightarrow>
       (let startH = (if stalePinned ep then staleTopHeight ep else baseHeight ep - 1);
            startHash = (if stalePinned ep then staleTopHash ep else baseParentHash ep)
        in if handler env = None \<and> 0 \<le> startH \<and> startHash \<noteq> [] then s\<lparr>panicked := True\<rparr>
        else case resolveForkPoint (finalized env) (case handler env of Some q \<Rightarrow> q | None \<Rightarrow> (\<lambda>_. Inr []))
               (header env) (configuredStart s) startH startHash of
          Inl err \<Rightarrow> if walkCancel env then s\<lparr>episode := None, cancelled := True\<rparr>
            else runCancel (s\<lparr>episode := None, fatalErr :=
              Some (err_reorg_at (baseHeight ep) err)\<rparr>)
        | Inr (f, ch) \<Rightarrow> runCancel (s\<lparr>episode := None, rollback := Some \<lparr>forkPoint = f, oldTip = 0,
              chainHashes = (if stalePinned ep then ch
                else case confirmed of None \<Rightarrow> ch
                | Some it \<Rightarrow> ch(baseHeight ep \<mapsto> lastParkedHash ep, br_Num it \<mapsto> br_Hash it))\<rparr>\<rparr>)))"

definition openStaleEpisode :: "(storeCompletion \<Rightarrow> proc \<Rightarrow> proc) \<Rightarrow> collector_env \<Rightarrow> storeCompletion \<Rightarrow> proc \<Rightarrow> proc" where
  "openStaleEpisode opn env c s = finalizeEpisode opn env None (s\<lparr>episode := Some
     \<lparr>baseHeight = br_Num (item c), baseParentHash = [], lastParkedHash = [], rewalks = 0, gapRefills = 0,
      stalePinned = True, staleTopHeight = br_Num (item c), staleTopHash = br_Hash (item c)\<rparr>\<rparr>)"

text \<open>The opener of the source: its own drain never reaches the opening branch, because an episode is
  open, so any opener may stand inside (see \<open>opener_recursive\<close>).\<close>

definition opener :: "collector_env \<Rightarrow> storeCompletion \<Rightarrow> proc \<Rightarrow> proc" where
  "opener env = openStaleEpisode (\<lambda>c s. s) env"

definition reanchorEpisode :: "reorgEpisode \<Rightarrow> BlockResult \<Rightarrow> proc \<Rightarrow> proc" where
  "reanchorEpisode ep it s =
     (if rewalks ep \<ge> maxRewalksPerEpisode
      then s\<lparr>episode := None, fatalErr := Some (err_flip_flop (baseHeight ep) (rewalks ep))\<rparr>
      else s\<lparr>episode := Some (ep\<lparr>rewalks := rewalks ep + 1, baseHeight := br_Num it,
        baseParentHash := br_ParentHash it, lastParkedHash := br_Hash it\<rparr>)\<rparr>)"

text \<open>One round of \<open>refillEpisodeGap\<close>: the new state and, if the wait goes on, the re-fetched item.\<close>

definition refillEpisodeGap :: "collector_env \<Rightarrow> reorgEpisode \<Rightarrow> BlockResult \<Rightarrow> proc \<Rightarrow> proc \<times> BlockResult option" where
  "refillEpisodeGap env ep it s =
     (if gapRefills ep \<ge> maxGapRefillsPerWait
      then (runCancel (s\<lparr>episode := None, fatalErr := Some (err_unusable (baseHeight ep) (gapRefills ep))\<rparr>), None)
      else let s1 = s\<lparr>episode := Some (ep\<lparr>gapRefills := gapRefills ep + 1\<rparr>),
                  cancelled := cancelled s \<or> refillCancel env (gapRefills ep)\<rparr>;
               refetched = refetch env (gapRefills ep)
        in case br_Error refetched of
             Some e \<Rightarrow> if cancelled s1 then (s1, None)
               else (runCancel (s1\<lparr>episode := None, fatalErr := Some (err_wait_failed (baseHeight ep) (br_Num it) e)\<rparr>), None)
           | None \<Rightarrow> (s1, Some refetched))"

definition refill_budget :: "proc \<Rightarrow> nat" where
  "refill_budget s = (case episode s of None \<Rightarrow> 0 | Some ep \<Rightarrow> Suc maxGapRefillsPerWait - gapRefills ep)"

function resolveEpisodeItem :: "collector_env \<Rightarrow> BlockResult \<Rightarrow> proc \<Rightarrow> proc" where
  "resolveEpisodeItem env it s = (case episode s of None \<Rightarrow> s
   | Some ep \<Rightarrow>
       if rollback s \<noteq> None \<or> cancelled s then s
       else if br_Success it \<and> br_Hash it \<noteq> [] \<and> br_ParentHash it \<noteq> [] \<and> br_ParentHash it = lastParkedHash ep
       then finalizeEpisode (opener env) env (Some it) s
       else if br_Success it \<and> br_Hash it \<noteq> [] \<and> br_ParentHash it \<noteq> []
       then (let s1 = reanchorEpisode ep it s in if fatalErr s1 \<noteq> None then runCancel s1 else s1)
       else (case refillEpisodeGap env ep it s of (s1, None) \<Rightarrow> s1 | (s1, Some fresh) \<Rightarrow> resolveEpisodeItem env fresh s1))"
  by pat_completeness auto
termination
  by (relation "measure (\<lambda>(env, it, s). refill_budget s)")
    (auto simp: refill_budget_def refillEpisodeGap_def Let_def split: if_splits option.splits)

declare resolveEpisodeItem.simps [simp del]

section \<open>The collector loop\<close>

text \<open>The part of a turn before the select: pop and check one result, then abandon a waiting dispatch
  that may no longer be sent.\<close>

definition pop_and_check :: "collector_env \<Rightarrow> proc \<Rightarrow> proc" where
  "pop_and_check env s =
     (if holdingDispatch s \<noteq> None then s
      else case popPending s of
        (s1, Some (Some nxt)) \<Rightarrow>
          if episode s1 \<noteq> None then resolveEpisodeItem env nxt s1
          else (case checkedForDispatch env nxt s1 of
              (s2, Some it) \<Rightarrow> s2\<lparr>inFlight := inFlight s2 + 1, holdingDispatch := Some it\<rparr>
            | (s2, None) \<Rightarrow> s2)
      | (s1, _) \<Rightarrow> s1)"

definition abandon :: "proc \<Rightarrow> proc" where
  "abandon s = (if holdingDispatch s \<noteq> None \<and> (episode s \<noteq> None \<or> rollback s \<noteq> None \<or> cancelled s)
     then drop_held s else s)"

definition collect_turn :: "collector_env \<Rightarrow> proc \<Rightarrow> proc" where
  "collect_turn env s = (abandon (pop_and_check env s))\<lparr>atSelect := True\<rparr>"

text \<open>The cases of the select.\<close>

definition recv_result :: "proc \<Rightarrow> proc" where
  "recv_result s = (case resultQ s of [] \<Rightarrow> s
     | r # rs \<Rightarrow> s\<lparr>resultQ := rs, pending := (pending s)(br_Num r \<mapsto> r), atSelect := False\<rparr>)"

definition recv_completion :: "collector_env \<Rightarrow> proc \<Rightarrow> proc" where
  "recv_completion env s = (case completionQ s of [] \<Rightarrow> s
     | c # cs \<Rightarrow> applyCompletion (opener env) c False (s\<lparr>completionQ := cs, atSelect := False\<rparr>))"

definition send_store :: "proc \<Rightarrow> proc" where
  "send_store s = (case holdingDispatch s of None \<Rightarrow> s
     | Some it \<Rightarrow> s\<lparr>storeQ := storeQ s @ [it], holdingDispatch := None, atSelect := False\<rparr>)"

definition recv_done :: "proc \<Rightarrow> proc" where
  "recv_done s = s\<lparr>inFlight := inFlight s - (if holdingDispatch s = None then 0 else 1), holdingDispatch := None,
     storeClosed := True, atSelect := False\<rparr>"

section \<open>Interleaving\<close>

text \<open>What a fetch worker and a pool worker report: an error exactly when not successful, and a stale
  verification only for a failed store that was not refused for deleted documents.\<close>

definition result_ok :: "BlockResult \<Rightarrow> bool" where
  "result_ok r \<longleftrightarrow> (br_Success r \<longleftrightarrow> br_Error r = None)"

definition completion_of :: "BlockResult \<Rightarrow> storeCompletion \<Rightarrow> bool" where
  "completion_of it c \<longleftrightarrow> item c = it \<and> result_ok (computed c)
     \<and> (stale c \<noteq> None \<longrightarrow> br_Error (computed c) \<noteq> None \<and> \<not> IsErrDocumentDeleted (br_Error (computed c)))"

definition env_ok :: "collector_env \<Rightarrow> proc \<Rightarrow> bool" where
  "env_ok env s \<longleftrightarrow> mset (map item (arrivals env)) = mset (running s @ storeQ s)
     \<and> list_all (\<lambda>c. completion_of (item c) c) (arrivals env)
     \<and> (\<forall>k. result_ok (refetch env k) \<and> br_Num (refetch env k) = nextToCommit s)"

inductive pstep :: "nat \<Rightarrow> proc \<Rightarrow> proc \<Rightarrow> bool" for workers :: nat where
  dispatch: "dispatchedUpTo s + 1 - nextToCommit s < int (workers * DefaultWorkersAhead) \<Longrightarrow>
    length (workQ s) < workers * DefaultWorkersAhead \<Longrightarrow>
    pstep workers s (s\<lparr>workQ := workQ s @ [dispatchedUpTo s + 1], dispatchedUpTo := dispatchedUpTo s + 1\<rparr>)"
| fetch_start: "workQ s = n # ns \<Longrightarrow> length (fetching s) < workers \<Longrightarrow>
    pstep workers s (s\<lparr>workQ := ns, fetching := n # fetching s\<rparr>)"
| fetch_done: "br_Num r \<in> set (fetching s) \<Longrightarrow> result_ok r \<Longrightarrow> length (resultQ s) < workers * DefaultWorkersAhead \<Longrightarrow>
    pstep workers s (s\<lparr>fetching := remove1 (br_Num r) (fetching s), resultQ := resultQ s @ [r]\<rparr>)"
| fetch_drop: "n \<in> set (fetching s) \<Longrightarrow> cancelled s \<Longrightarrow> pstep workers s (s\<lparr>fetching := remove1 n (fetching s)\<rparr>)"
| store_start: "storeQ s = it # its \<Longrightarrow> length (running s) < workers \<Longrightarrow>
    pstep workers s (s\<lparr>storeQ := its, running := it # running s\<rparr>)"
| store_done: "it \<in> set (running s) \<Longrightarrow> completion_of it c \<Longrightarrow>
    length (completionQ s) < workers * (DefaultWorkersAhead + 1) \<Longrightarrow>
    pstep workers s (s\<lparr>running := remove1 it (running s), completionQ := completionQ s @ [c], inFlight := inFlight s - 1\<rparr>)"
| cancel: "pstep workers s (s\<lparr>cancelled := True\<rparr>)"
| turn: "\<not> atSelect s \<Longrightarrow> \<not> panicked s \<Longrightarrow> env_ok env s \<Longrightarrow> pstep workers s (collect_turn env s)"
| result: "atSelect s \<Longrightarrow> \<not> panicked s \<Longrightarrow> resultQ s \<noteq> [] \<Longrightarrow> pstep workers s (recv_result s)"
| completion: "atSelect s \<Longrightarrow> \<not> panicked s \<Longrightarrow> env_ok env s \<Longrightarrow> completionQ s \<noteq> [] \<Longrightarrow> pstep workers s (recv_completion env s)"
| send: "atSelect s \<Longrightarrow> \<not> panicked s \<Longrightarrow> holdingDispatch s \<noteq> None \<Longrightarrow> length (storeQ s) < workers * DefaultWorkersAhead \<Longrightarrow>
    pstep workers s (send_store s)"
| ctx_done: "atSelect s \<Longrightarrow> \<not> panicked s \<Longrightarrow> cancelled s \<Longrightarrow> \<not> storeClosed s \<Longrightarrow> pstep workers s (recv_done s)"

text \<open>States reachable in a run that starts at \<open>start\<close> with the given seed and bounds.\<close>

inductive reach :: "nat \<Rightarrow> proc \<Rightarrow> proc \<Rightarrow> bool" for workers :: nat and s0 :: proc where
  start: "reach workers s0 s0"
| step: "reach workers s0 s \<Longrightarrow> pstep workers s s' \<Longrightarrow> reach workers s0 s'"

end
