(* ===== verification/Collector_Apply.thy ===== *)
theory Collector_Apply
  imports Collector
begin

text \<open>
  Structure of the operations that apply completions: the fields they leave alone, why the recursion
  through the opener of a stale-pinned episode ends after one level, and what
  \<open>collectReady\<close> takes out of the reorder buffer.
\<close>

section \<open>Frames\<close>

text \<open>The fields that applying completions and resolving episodes leave alone.\<close>

definition frame :: "proc \<Rightarrow> (height \<Rightarrow> BlockResult option) \<times> height \<times> height \<times> hash \<times> height \<times> hash \<times> height
    \<times> height \<times> bool \<times> height list \<times> height list \<times> BlockResult list \<times> bool \<times> (height \<Rightarrow> BlockResult option)" where
  "frame s = (pending s, nextToCommit s, runStartBlock s, seedHash s, lastCheckedNum s, lastCheckedHash s,
     dispatchedUpTo s, configuredStart s, atSelect s, workQ s, fetching s, resultQ s, storeClosed s, checked s)"

lemma frame_upd [simp]:
  "frame (s\<lparr>applyCursor := a\<rparr>) = frame s" "frame (s\<lparr>reorderCompletions := b\<rparr>) = frame s"
  "frame (s\<lparr>applyHoles := c\<rparr>) = frame s" "frame (s\<lparr>committedHashes := d\<rparr>) = frame s"
  "frame (s\<lparr>rollback := e\<rparr>) = frame s" "frame (s\<lparr>episode := f\<rparr>) = frame s"
  "frame (s\<lparr>fatalErr := g\<rparr>) = frame s" "frame (s\<lparr>heightRollbacks := h\<rparr>) = frame s"
  "frame (s\<lparr>episodeRollbacks := i\<rparr>) = frame s" "frame (s\<lparr>holdingDispatch := j\<rparr>) = frame s"
  "frame (s\<lparr>inFlight := k\<rparr>) = frame s" "frame (s\<lparr>cancelled := l\<rparr>) = frame s"
  "frame (s\<lparr>panicked := m\<rparr>) = frame s" "frame (s\<lparr>storeQ := n\<rparr>) = frame s"
  "frame (s\<lparr>running := p\<rparr>) = frame s" "frame (s\<lparr>completionQ := q\<rparr>) = frame s"
  "frame (s\<lparr>callbacks := r\<rparr>) = frame s"
  by (simp_all add: frame_def)

lemma frame_runCancel [simp]: "frame (runCancel s) = frame s"
  by (simp add: runCancel_def)

lemma frame_failRun [simp]: "frame (failRun e s) = frame s"
  by (simp add: failRun_def)

lemma frame_applyCommit [simp]: "frame (applyCommit it s) = frame s"
  by (simp add: applyCommit_def)

lemma frame_drop_held [simp]: "frame (drop_held s) = frame s"
  by (simp add: drop_held_def split: option.splits)

lemma frame_settle_pool [simp]: "frame (settle_pool s) = frame s"
  by (simp add: settle_pool_def)

section \<open>The knot of the opener\<close>

text \<open>Under an open episode the opener is never called.\<close>

lemma applyOne_indep:
  "episode s \<noteq> None \<Longrightarrow> applyOneCompletion opn c sp s = applyOneCompletion opn' c sp s"
  by (auto simp: applyOneCompletion_def split: option.splits)

lemma applyOne_open: "episode s \<noteq> None \<Longrightarrow> episode (applyOneCompletion opn c sp s) \<noteq> None"
  by (auto simp: applyOneCompletion_def failRun_def runCancel_def applyCommit_def split: option.splits)

lemma applyBatch_open: "episode s \<noteq> None \<Longrightarrow> episode (applyBatch opn cs sp s) \<noteq> None"
proof (induction cs arbitrary: s)
  case (Cons c cs)
  show ?case unfolding applyBatch.simps by (rule Cons.IH [OF applyOne_open [OF Cons.prems]])
qed simp

lemma applyBatch_indep: "episode s \<noteq> None \<Longrightarrow> applyBatch opn cs sp s = applyBatch opn' cs sp s"
proof (induction cs arbitrary: s)
  case (Cons c cs)
  show ?case unfolding applyBatch.simps applyOne_indep [OF Cons.prems, of opn c _ opn']
    by (rule Cons.IH [OF applyOne_open [OF Cons.prems]])
qed simp

lemma applyCompletion_unfold:
  assumes "collectReady (applyCursor s) (applyHoles s) (park c (reorderCompletions s)) = (batch, cursor, holes, reorder)"
  shows "applyCompletion opn c sp s = applyBatch opn batch sp
    (s\<lparr>applyCursor := cursor, applyHoles := holes, reorderCompletions := reorder\<rparr>)"
  by (simp add: applyCompletion_def assms)

lemma applyCompletion_cases:
  obtains batch cursor holes reorder where
    "collectReady (applyCursor s) (applyHoles s) (park c (reorderCompletions s)) = (batch, cursor, holes, reorder)"
    and "\<And>opn sp. applyCompletion opn c sp s = applyBatch opn batch sp
      (s\<lparr>applyCursor := cursor, applyHoles := holes, reorderCompletions := reorder\<rparr>)"
proof -
  obtain batch cursor holes reorder where
    eq: "collectReady (applyCursor s) (applyHoles s) (park c (reorderCompletions s)) = (batch, cursor, holes, reorder)"
    by (metis prod_cases4)
  show thesis by (rule that [OF eq applyCompletion_unfold [OF eq]])
qed

lemma applyCompletion_open:
  assumes "episode s \<noteq> None"
  shows "episode (applyCompletion opn c sp s) \<noteq> None"
proof (rule applyCompletion_cases [of s c])
  fix batch cursor holes reorder
  assume eq: "\<And>opn sp. applyCompletion opn c sp s = applyBatch opn batch sp
      (s\<lparr>applyCursor := cursor, applyHoles := holes, reorderCompletions := reorder\<rparr>)"
  show ?thesis unfolding eq by (rule applyBatch_open) (simp add: assms)
qed

lemma applyCompletion_indep:
  assumes "episode s \<noteq> None"
  shows "applyCompletion opn c sp s = applyCompletion opn' c sp s"
proof (rule applyCompletion_cases [of s c])
  fix batch cursor holes reorder
  assume eq: "\<And>opn sp. applyCompletion opn c sp s = applyBatch opn batch sp
      (s\<lparr>applyCursor := cursor, applyHoles := holes, reorderCompletions := reorder\<rparr>)"
  show ?thesis unfolding eq by (rule applyBatch_indep) (simp add: assms)
qed

lemma fold_apply_open: "episode s \<noteq> None \<Longrightarrow> episode (fold (\<lambda>c. applyCompletion opn c sp) cs s) \<noteq> None"
proof (induction cs arbitrary: s)
  case (Cons c cs)
  show ?case unfolding fold_simps by (rule Cons.IH [OF applyCompletion_open [OF Cons.prems]])
qed simp

lemma fold_apply_indep:
  "episode s \<noteq> None \<Longrightarrow> fold (\<lambda>c. applyCompletion opn c sp) cs s = fold (\<lambda>c. applyCompletion opn' c sp) cs s"
proof (induction cs arbitrary: s)
  case (Cons c cs)
  show ?case unfolding fold_simps applyCompletion_indep [OF Cons.prems, of opn c sp opn']
    by (rule Cons.IH [OF applyCompletion_open [OF Cons.prems]])
qed simp

lemma episode_settled [simp]: "episode (settle_pool (drop_held s)) = episode s"
  by (simp add: settle_pool_def drop_held_def split: option.splits)

lemma drain_open: "episode s \<noteq> None \<Longrightarrow> episode (drainInFlightStores opn env s) \<noteq> None"
  unfolding drainInFlightStores_def Let_def by (rule fold_apply_open) simp

lemma drain_indep: "episode s \<noteq> None \<Longrightarrow> drainInFlightStores opn env s = drainInFlightStores opn' env s"
  unfolding drainInFlightStores_def Let_def by (rule fold_apply_indep) simp

lemma finalize_indep: "episode s \<noteq> None \<Longrightarrow> finalizeEpisode opn env cf s = finalizeEpisode opn' env cf s"
  unfolding finalizeEpisode_def by (drule drain_indep [of s opn env opn']) simp

text \<open>The opener satisfies the recursive equation of the source.\<close>

lemma opener_recursive: "opener env c s = openStaleEpisode (opener env) env c s"
  unfolding opener_def openStaleEpisode_def by (rule finalize_indep) simp

section \<open>Collecting the ready batch\<close>

abbreviation num :: "storeCompletion \<Rightarrow> height" where "num c \<equiv> br_Num (item c)"

lemma filter_ge_Suc: "\<forall>h \<in> set hs. (cursor :: int) \<le> h \<Longrightarrow> cursor + 1 \<le> b \<Longrightarrow>
    filter (\<lambda>h. b \<le> h) (filter (\<lambda>h. h \<noteq> cursor) hs) = filter (\<lambda>h. b \<le> h) hs"
  by (induction hs) auto

lemma filter_key_Suc: "\<forall>p \<in> set ps. (cursor :: int) \<le> fst p \<Longrightarrow> cursor + 1 \<le> b \<Longrightarrow>
    filter (\<lambda>p. b \<le> fst p) (filter (\<lambda>p. fst p \<noteq> cursor) ps) = filter (\<lambda>p. b \<le> fst p) ps"
  by (induction ps) auto

lemma distinct_filter_fst: "distinct (map fst ps) \<Longrightarrow> distinct (map fst (filter P ps))"
  by (induction ps) auto

lemma collectReady_spec:
  "collectReady cursor holes reorder = (batch, cursor', holes', reorder') \<Longrightarrow>
   distinct (map fst reorder) \<Longrightarrow> set holes \<inter> fst ` set reorder = {} \<Longrightarrow> \<forall>h \<in> set holes. cursor \<le> h \<Longrightarrow>
   \<forall>p \<in> set reorder. cursor \<le> fst p \<and> num (snd p) = fst p \<Longrightarrow>
   cursor \<le> cursor' \<and> holes' = filter (\<lambda>h. cursor' \<le> h) holes
   \<and> reorder' = filter (\<lambda>p. cursor' \<le> fst p) reorder
   \<and> (\<forall>c \<in> set batch. (num c, c) \<in> set reorder \<and> cursor \<le> num c \<and> num c < cursor')
   \<and> sorted_wrt (<) (map num batch)
   \<and> {cursor ..< cursor'} \<subseteq> set holes \<union> fst ` set reorder
   \<and> cursor' \<notin> set holes \<and> cursor' \<notin> fst ` set reorder"
proof (induction cursor holes reorder arbitrary: batch rule: collectReady.induct)
  case (1 cursor holes reorder)
  note eq = collectReady.simps [of cursor holes reorder]
  show ?case
  proof (cases "cursor \<in> set holes")
    case True
    let ?holes = "filter (\<lambda>h. h \<noteq> cursor) holes"
    have rec: "collectReady (cursor + 1) ?holes reorder = (batch, cursor', holes', reorder')"
      using 1(3) True eq by simp
    have nk: "\<forall>p \<in> set reorder. fst p \<noteq> cursor" using 1(5) True by auto
    have pre: "set ?holes \<inter> fst ` set reorder = {}" "\<forall>h \<in> set ?holes. cursor + 1 \<le> h"
      "\<forall>p \<in> set reorder. cursor + 1 \<le> fst p \<and> num (snd p) = fst p"
      using 1(5,6,7) nk by force+
    note IH = 1(1) [OF True rec 1(4) pre]
    then have le: "cursor + 1 \<le> cursor'" by blast
    have "filter (\<lambda>h. cursor' \<le> h) ?holes = filter (\<lambda>h. cursor' \<le> h) holes"
      by (rule filter_ge_Suc [OF 1(6) le])
    moreover have "{cursor ..< cursor'} = insert cursor {cursor + 1 ..< cursor'}" using le by auto
    ultimately show ?thesis using IH True le by auto
  next
    case False
    show ?thesis
    proof (cases "map_of reorder cursor")
      case None
      then have nk: "cursor \<notin> fst ` set reorder" by (simp add: map_of_eq_None_iff)
      have "batch = [] \<and> cursor' = cursor \<and> holes' = holes \<and> reorder' = reorder"
        using 1(3) False None eq by simp
      moreover have "filter (\<lambda>h. cursor \<le> h) holes = holes" "filter (\<lambda>p. cursor \<le> fst p) reorder = reorder"
        using 1(6,7) by (auto simp: filter_id_conv)
      ultimately show ?thesis using False nk by simp
    next
      case (Some c)
      let ?reo = "filter (\<lambda>p. fst p \<noteq> cursor) reorder"
      have mem: "(cursor, c) \<in> set reorder" using Some by (rule map_of_SomeD)
      then have nc: "num c = cursor" using 1(7) by force
      obtain batch1 where rec: "collectReady (cursor + 1) holes ?reo = (batch1, cursor', holes', reorder')"
        and b: "batch = c # batch1"
        using 1(3) False Some eq by (auto simp: split_def Let_def prod_eq_iff)
      have pre: "distinct (map fst ?reo)" "set holes \<inter> fst ` set ?reo = {}" "\<forall>h \<in> set holes. cursor + 1 \<le> h"
        "\<forall>p \<in> set ?reo. cursor + 1 \<le> fst p \<and> num (snd p) = fst p"
        using 1(4-7) False by (auto intro: distinct_filter_fst simp: order_le_less)
      note IH = 1(2) [OF False Some rec pre]
      then have le: "cursor + 1 \<le> cursor'" by blast
      have "filter (\<lambda>p. cursor' \<le> fst p) ?reo = filter (\<lambda>p. cursor' \<le> fst p) reorder"
        using 1(7) le by (intro filter_key_Suc) auto
      moreover have "{cursor ..< cursor'} = insert cursor {cursor + 1 ..< cursor'}" using le by auto
      moreover have "cursor \<in> fst ` set reorder" using mem by force
      ultimately show ?thesis using IH le nc mem unfolding b by auto
    qed
  qed
qed

end
