(* ===== verification/Collector_Pool.thy ===== *)
theory Collector_Pool
  imports Collector_Apply
begin

text \<open>
  The pool invariant of a run: which height is where (waiting, in the pool, reported, parked, a hole),
  the balance of the in-flight group, and the order of the callbacks.
\<close>

section \<open>The pool invariant\<close>

definition held :: "proc \<Rightarrow> BlockResult list" where
  "held s = (case holdingDispatch s of None \<Rightarrow> [] | Some it \<Rightarrow> [it])"

definition registered :: "proc \<Rightarrow> BlockResult list" where
  "registered s = held s @ storeQ s @ running s"

text \<open>Items between the check and the reorder buffer, with the completions \<open>cs\<close> that the collector
  has in hand.\<close>

definition in_pool :: "storeCompletion list \<Rightarrow> proc \<Rightarrow> BlockResult list" where
  "in_pool cs s = registered s @ map item (completionQ s @ cs)"

definition owned :: "storeCompletion list \<Rightarrow> proc \<Rightarrow> height list" where
  "owned cs s = map br_Num (in_pool cs s) @ map fst (reorderCompletions s)"

text \<open>Unless the run is leaving, every popped height that was not applied yet is a hole or in the
  pool or parked.\<close>

definition accounted :: "storeCompletion list \<Rightarrow> proc \<Rightarrow> bool" where
  "accounted cs s \<longleftrightarrow> episode s \<noteq> None \<or> cancelled s
     \<or> {applyCursor s ..< nextToCommit s} \<subseteq> set (owned cs s) \<union> set (applyHoles s)"

definition pool_inv :: "storeCompletion list \<Rightarrow> proc \<Rightarrow> bool" where
  "pool_inv cs s \<longleftrightarrow>
     inFlight s = int (length (registered s))
   \<and> distinct (owned cs s)
   \<and> set (owned cs s) \<union> set (applyHoles s) \<subseteq> {applyCursor s ..< nextToCommit s}
   \<and> set (owned cs s) \<inter> set (applyHoles s) = {}
   \<and> (\<forall>it \<in> set (in_pool cs s). checked s (br_Num it) = Some it)
   \<and> (\<forall>p \<in> set (reorderCompletions s). num (snd p) = fst p \<and> checked s (fst p) = Some (item (snd p)))
   \<and> applyCursor s \<notin> fst ` set (reorderCompletions s)
   \<and> (applyCursor s \<in> set (applyHoles s) \<longrightarrow> reorderCompletions s = [])
   \<and> applyCursor s \<le> nextToCommit s
   \<and> accounted cs s"

definition callbacks_inv :: "proc \<Rightarrow> bool" where
  "callbacks_inv s \<longleftrightarrow> sorted_wrt (<) (map br_Num (callbacks s))
   \<and> (\<forall>it \<in> set (callbacks s). br_Num it < applyCursor s \<and> checked s (br_Num it) = Some it)"

text \<open>The completions still to arrive are those of the stores in the pool.\<close>

definition pool_env :: "collector_env \<Rightarrow> proc \<Rightarrow> bool" where
  "pool_env env s \<longleftrightarrow> mset (map item (outstanding env s)) = mset (running s @ storeQ s)"

text \<open>The fields \<open>pool_inv\<close> and \<open>pool_env\<close> look at, apart from the leaving condition.\<close>

definition pool_view where
  "pool_view s = (inFlight s, holdingDispatch s, storeQ s, running s, completionQ s, reorderCompletions s,
     applyHoles s, applyCursor s, nextToCommit s, checked s)"

lemma pool_invD:
  assumes "pool_inv cs s"
  shows "inFlight s = int (length (registered s))" and "distinct (owned cs s)"
    and "set (owned cs s) \<union> set (applyHoles s) \<subseteq> {applyCursor s ..< nextToCommit s}"
    and "set (owned cs s) \<inter> set (applyHoles s) = {}"
    and "\<forall>it \<in> set (in_pool cs s). checked s (br_Num it) = Some it"
    and "\<forall>p \<in> set (reorderCompletions s). num (snd p) = fst p \<and> checked s (fst p) = Some (item (snd p))"
    and "applyCursor s \<notin> fst ` set (reorderCompletions s)"
    and "applyCursor s \<in> set (applyHoles s) \<Longrightarrow> reorderCompletions s = []"
    and "applyCursor s \<le> nextToCommit s" and "accounted cs s"
  using assms unfolding pool_inv_def by (elim conjE; simp)+

lemma pool_inv_view:
  assumes "pool_inv cs s" and "pool_view s' = pool_view s"
    and "cancelled s' \<or> episode s' \<noteq> None \<or> cancelled s' = cancelled s \<and> episode s' = episode s"
  shows "pool_inv cs s'"
proof -
  have eq: "inFlight s' = inFlight s" "holdingDispatch s' = holdingDispatch s" "storeQ s' = storeQ s"
    "running s' = running s" "completionQ s' = completionQ s" "reorderCompletions s' = reorderCompletions s"
    "applyHoles s' = applyHoles s" "applyCursor s' = applyCursor s" "nextToCommit s' = nextToCommit s"
    "checked s' = checked s"
    using assms(2) by (simp_all add: pool_view_def)
  have 1: "registered s' = registered s" "in_pool cs s' = in_pool cs s" "owned cs s' = owned cs s"
    by (simp_all add: registered_def held_def in_pool_def owned_def eq)
  have "accounted cs s'"
    using assms(3) pool_invD(10) [OF assms(1)] unfolding accounted_def 1 eq by (elim disjE) simp_all
  then show ?thesis using assms(1) unfolding pool_inv_def 1 eq by simp
qed

lemma pool_env_view: "pool_env env s \<Longrightarrow> pool_view s' = pool_view s \<Longrightarrow> pool_env env s'"
  by (simp add: pool_env_def pool_view_def outstanding_def)

lemma pool_view_upd [simp]:
  "pool_view (s\<lparr>committedHashes := d\<rparr>) = pool_view s" "pool_view (s\<lparr>rollback := e\<rparr>) = pool_view s"
  "pool_view (s\<lparr>episode := f\<rparr>) = pool_view s" "pool_view (s\<lparr>fatalErr := g\<rparr>) = pool_view s"
  "pool_view (s\<lparr>heightRollbacks := h\<rparr>) = pool_view s" "pool_view (s\<lparr>episodeRollbacks := i\<rparr>) = pool_view s"
  "pool_view (s\<lparr>cancelled := l\<rparr>) = pool_view s" "pool_view (s\<lparr>panicked := m\<rparr>) = pool_view s"
  "pool_view (s\<lparr>callbacks := r\<rparr>) = pool_view s" "pool_view (s\<lparr>atSelect := t\<rparr>) = pool_view s"
  "pool_view (s\<lparr>lastCheckedNum := u\<rparr>) = pool_view s" "pool_view (s\<lparr>lastCheckedHash := v\<rparr>) = pool_view s"
  by (simp_all add: pool_view_def)

lemma pool_view_runCancel [simp]: "pool_view (runCancel s) = pool_view s"
  by (simp add: runCancel_def)

lemma pool_view_failRun [simp]: "pool_view (failRun e s) = pool_view s"
  by (simp add: failRun_def)

lemma pool_view_applyCommit [simp]: "pool_view (applyCommit it s) = pool_view s"
  by (simp add: applyCommit_def)

lemma distinct_submset:
  assumes "mset xs \<subseteq># mset ys" and "distinct ys"
  shows "distinct xs"
proof -
  obtain zs where "mset ys = mset (xs @ zs)"
    using assms(1) by (metis ex_mset mset_append subset_mset.add_diff_inverse)
  then have "distinct (xs @ zs)" using assms(2) mset_eq_imp_distinct_iff by blast
  then show ?thesis by simp
qed

text \<open>The invariant survives when items move between the queues or leave them.\<close>

lemma pool_inv_sub:
  assumes inv: "pool_inv cs s" and sub: "mset (in_pool cs' s') \<subseteq># mset (in_pool cs s)"
    and cnt: "inFlight s' = int (length (registered s'))"
    and eq: "reorderCompletions s' = reorderCompletions s" "applyHoles s' = applyHoles s"
      "applyCursor s' = applyCursor s" "nextToCommit s' = nextToCommit s" "checked s' = checked s"
    and acc: "mset (in_pool cs' s') = mset (in_pool cs s) \<and> episode s' = episode s \<and> cancelled s' = cancelled s
      \<or> episode s' \<noteq> None \<or> cancelled s'"
  shows "pool_inv cs' s'"
proof -
  have m: "mset (owned cs' s') = image_mset br_Num (mset (in_pool cs' s')) + mset (map fst (reorderCompletions s))"
    "mset (owned cs s) = image_mset br_Num (mset (in_pool cs s)) + mset (map fst (reorderCompletions s))"
    by (simp_all add: owned_def eq)
  have msub: "mset (owned cs' s') \<subseteq># mset (owned cs s)"
    unfolding m using image_mset_subseteq_mono [OF sub] by simp
  then have d: "distinct (owned cs' s')" and own: "set (owned cs' s') \<subseteq> set (owned cs s)"
    using distinct_submset [OF msub pool_invD(2) [OF inv]] set_mset_mono [OF msub] by simp_all
  have pool: "set (in_pool cs' s') \<subseteq> set (in_pool cs s)" using set_mset_mono [OF sub] by simp
  have "accounted cs' s'"
    using acc
  proof (elim disjE conjE)
    assume e: "mset (in_pool cs' s') = mset (in_pool cs s)" "episode s' = episode s" "cancelled s' = cancelled s"
    then have "set (owned cs' s') = set (owned cs s)" unfolding owned_def eq by (metis mset_eq_setD mset_map mset_append)
    then show ?thesis using pool_invD(10) [OF inv] unfolding accounted_def eq e by simp
  qed (simp_all add: accounted_def)
  moreover have "set (owned cs' s') \<union> set (applyHoles s) \<subseteq> {applyCursor s ..< nextToCommit s}"
    "set (owned cs' s') \<inter> set (applyHoles s) = {}" "\<forall>it \<in> set (in_pool cs' s'). checked s (br_Num it) = Some it"
    using own pool pool_invD(3,4,5) [OF inv] by blast+
  ultimately show ?thesis unfolding pool_inv_def eq using cnt d pool_invD(6-9) [OF inv] by simp
qed

lemma frame_checked: "frame s' = frame s \<Longrightarrow> checked s' = checked s \<and> nextToCommit s' = nextToCommit s"
  by (simp add: frame_def)

lemma callbacks_inv_step:
  assumes "callbacks_inv s" and "checked s' = checked s" and "applyCursor s \<le> applyCursor s'"
    and "callbacks s' = callbacks s \<or> callbacks s' = callbacks s @ [it] \<and> br_Num it < applyCursor s
      \<and> checked s (br_Num it) = Some it \<and> (\<forall>it' \<in> set (callbacks s). br_Num it' < br_Num it)"
  shows "callbacks_inv s'"
  using assms unfolding callbacks_inv_def by (fastforce simp: sorted_wrt_append)

text \<open>What is left in the pool when one completion is parked and the ready batch taken out.\<close>

lemma owned_Cons:
  "set (owned (c # cs) s) = set (map br_Num (in_pool cs s)) \<union> fst ` set ((num c, c) # reorderCompletions s)"
  "distinct (owned (c # cs) s) \<longleftrightarrow> distinct (map br_Num (in_pool cs s)) \<and> distinct (map fst ((num c, c) # reorderCompletions s))
    \<and> set (map br_Num (in_pool cs s)) \<inter> fst ` set ((num c, c) # reorderCompletions s) = {}"
  "set (in_pool (c # cs) s) = insert (item c) (set (in_pool cs s))"
proof -
  have m: "mset (owned (c # cs) s) = mset (map br_Num (in_pool cs s) @ map fst ((num c, c) # reorderCompletions s))"
    unfolding owned_def in_pool_def by simp
  show "set (owned (c # cs) s) = set (map br_Num (in_pool cs s)) \<union> fst ` set ((num c, c) # reorderCompletions s)"
    using mset_eq_setD [OF m] by simp
  show "distinct (owned (c # cs) s) \<longleftrightarrow> distinct (map br_Num (in_pool cs s)) \<and> distinct (map fst ((num c, c) # reorderCompletions s))
    \<and> set (map br_Num (in_pool cs s)) \<inter> fst ` set ((num c, c) # reorderCompletions s) = {}"
    using mset_eq_imp_distinct_iff [OF m] unfolding distinct_append set_map by simp
  show "set (in_pool (c # cs) s) = insert (item c) (set (in_pool cs s))"
    unfolding in_pool_def by simp
qed

lemma collect_pool:
  assumes inv: "pool_inv (c # cs) s"
    and eq: "collectReady (applyCursor s) (applyHoles s) (park c (reorderCompletions s)) = (batch, cursor, holes, reorder)"
  shows "pool_inv cs (s\<lparr>applyCursor := cursor, applyHoles := holes, reorderCompletions := reorder\<rparr>)"
    and "applyCursor s \<le> cursor" and "sorted_wrt (<) (map num batch)"
    and "\<forall>b \<in> set batch. applyCursor s \<le> num b \<and> num b < cursor \<and> checked s (num b) = Some (item b)"
proof -
  let ?reo = "(num c, c) # reorderCompletions s"
  let ?t = "s\<lparr>applyCursor := cursor, applyHoles := holes, reorderCompletions := reorder\<rparr>"
  define P where "P = set (map br_Num (in_pool cs s))"
  define K where "K = fst ` set ?reo"
  have cnt: "inFlight s = int (length (registered s))" and le0: "applyCursor s \<le> nextToCommit s"
    and acc: "accounted (c # cs) s"
    and ckp: "\<forall>it \<in> set (in_pool cs s). checked s (br_Num it) = Some it" "checked s (num c) = Some (item c)"
    and ckr: "\<forall>p \<in> set (reorderCompletions s). num (snd p) = fst p \<and> checked s (fst p) = Some (item (snd p))"
    using pool_invD [OF inv] unfolding owned_Cons by simp_all
  have dP: "distinct (map br_Num (in_pool cs s))" and dK: "distinct (map fst ?reo)" and PK: "P \<inter> K = {}"
    using pool_invD(2) [OF inv] unfolding owned_Cons P_def K_def by simp_all
  have rng: "P \<union> K \<union> set (applyHoles s) \<subseteq> {applyCursor s ..< nextToCommit s}"
    and dis: "(P \<union> K) \<inter> set (applyHoles s) = {}"
    using pool_invD(3,4) [OF inv] unfolding owned_Cons P_def K_def by (simp_all only: Un_assoc)
  have park: "park c (reorderCompletions s) = ?reo"
    using dK unfolding park_def by (force simp: filter_id_conv)
  have keys: "set (applyHoles s) \<inter> K = {}" "\<forall>h \<in> set (applyHoles s). applyCursor s \<le> h"
    "\<forall>p \<in> set ?reo. applyCursor s \<le> fst p \<and> num (snd p) = fst p"
    using dis rng ckr unfolding K_def by auto
  note spec = collectReady_spec [OF eq [unfolded park] dK keys(1) [unfolded K_def] keys(2,3), folded K_def]
  show le: "applyCursor s \<le> cursor" and "sorted_wrt (<) (map num batch)" using spec by blast+
  have ck: "\<forall>p \<in> set ?reo. checked s (fst p) = Some (item (snd p))"
    using ckp(2) ckr by simp
  have "(num b, b) \<in> set ?reo \<and> applyCursor s \<le> num b \<and> num b < cursor" if "b \<in> set batch" for b
    using spec that by blast
  then show "\<forall>b \<in> set batch. applyCursor s \<le> num b \<and> num b < cursor \<and> checked s (num b) = Some (item b)"
    using ck by force
  have sub: "{applyCursor s ..< cursor} \<subseteq> set (applyHoles s) \<union> K"
    and h: "holes = filter (\<lambda>h. cursor \<le> h) (applyHoles s)" and r: "reorder = filter (\<lambda>p. cursor \<le> fst p) ?reo"
    and nin: "cursor \<notin> set (applyHoles s)" "cursor \<notin> K"
    using spec by blast+
  have leN: "cursor \<le> nextToCommit s"
  proof (rule ccontr)
    assume "\<not> ?thesis"
    then have "nextToCommit s \<in> {applyCursor s ..< cursor}" using le0 by simp
    then show False using sub rng by fastforce
  qed
  have ge: "cursor \<le> h" if "h \<in> P" for h
  proof (rule ccontr)
    assume "\<not> cursor \<le> h"
    then have "h \<in> {applyCursor s ..< cursor}" using that rng by auto
    then have "h \<in> set (applyHoles s) \<union> K" using sub by blast
    then show False using that PK dis by blast
  qed
  have K': "fst ` set reorder = {h \<in> K. cursor \<le> h}" unfolding r K_def by auto
  have reg: "registered ?t = registered s" "in_pool cs ?t = in_pool cs s"
    by (simp_all add: registered_def held_def in_pool_def)
  have own: "set (owned cs ?t) = P \<union> {h \<in> K. cursor \<le> h}"
    unfolding owned_def reg P_def K' [symmetric] by simp
  have hs: "set (applyHoles ?t) = {h \<in> set (applyHoles s). cursor \<le> h}" unfolding h by auto
  have "{cursor ..< nextToCommit s} \<subseteq> P \<union> {h \<in> K. cursor \<le> h} \<union> {h \<in> set (applyHoles s). cursor \<le> h}"
    if "{applyCursor s ..< nextToCommit s} \<subseteq> P \<union> K \<union> set (applyHoles s)"
  proof
    fix h
    assume h: "h \<in> {cursor ..< nextToCommit s}"
    then have "h \<in> {applyCursor s ..< nextToCommit s}" using le by auto
    then have "h \<in> P \<union> K \<union> set (applyHoles s)" using that by blast
    then show "h \<in> P \<union> {h \<in> K. cursor \<le> h} \<union> {h \<in> set (applyHoles s). cursor \<le> h}" using h by auto
  qed
  then have "accounted cs ?t"
    using acc unfolding accounted_def own hs owned_Cons P_def [symmetric] K_def [symmetric] by auto
  moreover have "distinct (map fst reorder)" unfolding r by (rule distinct_filter_fst [OF dK])
  then have "distinct (map br_Num (in_pool cs s) @ map fst reorder)"
    using dP PK K' unfolding P_def distinct_append by auto
  then have "distinct (owned cs ?t)" unfolding owned_def reg by simp
  moreover have "set (owned cs ?t) \<union> set (applyHoles ?t) \<subseteq> {applyCursor ?t ..< nextToCommit ?t}"
    using rng ge unfolding own hs by auto
  moreover have "set (owned cs ?t) \<inter> set (applyHoles ?t) = {}"
    using dis unfolding own hs by auto
  moreover have "\<forall>p \<in> set reorder. num (snd p) = fst p \<and> checked s (fst p) = Some (item (snd p))"
    using keys(3) ck unfolding r by auto
  moreover have "applyCursor ?t \<notin> fst ` set (reorderCompletions ?t)" "applyCursor ?t \<notin> set (applyHoles ?t)"
    using nin unfolding hs by (simp_all add: K')
  ultimately show "pool_inv cs ?t"
    unfolding pool_inv_def reg using cnt ckp(1) leN by simp
qed

end
