(* ===== verification/Collector_Steps.thy ===== *)
theory Collector_Steps
  imports Collector_Pool
begin

text \<open>
  Every operation of the collector that applies completions or resolves an episode keeps the pool
  invariant and the mode invariant, and moves the run forward in the sense of \<open>evolves\<close>.
\<close>

section \<open>Modes of a run\<close>

definition stopped :: "proc \<Rightarrow> bool" where
  "stopped s \<longleftrightarrow> rollback s \<noteq> None \<or> fatalErr s \<noteq> None"

definition leaving :: "proc \<Rightarrow> bool" where
  "leaving s \<longleftrightarrow> cancelled s \<or> episode s \<noteq> None"

text \<open>A decided run is cancelled; while an episode is open, a rollback point is recorded or the store
  channel is closed, no item waits for the pool.\<close>

definition mode_inv :: "proc \<Rightarrow> bool" where
  "mode_inv s \<longleftrightarrow> (stopped s \<or> storeClosed s \<longrightarrow> cancelled s)
     \<and> (episode s \<noteq> None \<or> rollback s \<noteq> None \<or> storeClosed s \<longrightarrow> holdingDispatch s = None)"

definition queues :: "proc \<Rightarrow> BlockResult option \<times> BlockResult list \<times> BlockResult list \<times> storeCompletion list \<times> int" where
  "queues s = (holdingDispatch s, storeQ s, running s, completionQ s, inFlight s)"

text \<open>The pool is kept as it is, or drained.\<close>

definition pool_kept :: "proc \<Rightarrow> proc \<Rightarrow> bool" where
  "pool_kept s t \<longleftrightarrow> queues t = queues s \<or> registered t = [] \<and> completionQ t = []"

text \<open>Every commit resets the rollback counters, nothing else in a run changes them.\<close>

definition counters :: "proc \<Rightarrow> nat \<times> (height \<Rightarrow> nat)" where
  "counters s = (episodeRollbacks s, heightRollbacks s)"

definition commits :: "proc \<Rightarrow> proc \<Rightarrow> bool" where
  "commits s t \<longleftrightarrow> (\<exists>new. callbacks t = callbacks s @ new \<and> (stopped s \<longrightarrow> new = [])
     \<and> counters t = (if new = [] then counters s else (0, \<lambda>_. 0)))"

definition evolves :: "proc \<Rightarrow> proc \<Rightarrow> bool" where
  "evolves s t \<longleftrightarrow> frame t = frame s \<and> applyCursor s \<le> applyCursor t \<and> pool_kept s t
     \<and> (cancelled s \<longrightarrow> cancelled t) \<and> (leaving s \<longrightarrow> leaving t)
     \<and> (rollback s \<noteq> None \<longrightarrow> rollback t = rollback s) \<and> (fatalErr s \<noteq> None \<longrightarrow> fatalErr t \<noteq> None)
     \<and> commits s t"

lemma commits_same: "callbacks t = callbacks s \<Longrightarrow> counters t = counters s \<Longrightarrow> commits s t"
  by (simp add: commits_def)

lemma commits_trans:
  assumes "commits s t" and "commits t u" and "stopped s \<Longrightarrow> stopped t"
  shows "commits s u"
proof -
  obtain n1 n2 where n: "callbacks t = callbacks s @ n1" "stopped s \<longrightarrow> n1 = []" "counters t = (if n1 = [] then counters s else (0, \<lambda>_. 0))"
    "callbacks u = callbacks t @ n2" "stopped t \<longrightarrow> n2 = []" "counters u = (if n2 = [] then counters t else (0, \<lambda>_. 0))"
    using assms unfolding commits_def by blast
  have "callbacks u = callbacks s @ (n1 @ n2) \<and> (stopped s \<longrightarrow> n1 @ n2 = [])
      \<and> counters u = (if n1 @ n2 = [] then counters s else (0, \<lambda>_. 0))"
    using n assms(3) by auto
  then show ?thesis unfolding commits_def ..
qed

lemma pool_kept_trans: "pool_kept s t \<Longrightarrow> pool_kept t u \<Longrightarrow> pool_kept s u"
  unfolding pool_kept_def queues_def registered_def held_def by auto

lemma evolves_refl: "evolves s s"
  by (simp add: evolves_def pool_kept_def commits_same)

lemma evolves_stopped: "evolves s t \<Longrightarrow> stopped s \<Longrightarrow> stopped t"
  by (auto simp: evolves_def stopped_def)

lemma evolves_trans:
  assumes "evolves s t" and "evolves t u"
  shows "evolves s u"
proof -
  have "commits s u"
    by (rule commits_trans [of s t]) (use assms evolves_stopped [OF assms(1)] in \<open>simp_all add: evolves_def\<close>)
  then show ?thesis
    using assms pool_kept_trans [of s t u] unfolding evolves_def by (elim conjE) (intro conjI; simp)
qed

lemma evolves_callbacks_inv: "evolves s t \<Longrightarrow> callbacks t = callbacks s \<Longrightarrow> callbacks_inv s \<Longrightarrow> callbacks_inv t"
proof (rule callbacks_inv_step [of s t undefined])
  assume e: "evolves s t"
  then have "frame t = frame s" by (simp add: evolves_def)
  then show "checked t = checked s" by (rule frame_checked [THEN conjunct1])
  show "applyCursor s \<le> applyCursor t" using e by (simp add: evolves_def)
qed simp_all

section \<open>Contracts\<close>

definition safe :: "collector_env \<Rightarrow> storeCompletion list \<Rightarrow> proc \<Rightarrow> bool" where
  "safe env cs s \<longleftrightarrow> pool_inv cs s \<and> pool_env env s \<and> mode_inv s"

definition opn_ok :: "collector_env \<Rightarrow> (storeCompletion \<Rightarrow> proc \<Rightarrow> proc) \<Rightarrow> bool" where
  "opn_ok env opn \<longleftrightarrow> (\<forall>c cs s. safe env cs s \<and> episode s = None \<and> \<not> stopped s \<longrightarrow>
     safe env cs (opn c s) \<and> evolves s (opn c s) \<and> callbacks (opn c s) = callbacks s)"

lemma opn_ok_skip: "opn_ok env (\<lambda>c s. s)"
  by (simp add: opn_ok_def evolves_refl)

lemma opn_okD:
  "opn_ok env opn \<Longrightarrow> safe env cs s \<Longrightarrow> episode s = None \<Longrightarrow> \<not> stopped s \<Longrightarrow>
   safe env cs (opn c s) \<and> evolves s (opn c s) \<and> callbacks (opn c s) = callbacks s"
  by (simp add: opn_ok_def)

text \<open>Updates of the control fields only.\<close>

lemma safe_view:
  assumes "safe env cs s" and "pool_view t = pool_view s" and "mode_inv t"
    and "cancelled t \<or> episode t \<noteq> None \<or> cancelled t = cancelled s \<and> episode t = episode s"
  shows "safe env cs t"
  using assms pool_inv_view pool_env_view unfolding safe_def by blast

lemma evolves_view:
  assumes "pool_view t = pool_view s" and "frame t = frame s" and "callbacks t = callbacks s" and "counters t = counters s"
    and "cancelled s \<Longrightarrow> cancelled t" and "leaving s \<Longrightarrow> leaving t"
    and "rollback s \<noteq> None \<Longrightarrow> rollback t = rollback s" and "fatalErr s \<noteq> None \<Longrightarrow> fatalErr t \<noteq> None"
  shows "evolves s t"
  using assms by (simp add: evolves_def pool_kept_def queues_def pool_view_def commits_same)

section \<open>Applying completions\<close>

lemma applyOne_forms:
  "(\<exists>e. applyOneCompletion opn c sp s = failRun e s) \<or> (applyOneCompletion opn c sp s = opn c s \<and> episode s = None \<and> \<not> stopped s)
   \<or> (\<exists>ep. applyOneCompletion opn c sp s = s\<lparr>episode := Some ep\<rparr> \<and> episode s \<noteq> None)
   \<or> applyOneCompletion opn c sp s = s \<or> (applyOneCompletion opn c sp s = applyCommit (item c) s \<and> \<not> sp)"
proof (cases "br_Error (computed c)")
  case None
  then show ?thesis by (simp add: applyOneCompletion_def)
next
  case (Some e)
  show ?thesis
  proof (cases "IsErrDocumentDeleted (Some e)")
    case True
    then have "applyOneCompletion opn c sp s = failRun (err_store_refused (num c) e) s"
      by (simp add: applyOneCompletion_def Some)
    then show ?thesis by blast
  next
    case False
    show ?thesis
    proof (cases "episode s")
      case None
      then show ?thesis using False Some by (simp add: applyOneCompletion_def stopped_def)
    next
      case (Some ep)
      then have "applyOneCompletion opn c sp s = s
          \<or> (\<exists>ep. applyOneCompletion opn c sp s = s\<lparr>episode := Some ep\<rparr>)"
        using False \<open>br_Error (computed c) = Some e\<close> by (simp add: applyOneCompletion_def) blast
      then show ?thesis using Some by auto
    qed
  qed
qed

lemma applyOne_ok:
  assumes opn: "opn_ok env opn" and safe: "safe env cs s" and sp: "stopped s \<Longrightarrow> sp"
  shows "safe env cs (applyOneCompletion opn c sp s) \<and> evolves s (applyOneCompletion opn c sp s)
    \<and> (callbacks (applyOneCompletion opn c sp s) = callbacks s
       \<or> \<not> sp \<and> callbacks (applyOneCompletion opn c sp s) = callbacks s @ [item c])"
  using applyOne_forms [of opn c sp s]
proof (elim disjE exE conjE)
  have m: "mode_inv s" using safe by (simp add: safe_def)
  {
    fix e
    assume eq: "applyOneCompletion opn c sp s = failRun e s"
    have "safe env cs (failRun e s)"
      by (rule safe_view [OF safe]) (use m in \<open>auto simp: failRun_def runCancel_def mode_inv_def stopped_def\<close>)
    moreover have "evolves s (failRun e s)"
      by (rule evolves_view) (auto simp: failRun_def runCancel_def leaving_def counters_def)
    ultimately show ?thesis unfolding eq by (simp add: failRun_def runCancel_def)
  next
    assume "applyOneCompletion opn c sp s = opn c s" "episode s = None" "\<not> stopped s"
    then show ?thesis using opn_okD [OF opn safe] by simp
  next
    fix ep
    assume eq: "applyOneCompletion opn c sp s = s\<lparr>episode := Some ep\<rparr>" and ep: "episode s \<noteq> None"
    have "safe env cs (s\<lparr>episode := Some ep\<rparr>)"
      by (rule safe_view [OF safe]) (use m ep in \<open>auto simp: mode_inv_def stopped_def\<close>)
    moreover have "evolves s (s\<lparr>episode := Some ep\<rparr>)"
      by (rule evolves_view) (auto simp: leaving_def counters_def)
    ultimately show ?thesis unfolding eq by simp
  next
    assume "applyOneCompletion opn c sp s = s"
    then show ?thesis using safe evolves_refl by simp
  next
    assume eq: "applyOneCompletion opn c sp s = applyCommit (item c) s" and "\<not> sp"
    then have ns: "\<not> stopped s" using sp by blast
    have "safe env cs (applyCommit (item c) s)"
      by (rule safe_view [OF safe]) (use m in \<open>auto simp: applyCommit_def mode_inv_def stopped_def\<close>)
    moreover have "evolves s (applyCommit (item c) s)"
      using ns by (simp add: evolves_def applyCommit_def pool_kept_def queues_def leaving_def counters_def commits_def)
    ultimately show ?thesis unfolding eq using \<open>\<not> sp\<close> by (simp add: applyCommit_def)
  }
qed

lemma applyBatch_ok:
  assumes opn: "opn_ok env opn"
  shows "safe env cs s \<Longrightarrow> safe env cs (applyBatch opn batch sp s) \<and> evolves s (applyBatch opn batch sp s)"
proof (induction batch arbitrary: s)
  case Nil
  then show ?case by (simp add: evolves_refl)
next
  case (Cons c batch)
  let ?s1 = "applyOneCompletion opn c (sp \<or> rollback s \<noteq> None \<or> fatalErr s \<noteq> None) s"
  have 1: "safe env cs ?s1" "evolves s ?s1"
    using applyOne_ok [OF opn Cons.prems, of "sp \<or> rollback s \<noteq> None \<or> fatalErr s \<noteq> None"] by (auto simp: stopped_def)
  show ?case unfolding applyBatch.simps using Cons.IH [OF 1(1)] evolves_trans [OF 1(2)] by blast
qed

lemma applyBatch_callbacks:
  assumes opn: "opn_ok env opn"
  shows "safe env cs s \<Longrightarrow> callbacks_inv s \<Longrightarrow> sorted_wrt (<) (map num batch) \<Longrightarrow>
    \<forall>c \<in> set batch. num c < applyCursor s \<and> checked s (num c) = Some (item c)
      \<and> (\<forall>it \<in> set (callbacks s). br_Num it < num c) \<Longrightarrow>
    callbacks_inv (applyBatch opn batch sp s)"
proof (induction batch arbitrary: s)
  case (Cons c batch)
  let ?s1 = "applyOneCompletion opn c (sp \<or> rollback s \<noteq> None \<or> fatalErr s \<noteq> None) s"
  have 1: "safe env cs ?s1" "evolves s ?s1"
    and cb: "callbacks ?s1 = callbacks s \<or> callbacks ?s1 = callbacks s @ [item c]"
    using applyOne_ok [OF opn Cons.prems(1), of "sp \<or> rollback s \<noteq> None \<or> fatalErr s \<noteq> None"] by (auto simp: stopped_def)
  have fr: "frame ?s1 = frame s" and le: "applyCursor s \<le> applyCursor ?s1"
    using 1(2) unfolding evolves_def by blast+
  have ck: "checked ?s1 = checked s" using frame_checked [OF fr] by simp
  have hd: "num c < applyCursor s" "checked s (num c) = Some (item c)" "\<forall>it \<in> set (callbacks s). br_Num it < num c"
    using Cons.prems(4) by simp_all
  have inv: "callbacks_inv ?s1"
    by (rule callbacks_inv_step [OF Cons.prems(2) ck le, of "item c"]) (use cb hd in blast)
  have sub: "set (callbacks ?s1) \<subseteq> insert (item c) (set (callbacks s))" using cb by auto
  have rest: "\<forall>c' \<in> set batch. num c' < applyCursor ?s1 \<and> checked ?s1 (num c') = Some (item c')
      \<and> (\<forall>it \<in> set (callbacks ?s1). br_Num it < num c')"
  proof
    fix c'
    assume c': "c' \<in> set batch"
    then have "num c' < applyCursor s" "checked s (num c') = Some (item c')" "num c < num c'"
      "\<forall>it \<in> set (callbacks s). br_Num it < num c'"
      using Cons.prems(3,4) by auto
    then show "num c' < applyCursor ?s1 \<and> checked ?s1 (num c') = Some (item c')
      \<and> (\<forall>it \<in> set (callbacks ?s1). br_Num it < num c')"
      using sub le unfolding ck by (intro conjI ballI) (linarith, assumption, blast)
  qed
  show ?case unfolding applyBatch.simps
    by (rule Cons.IH [OF 1(1) inv _ rest]) (use Cons.prems(3) in simp)
qed simp

lemma applyCompletion_ok:
  assumes opn: "opn_ok env opn" and safe: "safe env (c # cs) s"
  shows "safe env cs (applyCompletion opn c sp s)" and "evolves s (applyCompletion opn c sp s)"
    and "callbacks_inv s \<Longrightarrow> callbacks_inv (applyCompletion opn c sp s)"
proof -
  obtain batch cursor holes reorder where
    eq: "collectReady (applyCursor s) (applyHoles s) (park c (reorderCompletions s)) = (batch, cursor, holes, reorder)"
    by (metis prod_cases4)
  let ?t = "s\<lparr>applyCursor := cursor, applyHoles := holes, reorderCompletions := reorder\<rparr>"
  note run = applyCompletion_unfold [OF eq]
  have inv: "pool_inv (c # cs) s" "pool_env env s" "mode_inv s" using safe by (simp_all add: safe_def)
  note cp = collect_pool [OF inv(1) eq]
  have t: "safe env cs ?t"
    using cp(1) inv by (simp add: safe_def pool_env_def outstanding_def mode_inv_def stopped_def)
  have e: "evolves s ?t"
    using cp(2) by (simp add: evolves_def pool_kept_def queues_def leaving_def counters_def commits_def)
  show "safe env cs (applyCompletion opn c sp s)" unfolding run using applyBatch_ok [OF opn t] by blast
  show "evolves s (applyCompletion opn c sp s)" unfolding run
    using applyBatch_ok [OF opn t] evolves_trans [OF e] by blast
  assume cb: "callbacks_inv s"
  then have cbt: "callbacks_inv ?t" by (rule evolves_callbacks_inv [OF e, rotated]) simp
  have "num b < applyCursor ?t \<and> checked ?t (num b) = Some (item b)
      \<and> (\<forall>it \<in> set (callbacks ?t). br_Num it < num b)" if "b \<in> set batch" for b
    using cp(4) that cb unfolding callbacks_inv_def by fastforce
  then show "callbacks_inv (applyCompletion opn c sp s)" unfolding run
    using applyBatch_callbacks [OF opn t cbt cp(3)] by blast
qed

lemma fold_apply_ok:
  assumes opn: "opn_ok env opn"
  shows "safe env (ds @ cs) s \<Longrightarrow> safe env cs (fold (\<lambda>c. applyCompletion opn c sp) ds s)
    \<and> evolves s (fold (\<lambda>c. applyCompletion opn c sp) ds s)
    \<and> (callbacks_inv s \<longrightarrow> callbacks_inv (fold (\<lambda>c. applyCompletion opn c sp) ds s))"
proof (induction ds arbitrary: s)
  case Nil
  then show ?case by (simp add: evolves_refl)
next
  case (Cons c ds)
  note 1 = applyCompletion_ok [OF opn Cons.prems [unfolded append_Cons], of sp]
  show ?case unfolding fold_simps using Cons.IH [OF 1(1)] evolves_trans [OF 1(2)] 1(3) by blast
qed

section \<open>Draining the pool\<close>

text \<open>A suppressed drain fires no callback.\<close>

lemma applyOne_mute:
  assumes "episode s \<noteq> None"
  shows "callbacks (applyOneCompletion opn c True s) = callbacks s"
  using applyOne_forms [of opn c True s] assms
  by (auto simp: failRun_def runCancel_def)

lemma applyBatch_mute: "episode s \<noteq> None \<Longrightarrow> callbacks (applyBatch opn batch True s) = callbacks s"
proof (induction batch arbitrary: s)
  case (Cons c batch)
  have "episode (applyOneCompletion opn c True s) \<noteq> None" by (rule applyOne_open [OF Cons.prems])
  from Cons.IH [OF this] show ?case using applyOne_mute [OF Cons.prems] by simp
qed simp

lemma applyCompletion_mute:
  assumes "episode s \<noteq> None"
  shows "callbacks (applyCompletion opn c True s) = callbacks s"
proof (rule applyCompletion_cases [of s c])
  fix batch cursor holes reorder
  assume eq: "\<And>opn sp. applyCompletion opn c sp s = applyBatch opn batch sp
      (s\<lparr>applyCursor := cursor, applyHoles := holes, reorderCompletions := reorder\<rparr>)"
  show ?thesis unfolding eq by (subst applyBatch_mute) (simp_all add: assms)
qed

lemma fold_apply_mute:
  "episode s \<noteq> None \<Longrightarrow> callbacks (fold (\<lambda>c. applyCompletion opn c True) ds s) = callbacks s"
proof (induction ds arbitrary: s)
  case (Cons c ds)
  from Cons.IH [OF applyCompletion_open [OF Cons.prems]] show ?case
    using applyCompletion_mute [OF Cons.prems] by simp
qed simp

definition draining :: "collector_env \<Rightarrow> storeCompletion list \<Rightarrow> proc \<Rightarrow> bool" where
  "draining env cs s \<longleftrightarrow> pool_inv cs s \<and> pool_env env s \<and> (stopped s \<or> storeClosed s \<longrightarrow> cancelled s) \<and> episode s \<noteq> None"

lemma settled_fields [simp]:
  "holdingDispatch (settle_pool (drop_held s)) = None" "storeQ (settle_pool (drop_held s)) = []"
  "running (settle_pool (drop_held s)) = []" "completionQ (settle_pool (drop_held s)) = []"
  "reorderCompletions (settle_pool (drop_held s)) = reorderCompletions s"
  "applyHoles (settle_pool (drop_held s)) = applyHoles s" "applyCursor (settle_pool (drop_held s)) = applyCursor s"
  "nextToCommit (settle_pool (drop_held s)) = nextToCommit s" "checked (settle_pool (drop_held s)) = checked s"
  "cancelled (settle_pool (drop_held s)) = cancelled s" "rollback (settle_pool (drop_held s)) = rollback s"
  "fatalErr (settle_pool (drop_held s)) = fatalErr s" "callbacks (settle_pool (drop_held s)) = callbacks s"
  "storeClosed (settle_pool (drop_held s)) = storeClosed s"
  "inFlight (settle_pool (drop_held s)) = inFlight s - int (length (registered s))"
  "episodeRollbacks (settle_pool (drop_held s)) = episodeRollbacks s"
  "heightRollbacks (settle_pool (drop_held s)) = heightRollbacks s"
  "completionQ (drop_held s) = completionQ s" "outstanding env (drop_held s) = outstanding env s"
  by (simp_all add: settle_pool_def drop_held_def registered_def held_def outstanding_def split: option.splits)

lemma settle_ok:
  assumes "draining env cs s"
  shows "safe env ((completionQ s @ outstanding env s) @ cs) (settle_pool (drop_held s))"
    and "evolves s (settle_pool (drop_held s))"
proof -
  let ?t = "settle_pool (drop_held s)"
  have inv: "pool_inv cs s" "pool_env env s" "stopped s \<or> storeClosed s \<longrightarrow> cancelled s" "episode s \<noteq> None"
    using assms by (simp_all add: draining_def)
  have reg: "registered ?t = []" by (simp add: registered_def held_def)
  have "mset (in_pool ((completionQ s @ outstanding env s) @ cs) ?t) \<subseteq># mset (in_pool cs s)"
    unfolding in_pool_def reg using inv(2) by (simp add: pool_env_def registered_def)
  then have "pool_inv ((completionQ s @ outstanding env s) @ cs) ?t"
    by (rule pool_inv_sub [OF inv(1)]) (simp_all add: reg inv(4) pool_invD(1) [OF inv(1)])
  moreover have "pool_env env ?t" by (simp add: pool_env_def outstanding_def)
  moreover have "mode_inv ?t" using inv(3) by (simp add: mode_inv_def stopped_def)
  ultimately show "safe env ((completionQ s @ outstanding env s) @ cs) ?t" by (simp add: safe_def)
  show "evolves s ?t" by (simp add: evolves_def pool_kept_def reg leaving_def counters_def commits_def)
qed

lemma drain_ok:
  assumes opn: "opn_ok env opn" and dr: "draining env cs s"
  shows "safe env cs (drainInFlightStores opn env s)" and "evolves s (drainInFlightStores opn env s)"
    and "callbacks_inv s \<Longrightarrow> callbacks_inv (drainInFlightStores opn env s)"
    and "registered (drainInFlightStores opn env s) = []" and "completionQ (drainInFlightStores opn env s) = []"
    and "\<exists>ep. episode s = Some ep \<and> stalePinned ep \<Longrightarrow> callbacks (drainInFlightStores opn env s) = callbacks s"
proof -
  let ?t = "settle_pool (drop_held s)"
  define sp where "sp = (case episode s of None \<Rightarrow> False | Some ep \<Rightarrow> stalePinned ep)"
  have run: "drainInFlightStores opn env s = fold (\<lambda>c. applyCompletion opn c sp) (completionQ s @ outstanding env s) ?t"
    by (simp add: drainInFlightStores_def Let_def sp_def)
  have ep: "episode ?t \<noteq> None" using dr by (simp add: draining_def)
  note st = settle_ok [OF dr]
  note f = fold_apply_ok [OF opn st(1), of sp]
  show "safe env cs (drainInFlightStores opn env s)" unfolding run using f by blast
  have ev: "evolves ?t (drainInFlightStores opn env s)" unfolding run using f by blast
  then show "evolves s (drainInFlightStores opn env s)" by (rule evolves_trans [OF st(2)])
  show "callbacks_inv (drainInFlightStores opn env s)" if "callbacks_inv s"
    unfolding run using f evolves_callbacks_inv [OF st(2) _ that] by simp
  show "registered (drainInFlightStores opn env s) = []" "completionQ (drainInFlightStores opn env s) = []"
    using ev by (auto simp: evolves_def pool_kept_def queues_def registered_def held_def)
  show "callbacks (drainInFlightStores opn env s) = callbacks s" if "\<exists>ep. episode s = Some ep \<and> stalePinned ep"
  proof -
    have "sp = True" using that by (auto simp: sp_def)
    then show ?thesis unfolding run by (simp only: fold_apply_mute [OF ep] settled_fields)
  qed
qed

section \<open>Episodes\<close>

lemma finalize_forms:
  fixes opn env cf s
  defines "d \<equiv> drainInFlightStores opn env s" and "t \<equiv> finalizeEpisode opn env cf s"
  assumes "episode s \<noteq> None"
  shows "(t = d\<lparr>episode := None\<rparr> \<and> cancelled d) \<or> t = d\<lparr>panicked := True\<rparr>
    \<or> (\<exists>e. t = runCancel (d\<lparr>episode := None, fatalErr := Some e\<rparr>)) \<or> t = d\<lparr>episode := None, cancelled := True\<rparr>
    \<or> (\<exists>rb. t = runCancel (d\<lparr>episode := None, rollback := Some rb\<rparr>) \<and> \<not> cancelled d)"
proof -
  obtain ep where ep: "episode d = Some ep" using drain_open [OF assms(3), of opn env] d_def by auto
  define startH where "startH = (if stalePinned ep then staleTopHeight ep else baseHeight ep - 1)"
  define startHash where "startHash = (if stalePinned ep then staleTopHash ep else baseParentHash ep)"
  define r where "r = resolveForkPoint (finalized env) (case handler env of Some q \<Rightarrow> q | None \<Rightarrow> (\<lambda>_. Inr []))
               (header env) (configuredStart d) startH startHash"
  have t: "t = (if cancelled d then d\<lparr>episode := None\<rparr>
     else if handler env = None \<and> 0 \<le> startH \<and> startHash \<noteq> [] then d\<lparr>panicked := True\<rparr>
     else case r of
          Inl err \<Rightarrow> if walkCancel env then d\<lparr>episode := None, cancelled := True\<rparr>
            else runCancel (d\<lparr>episode := None, fatalErr := Some (err_reorg_at (baseHeight ep) err)\<rparr>)
        | Inr (f, ch) \<Rightarrow> runCancel (d\<lparr>episode := None, rollback := Some \<lparr>forkPoint = f, oldTip = 0,
              chainHashes = (if stalePinned ep then ch
                else case cf of None \<Rightarrow> ch
                | Some it \<Rightarrow> ch(baseHeight ep \<mapsto> lastParkedHash ep, br_Num it \<mapsto> br_Hash it))\<rparr>\<rparr>))"
    unfolding t_def finalizeEpisode_def d_def [symmetric] Let_def ep r_def startH_def startHash_def by simp
  show ?thesis
  proof (cases "cancelled d \<or> handler env = None \<and> 0 \<le> startH \<and> startHash \<noteq> []")
    case True
    then show ?thesis unfolding t by auto
  next
    case False
    show ?thesis
    proof (cases r)
      case (Inl err)
      then show ?thesis using False unfolding t by auto
    next
      case (Inr p)
      then show ?thesis using False unfolding t by (cases p) auto
    qed
  qed
qed

lemma finalize_ok:
  assumes opn: "opn_ok env opn" and dr: "draining env cs s"
  shows "safe env cs (finalizeEpisode opn env cf s)" and "evolves s (finalizeEpisode opn env cf s)"
    and "callbacks_inv s \<Longrightarrow> callbacks_inv (finalizeEpisode opn env cf s)"
    and "\<exists>ep. episode s = Some ep \<and> stalePinned ep \<Longrightarrow> callbacks (finalizeEpisode opn env cf s) = callbacks s"
proof -
  define d where "d = drainInFlightStores opn env s"
  define t where "t = finalizeEpisode opn env cf s"
  note D = drain_ok [OF opn dr, folded d_def]
  have ep: "episode s \<noteq> None" using dr by (simp add: draining_def)
  have ed: "episode d \<noteq> None" unfolding d_def by (rule drain_open [OF ep])
  have m: "mode_inv d" and h: "holdingDispatch d = None"
    using D(1,4) by (auto simp: safe_def registered_def held_def split: option.splits)
  have cb: "callbacks t = callbacks d" and sd: "safe env cs t \<and> evolves d t"
    using finalize_forms [OF ep, of opn env cf, folded d_def t_def]
  proof (atomize(full), elim disjE conjE exE)
    assume t: "t = d\<lparr>episode := None\<rparr>" and c: "cancelled d"
    have "safe env cs t" unfolding t by (rule safe_view [OF D(1)]) (use m h c in \<open>auto simp: mode_inv_def stopped_def\<close>)
    moreover have "evolves d t" unfolding t by (rule evolves_view) (use c in \<open>simp_all add: leaving_def counters_def\<close>)
    ultimately show "callbacks t = callbacks d \<and> safe env cs t \<and> evolves d t" by (simp add: t)
  next
    assume t: "t = d\<lparr>panicked := True\<rparr>"
    have "safe env cs t" unfolding t by (rule safe_view [OF D(1)]) (use m h in \<open>auto simp: mode_inv_def stopped_def\<close>)
    moreover have "evolves d t" unfolding t by (rule evolves_view) (simp_all add: leaving_def counters_def)
    ultimately show "callbacks t = callbacks d \<and> safe env cs t \<and> evolves d t" by (simp add: t)
  next
    fix e
    assume t: "t = runCancel (d\<lparr>episode := None, fatalErr := Some e\<rparr>)"
    have "safe env cs t" unfolding t runCancel_def
      by (rule safe_view [OF D(1)]) (use m h in \<open>auto simp: mode_inv_def stopped_def\<close>)
    moreover have "evolves d t" unfolding t runCancel_def by (rule evolves_view) (simp_all add: leaving_def counters_def)
    ultimately show "callbacks t = callbacks d \<and> safe env cs t \<and> evolves d t" by (simp add: t runCancel_def)
  next
    assume t: "t = d\<lparr>episode := None, cancelled := True\<rparr>"
    have "safe env cs t" unfolding t by (rule safe_view [OF D(1)]) (use m h in \<open>auto simp: mode_inv_def stopped_def\<close>)
    moreover have "evolves d t" unfolding t by (rule evolves_view) (simp_all add: leaving_def counters_def)
    ultimately show "callbacks t = callbacks d \<and> safe env cs t \<and> evolves d t" by (simp add: t)
  next
    fix rb
    assume t: "t = runCancel (d\<lparr>episode := None, rollback := Some rb\<rparr>)" and c: "\<not> cancelled d"
    have "safe env cs t" unfolding t runCancel_def
      by (rule safe_view [OF D(1)]) (use m h in \<open>auto simp: mode_inv_def stopped_def\<close>)
    moreover have "evolves d t" unfolding t runCancel_def
      by (rule evolves_view) (use m c in \<open>auto simp: leaving_def counters_def mode_inv_def stopped_def\<close>)
    ultimately show "callbacks t = callbacks d \<and> safe env cs t \<and> evolves d t" by (simp add: t runCancel_def)
  qed
  show "safe env cs (finalizeEpisode opn env cf s)" using sd by (simp add: t_def)
  have e: "evolves s t" using sd evolves_trans [OF D(2)] by blast
  then show "evolves s (finalizeEpisode opn env cf s)" by (simp add: t_def)
  show "callbacks_inv (finalizeEpisode opn env cf s)" if "callbacks_inv s"
    using evolves_callbacks_inv [OF _ cb D(3) [OF that]] sd by (simp add: t_def)
  show "callbacks (finalizeEpisode opn env cf s) = callbacks s" if "\<exists>ep. episode s = Some ep \<and> stalePinned ep"
    using D(6) [OF that] cb by (simp add: t_def)
qed

lemma opener_ok: "opn_ok env (opener env)"
  unfolding opn_ok_def
proof (intro allI impI, elim conjE)
  fix c cs s
  assume safe: "safe env cs s" and ep: "episode s = None"
  let ?ep = "\<lparr>baseHeight = num c, baseParentHash = [], lastParkedHash = [], rewalks = 0, gapRefills = 0,
      stalePinned = True, staleTopHeight = num c, staleTopHash = br_Hash (item c)\<rparr>"
  let ?s = "s\<lparr>episode := Some ?ep\<rparr>"
  have "pool_inv cs ?s"
    by (rule pool_inv_view [of cs s]) (use safe in \<open>simp_all add: safe_def\<close>)
  moreover have "pool_env env ?s"
    by (rule pool_env_view [of env s]) (use safe in \<open>simp_all add: safe_def\<close>)
  ultimately have dr: "draining env cs ?s"
    using safe by (simp add: draining_def safe_def mode_inv_def stopped_def)
  have e: "evolves s ?s" by (rule evolves_view) (simp_all add: leaving_def counters_def)
  have run: "opener env c s = finalizeEpisode (\<lambda>c s. s) env None ?s"
    by (simp add: opener_def openStaleEpisode_def)
  note F = finalize_ok [OF opn_ok_skip dr, of None]
  show "safe env cs (opener env c s) \<and> evolves s (opener env c s) \<and> callbacks (opener env c s) = callbacks s"
    unfolding run using F(1,4) evolves_trans [OF e F(2)] by simp
qed

lemma refill_forms:
  assumes "refillEpisodeGap env ep it s = (t, r)"
  shows "(\<exists>ep' b. t = s\<lparr>episode := Some ep', cancelled := cancelled s \<or> b\<rparr>)
    \<or> (\<exists>e b. t = s\<lparr>episode := None, cancelled := b, fatalErr := Some e, cancelled := True\<rparr> \<and> r = None)
    \<or> (\<exists>e. t = s\<lparr>episode := None, fatalErr := Some e, cancelled := True\<rparr> \<and> r = None)"
proof (cases "gapRefills ep \<ge> maxGapRefillsPerWait")
  case True
  then show ?thesis using assms by (auto simp: refillEpisodeGap_def runCancel_def)
next
  case False
  show ?thesis
  proof (cases "br_Error (refetch env (gapRefills ep))")
    case None
    then show ?thesis using assms False by (auto simp: refillEpisodeGap_def Let_def)
  next
    case (Some e)
    have t: "t = s\<lparr>episode := Some (ep\<lparr>gapRefills := gapRefills ep + 1\<rparr>), cancelled := cancelled s \<or> refillCancel env (gapRefills ep)\<rparr>
      \<or> t = s\<lparr>episode := None, fatalErr := Some (err_wait_failed (baseHeight ep) (br_Num it) e), cancelled := True\<rparr> \<and> r = None"
      using assms False Some by (auto simp: refillEpisodeGap_def Let_def runCancel_def split: if_splits)
    then show ?thesis by auto
  qed
qed

lemma refill_ok:
  assumes safe: "safe env cs s" and ep: "episode s = Some ep" and eq: "refillEpisodeGap env ep it s = (t, r)"
  shows "safe env cs t" and "evolves s t" and "callbacks t = callbacks s" and "r \<noteq> None \<Longrightarrow> episode t \<noteq> None"
proof -
  have m: "mode_inv s" using safe by (simp add: safe_def)
  have h: "holdingDispatch s = None" using m ep by (simp add: mode_inv_def)
  have "safe env cs t \<and> evolves s t \<and> callbacks t = callbacks s \<and> (r \<noteq> None \<longrightarrow> episode t \<noteq> None)"
    using refill_forms [OF eq]
  proof (elim disjE exE conjE)
    fix ep' b
    assume t: "t = s\<lparr>episode := Some ep', cancelled := cancelled s \<or> b\<rparr>"
    have "safe env cs t" unfolding t by (rule safe_view [OF safe]) (use m h in \<open>auto simp: mode_inv_def stopped_def\<close>)
    moreover have "evolves s t" unfolding t by (rule evolves_view) (simp_all add: leaving_def counters_def)
    ultimately show ?thesis by (simp add: t)
  next
    fix e b
    assume t: "t = s\<lparr>episode := None, cancelled := b, fatalErr := Some e, cancelled := True\<rparr>" "r = None"
    have "safe env cs t" unfolding t by (rule safe_view [OF safe]) (use m h in \<open>auto simp: mode_inv_def stopped_def\<close>)
    moreover have "evolves s t" unfolding t by (rule evolves_view) (simp_all add: leaving_def counters_def)
    ultimately show ?thesis by (simp add: t)
  next
    fix e
    assume t: "t = s\<lparr>episode := None, fatalErr := Some e, cancelled := True\<rparr>" "r = None"
    have "safe env cs t" unfolding t by (rule safe_view [OF safe]) (use m h in \<open>auto simp: mode_inv_def stopped_def\<close>)
    moreover have "evolves s t" unfolding t by (rule evolves_view) (simp_all add: leaving_def counters_def)
    ultimately show ?thesis by (simp add: t)
  qed
  then show "safe env cs t" "evolves s t" "callbacks t = callbacks s" "r \<noteq> None \<Longrightarrow> episode t \<noteq> None" by blast+
qed

lemma reanchor_ok:
  fixes ep it s
  assumes safe: "safe env cs s" and ep: "episode s = Some ep"
  defines "t \<equiv> reanchorEpisode ep it s"
  defines "u \<equiv> if fatalErr t \<noteq> None then runCancel t else t"
  shows "safe env cs u \<and> evolves s u \<and> callbacks u = callbacks s"
proof -
  have m: "mode_inv s" using safe by (simp add: safe_def)
  have h: "holdingDispatch s = None" using m ep by (simp add: mode_inv_def)
  have view: "pool_view u = pool_view s" "frame u = frame s" "callbacks u = callbacks s" "counters u = counters s"
    by (simp_all add: u_def t_def reanchorEpisode_def runCancel_def counters_def)
  have c: "(if rewalks ep \<ge> maxRewalksPerEpisode then cancelled u \<and> episode u = None \<and> fatalErr u \<noteq> None
      else episode u \<noteq> None \<and> fatalErr u = fatalErr s \<and> (cancelled s \<longrightarrow> cancelled u) \<and> (cancelled u \<longrightarrow> cancelled s \<or> fatalErr s \<noteq> None))"
    "rollback u = rollback s" "holdingDispatch u = None" "storeClosed u = storeClosed s"
    using h by (simp_all add: u_def t_def reanchorEpisode_def runCancel_def)
  have m': "mode_inv u" using m c by (auto simp: mode_inv_def stopped_def split: if_splits)
  have "safe env cs u" by (rule safe_view [OF safe view(1) m']) (use c in \<open>auto split: if_splits\<close>)
  moreover have "evolves s u" by (rule evolves_view [OF view]) (use c in \<open>auto simp: leaving_def counters_def split: if_splits\<close>)
  ultimately show ?thesis using view by simp
qed

lemma resolve_ok:
  "safe env cs s \<Longrightarrow> safe env cs (resolveEpisodeItem env it s) \<and> evolves s (resolveEpisodeItem env it s)
   \<and> (callbacks_inv s \<longrightarrow> callbacks_inv (resolveEpisodeItem env it s))"
proof (induction env it s rule: resolveEpisodeItem.induct)
  case (1 env it s)
  note eq = resolveEpisodeItem.simps [of env it s]
  note safe = 1(2)
  show ?case
  proof (cases "episode s = None \<or> rollback s \<noteq> None \<or> cancelled s")
    case True
    then have "resolveEpisodeItem env it s = s" using eq by (auto split: option.splits)
    then show ?thesis using safe evolves_refl by simp
  next
    case False
    then obtain ep where ep: "episode s = Some ep" by auto
    let ?usable = "br_Success it \<and> br_Hash it \<noteq> [] \<and> br_ParentHash it \<noteq> []"
    consider (confirm) "?usable \<and> br_ParentHash it = lastParkedHash ep"
      | (rewalk) "?usable \<and> br_ParentHash it \<noteq> lastParkedHash ep" | (gap) "\<not> ?usable" by blast
    then show ?thesis
    proof cases
      case confirm
      then have run: "resolveEpisodeItem env it s = finalizeEpisode (opener env) env (Some it) s"
        using eq False ep by (elim conjE) simp
      have "draining env cs s" using safe ep by (simp add: draining_def safe_def mode_inv_def)
      from finalize_ok [OF opener_ok this] show ?thesis unfolding run by blast
    next
      case rewalk
      let ?u = "if fatalErr (reanchorEpisode ep it s) \<noteq> None then runCancel (reanchorEpisode ep it s) else reanchorEpisode ep it s"
      have run: "resolveEpisodeItem env it s = ?u"
        using eq False ep rewalk by (simp add: Let_def)
      have "safe env cs ?u" "evolves s ?u" "callbacks ?u = callbacks s"
        using reanchor_ok [OF safe ep, of it] by blast+
      then show ?thesis unfolding run using evolves_callbacks_inv by blast
    next
      case gap
      obtain t r where rf: "refillEpisodeGap env ep it s = (t, r)" by fastforce
      note R = refill_ok [OF safe ep rf]
      have gap': "\<not> (?usable \<and> br_ParentHash it = lastParkedHash ep)" using gap by blast
      show ?thesis
      proof (cases r)
        case None
        then have "resolveEpisodeItem env it s = t" using eq False ep gap rf by auto
        then show ?thesis using R(1,2) evolves_callbacks_inv [OF R(2,3)] by simp
      next
        case (Some fresh)
        then have run: "resolveEpisodeItem env it s = resolveEpisodeItem env fresh t" using eq False ep gap rf by auto
        have g: "\<not> (rollback s \<noteq> None \<or> cancelled s)" using False by blast
        have "safe env cs (resolveEpisodeItem env fresh t) \<and> evolves t (resolveEpisodeItem env fresh t)
            \<and> (callbacks_inv t \<longrightarrow> callbacks_inv (resolveEpisodeItem env fresh t))"
          by (rule 1(1) [OF ep g _ gap rf [symmetric] Some R(1)]) (use gap' in blast)
        then show ?thesis unfolding run using evolves_trans [OF R(2)] evolves_callbacks_inv [OF R(2,3)] by blast
      qed
    qed
  qed
qed

end
