(* ===== verification/Collector_Inv.thy ===== *)
theory Collector_Inv
  imports Collector_Steps
begin

text \<open>
  The invariant of a run and its preservation by every step: the pool and mode invariants, where each
  dispatched height is on the fetch side, and the hash chain of the checked items.
\<close>

section \<open>The fetch side and the check\<close>

definition inFetch :: "proc \<Rightarrow> height list" where
  "inFetch s = workQ s @ fetching s @ map br_Num (resultQ s)"

definition window :: "proc \<Rightarrow> int" where
  "window s = dispatchedUpTo s + 1 - nextToCommit s"

text \<open>A dispatched height that was not popped yet is in the fetch pipeline or waits in \<open>pending\<close>, and
  the window of such heights is bounded.\<close>

definition fetch_inv :: "nat \<Rightarrow> proc \<Rightarrow> bool" where
  "fetch_inv workers s \<longleftrightarrow> distinct (inFetch s)
   \<and> (\<forall>h \<in> set (inFetch s). nextToCommit s \<le> h \<and> h \<le> dispatchedUpTo s \<and> pending s h = None)
   \<and> (\<forall>h r. pending s h = Some r \<longrightarrow> br_Num r = h \<and> result_ok r \<and> nextToCommit s \<le> h \<and> h \<le> dispatchedUpTo s)
   \<and> (\<forall>r \<in> set (resultQ s). result_ok r)
   \<and> 0 \<le> window s \<and> window s \<le> int (workers * DefaultWorkersAhead)
   \<and> runStartBlock s \<le> nextToCommit s"

definition lossless :: "proc \<Rightarrow> bool" where
  "lossless s \<longleftrightarrow> cancelled s
     \<or> (\<forall>h. nextToCommit s \<le> h \<and> h \<le> dispatchedUpTo s \<longrightarrow> h \<in> set (inFetch s) \<or> pending s h \<noteq> None)"

text \<open>The collector does not wait on an item it could pop unless another event is due.\<close>

definition awake :: "nat \<Rightarrow> proc \<Rightarrow> bool" where
  "awake workers s \<longleftrightarrow> cancelled s \<or> \<not> atSelect s \<or> holdingDispatch s \<noteq> None \<or> pending s (nextToCommit s) = None
     \<or> inFetch s \<noteq> [] \<or> window s < int (workers * DefaultWorkersAhead)"

definition linked :: "hash \<Rightarrow> BlockResult \<Rightarrow> bool" where
  "linked h r \<longleftrightarrow> h = [] \<or> br_ParentHash r = [] \<or> br_ParentHash r = h"

definition last_hash :: "proc \<Rightarrow> hash" where
  "last_hash s = (if nextToCommit s = runStartBlock s then seedHash s
     else case checked s (nextToCommit s - 1) of Some a \<Rightarrow> br_Hash a | None \<Rightarrow> [])"

definition check_inv :: "proc \<Rightarrow> bool" where
  "check_inv s \<longleftrightarrow> (\<forall>h a. checked s h = Some a \<longrightarrow> br_Num a = h \<and> runStartBlock s \<le> h \<and> h < nextToCommit s \<and> br_Success a)
   \<and> (\<forall>h a b. checked s h = Some a \<and> checked s (h + 1) = Some b \<longrightarrow> linked (br_Hash a) b)
   \<and> (\<forall>a. checked s (runStartBlock s) = Some a \<longrightarrow> linked (seedHash s) a)
   \<and> (leaving s \<or> lastCheckedNum s = nextToCommit s - 1 \<and> lastCheckedHash s = last_hash s)"

definition run_inv :: "nat \<Rightarrow> proc \<Rightarrow> bool" where
  "run_inv workers s \<longleftrightarrow> pool_inv [] s \<and> mode_inv s \<and> callbacks_inv s \<and> fetch_inv workers s \<and> lossless s
     \<and> awake workers s \<and> check_inv s"

lemma frameD:
  assumes "frame t = frame s"
  shows "pending t = pending s" "nextToCommit t = nextToCommit s" "runStartBlock t = runStartBlock s"
    "seedHash t = seedHash s" "lastCheckedNum t = lastCheckedNum s" "lastCheckedHash t = lastCheckedHash s"
    "dispatchedUpTo t = dispatchedUpTo s" "atSelect t = atSelect s" "workQ t = workQ s" "fetching t = fetching s"
    "resultQ t = resultQ s" "storeClosed t = storeClosed s" "checked t = checked s" "inFetch t = inFetch s"
    "window t = window s" "last_hash t = last_hash s" "configuredStart t = configuredStart s"
  using assms by (simp_all add: frame_def inFetch_def window_def last_hash_def)

lemma fetch_inv_frame:
  assumes "frame t = frame s" and "fetch_inv workers s"
  shows "fetch_inv workers t"
  using assms(2) unfolding fetch_inv_def frameD [OF assms(1)] .

lemma lossless_frame:
  assumes "frame t = frame s" and "cancelled s \<Longrightarrow> cancelled t" and "lossless s"
  shows "lossless t"
  using assms(2,3) unfolding lossless_def frameD [OF assms(1)] by blast

lemma check_inv_frame:
  assumes "frame t = frame s" and "leaving s \<Longrightarrow> leaving t" and "check_inv s"
  shows "check_inv t"
  using assms(2,3) unfolding check_inv_def frameD [OF assms(1)] by blast

lemma env_ok_pool_env:
  assumes "env_ok env s"
  shows "pool_env env s"
proof -
  have m: "mset (map item (arrivals env)) = mset (running s @ storeQ s)" using assms by (simp add: env_ok_def)
  have "item c \<in> set (running s @ storeQ s)" if "c \<in> set (arrivals env)" for c
    using mset_eq_setD [OF m] that by (metis image_eqI set_map)
  then have "outstanding env s = arrivals env" by (auto simp: outstanding_def filter_id_conv)
  then show ?thesis using m by (simp add: pool_env_def)
qed

section \<open>Popping the next height\<close>

text \<open>Popping extends the range of popped heights by one: the new height is registered (\<open>xs\<close>), a hole
  (\<open>ys\<close>) or dropped by a run that is leaving.\<close>

lemma pool_inv_next:
  assumes inv: "pool_inv cs s" and nxt: "nextToCommit t = nextToCommit s + 1"
    and eq: "reorderCompletions t = reorderCompletions s" "applyCursor t = applyCursor s"
    and pool: "mset (in_pool cs t) = mset (xs @ in_pool cs s)" "length (registered t) = length xs + length (registered s)"
      "inFlight t = inFlight s + int (length xs)"
    and holes: "applyHoles t = ys @ applyHoles s"
    and new: "distinct (map br_Num xs @ ys)" "set (map br_Num xs @ ys) \<subseteq> {nextToCommit s}"
    and ck: "\<And>h. h < nextToCommit s \<Longrightarrow> checked t h = checked s h"
      "\<And>it. it \<in> set xs \<Longrightarrow> checked t (nextToCommit s) = Some it"
    and acc: "leaving t \<or> nextToCommit s \<in> set (map br_Num xs @ ys) \<and> \<not> leaving s"
  shows "pool_inv cs t"
proof -
  let ?n = "nextToCommit s"
  have m: "mset (owned cs t) = mset (map br_Num xs @ owned cs s)"
    unfolding owned_def mset_append mset_map pool(1) eq by simp
  have own: "set (owned cs t) = br_Num ` set xs \<union> set (owned cs s)" using mset_eq_setD [OF m] by simp
  have ip: "set (in_pool cs t) = set xs \<union> set (in_pool cs s)" using mset_eq_setD [OF pool(1)] by simp
  have rng: "set (owned cs s) \<union> set (applyHoles s) \<subseteq> {applyCursor s ..< ?n}" by (rule pool_invD(3) [OF inv])
  have fresh: "?n \<notin> set (owned cs s)" "?n \<notin> set (applyHoles s)" using rng by auto
  have x: "br_Num ` set xs \<subseteq> {?n}" "set ys \<subseteq> {?n}" "distinct (map br_Num xs)" "br_Num ` set xs \<inter> set ys = {}"
    using new by auto
  have d: "distinct (owned cs t)"
    using mset_eq_imp_distinct_iff [OF m] x(1,3) fresh(1) pool_invD(2) [OF inv] by auto
  have le: "applyCursor s \<le> ?n" by (rule pool_invD(9) [OF inv])
  have r: "set (owned cs t) \<union> set (applyHoles t) \<subseteq> {applyCursor t ..< nextToCommit t}"
    using rng x(1,2) le unfolding own holes nxt eq by auto
  have disj: "set (owned cs t) \<inter> set (applyHoles t) = {}"
    using x fresh pool_invD(4) [OF inv] unfolding own holes by auto
  have lt: "h < ?n" if "h \<in> set (owned cs s)" for h using rng that by auto
  have c1: "\<forall>it \<in> set (in_pool cs t). checked t (br_Num it) = Some it"
  proof
    fix it
    assume "it \<in> set (in_pool cs t)"
    then consider "it \<in> set xs" | "it \<in> set (in_pool cs s)" using ip by blast
    then show "checked t (br_Num it) = Some it"
    proof cases
      case 1
      then have "br_Num it = ?n" using x(1) by auto
      then show ?thesis using ck(2) [OF 1] by simp
    next
      case 2
      then have "br_Num it < ?n" by (intro lt) (simp add: owned_def)
      then show ?thesis using ck(1) pool_invD(5) [OF inv] 2 by simp
    qed
  qed
  have c2: "\<forall>p \<in> set (reorderCompletions t). num (snd p) = fst p \<and> checked t (fst p) = Some (item (snd p))"
  proof
    fix p
    assume p: "p \<in> set (reorderCompletions t)"
    then have "fst p < ?n" by (intro lt) (simp add: owned_def eq)
    then show "num (snd p) = fst p \<and> checked t (fst p) = Some (item (snd p))"
      using ck(1) pool_invD(6) [OF inv] p by (simp add: eq)
  qed
  have hole: "reorderCompletions t = []" if "applyCursor t \<in> set (applyHoles t)"
  proof (cases "applyCursor s \<in> set (applyHoles s)")
    case True
    then show ?thesis using pool_invD(8) [OF inv] eq by simp
  next
    case False
    then have "applyCursor s = ?n" using that x(2) unfolding eq holes by auto
    then have "set (owned cs s) = {}" using rng by auto
    then show ?thesis by (simp add: owned_def eq)
  qed
  have "accounted cs t"
  proof (cases "leaving t")
    case True
    then show ?thesis by (auto simp: accounted_def leaving_def)
  next
    case False
    then have "?n \<in> set (map br_Num xs @ ys)" "\<not> leaving s" using acc by blast+
    then have "{applyCursor s ..< ?n} \<subseteq> set (owned cs s) \<union> set (applyHoles s)"
      using pool_invD(10) [OF inv] by (auto simp: accounted_def leaving_def)
    moreover have "{applyCursor s ..< ?n + 1} \<subseteq> insert ?n {applyCursor s ..< ?n}" by auto
    ultimately have "{applyCursor t ..< nextToCommit t} \<subseteq> set (owned cs t) \<union> set (applyHoles t)"
      using \<open>?n \<in> set (map br_Num xs @ ys)\<close> unfolding own holes nxt eq by auto
    then show ?thesis by (simp add: accounted_def)
  qed
  moreover have "inFlight t = int (length (registered t))" using pool pool_invD(1) [OF inv] by simp
  moreover have "applyCursor t \<notin> fst ` set (reorderCompletions t)" using pool_invD(7) [OF inv] eq by simp
  moreover have "applyCursor t \<le> nextToCommit t" using le nxt eq by simp
  ultimately show ?thesis unfolding pool_inv_def using d r disj c1 c2 hole by blast
qed

definition popped :: "proc \<Rightarrow> proc" where
  "popped s = s\<lparr>pending := (pending s)(nextToCommit s := None), nextToCommit := nextToCommit s + 1\<rparr>"

lemma fetch_inv_pop:
  assumes inv: "fetch_inv workers s" and p: "pending s (nextToCommit s) = Some r"
    and t: "pending t = (pending s)(nextToCommit s := None)" "nextToCommit t = nextToCommit s + 1"
      "dispatchedUpTo t = dispatchedUpTo s" "runStartBlock t = runStartBlock s" "resultQ t = resultQ s" "inFetch t = inFetch s"
  shows "fetch_inv workers t" and "window t < int (workers * DefaultWorkersAhead)"
    and "br_Num r = nextToCommit s" and "result_ok r"
proof -
  have n: "nextToCommit s \<le> dispatchedUpTo s" and "br_Num r = nextToCommit s" and "result_ok r"
    using inv p unfolding fetch_inv_def by blast+
  then show "br_Num r = nextToCommit s" "result_ok r" by blast+
  have w: "window t = window s - 1" by (simp add: window_def t)
  have ws: "window s \<le> int (workers * DefaultWorkersAhead)" using inv unfolding fetch_inv_def by blast
  then show "window t < int (workers * DefaultWorkersAhead)" using w by simp
  have "0 \<le> window t" using n by (simp add: window_def t)
  moreover have "\<forall>h \<in> set (inFetch t). nextToCommit t \<le> h \<and> h \<le> dispatchedUpTo t \<and> pending t h = None"
  proof
    fix h
    assume "h \<in> set (inFetch t)"
    then have h: "nextToCommit s \<le> h \<and> h \<le> dispatchedUpTo s \<and> pending s h = None"
      using inv unfolding fetch_inv_def t by blast
    then have "h \<noteq> nextToCommit s" using p by auto
    then show "nextToCommit t \<le> h \<and> h \<le> dispatchedUpTo t \<and> pending t h = None" using h by (simp add: t)
  qed
  moreover have "\<forall>h r. pending t h = Some r \<longrightarrow> br_Num r = h \<and> result_ok r \<and> nextToCommit t \<le> h \<and> h \<le> dispatchedUpTo t"
  proof (intro allI impI)
    fix h r'
    assume a: "pending t h = Some r'"
    then have h: "h \<noteq> nextToCommit s" "pending s h = Some r'" by (auto simp: t split: if_splits)
    then have "br_Num r' = h \<and> result_ok r' \<and> nextToCommit s \<le> h \<and> h \<le> dispatchedUpTo s"
      using inv unfolding fetch_inv_def by blast
    then show "br_Num r' = h \<and> result_ok r' \<and> nextToCommit t \<le> h \<and> h \<le> dispatchedUpTo t" using h(1) by (simp add: t)
  qed
  moreover have "distinct (inFetch t)" "\<forall>r \<in> set (resultQ t). result_ok r" "runStartBlock t \<le> nextToCommit t"
    using inv unfolding fetch_inv_def t by auto
  ultimately show "fetch_inv workers t" using ws w unfolding fetch_inv_def by (intro conjI) simp_all
qed

lemma lossless_pop:
  assumes "lossless s" and "pending t = (pending s)(nextToCommit s := None)" and "nextToCommit t = nextToCommit s + 1"
    and "dispatchedUpTo t = dispatchedUpTo s" and "inFetch t = inFetch s" and "cancelled s \<Longrightarrow> cancelled t"
  shows "lossless t"
proof (cases "cancelled s")
  case False
  have "h \<in> set (inFetch t) \<or> pending t h \<noteq> None" if "nextToCommit t \<le> h \<and> h \<le> dispatchedUpTo t" for h
  proof -
    have "h \<in> set (inFetch s) \<or> pending s h \<noteq> None"
      using assms(1) False that unfolding lossless_def assms(3,4) by auto
    then show ?thesis using that by (simp add: assms(2-5))
  qed
  then show ?thesis by (simp add: lossless_def)
qed (use assms(6) in \<open>simp add: lossless_def\<close>)

lemma callbacks_inv_next:
  assumes "callbacks_inv s" and "applyCursor s \<le> nextToCommit s" and "callbacks t = callbacks s"
    and "applyCursor t = applyCursor s" and "\<And>h. h < nextToCommit s \<Longrightarrow> checked t h = checked s h"
  shows "callbacks_inv t"
  using assms unfolding callbacks_inv_def by auto

section \<open>One turn of the collector\<close>

text \<open>What no step undoes: the start and seed of the run, the callbacks fired, a decision once taken, a
  cancellation; and a step that does not send hands nothing to the pool.\<close>

definition moves :: "proc \<Rightarrow> proc \<Rightarrow> bool" where
  "moves s t \<longleftrightarrow> runStartBlock t = runStartBlock s \<and> seedHash t = seedHash s \<and> configuredStart t = configuredStart s
     \<and> commits s t \<and> (rollback s \<noteq> None \<longrightarrow> rollback t = rollback s) \<and> (fatalErr s \<noteq> None \<longrightarrow> fatalErr t \<noteq> None)
     \<and> (cancelled s \<longrightarrow> cancelled t) \<and> set (storeQ t) \<subseteq> set (storeQ s)"

lemma moves_refl: "moves s s"
  by (simp add: moves_def commits_same)

lemma moves_trans:
  assumes "moves s t" and "moves t u"
  shows "moves s u"
proof -
  have st: "stopped s \<Longrightarrow> stopped t" using assms(1) by (auto simp: moves_def stopped_def)
  have "commits s t" "commits t u" using assms by (simp_all add: moves_def)
  then have "commits s u" by (rule commits_trans [OF _ _ st])
  then show ?thesis
    using assms unfolding moves_def by (elim conjE) (intro conjI; (simp | blast))
qed

lemma evolves_moves:
  assumes "evolves s t"
  shows "moves s t"
proof -
  have f: "frame t = frame s" and k: "pool_kept s t" using assms by (simp_all add: evolves_def)
  have "storeQ t = storeQ s \<or> storeQ t = []" using k by (auto simp: pool_kept_def queues_def registered_def)
  then have "set (storeQ t) \<subseteq> set (storeQ s)" by auto
  then show ?thesis using assms frameD(3,4,17) [OF f] by (simp add: evolves_def moves_def)
qed


definition core_inv :: "nat \<Rightarrow> proc \<Rightarrow> bool" where
  "core_inv workers s \<longleftrightarrow> pool_inv [] s \<and> mode_inv s \<and> callbacks_inv s \<and> fetch_inv workers s \<and> lossless s \<and> check_inv s"

lemma run_inv_core: "run_inv workers s \<longleftrightarrow> core_inv workers s \<and> awake workers s"
  by (auto simp: run_inv_def core_inv_def)

lemma core_evolves:
  assumes "core_inv workers s" and "safe env [] t" and "evolves s t" and "callbacks_inv t"
  shows "core_inv workers t"
proof -
  have fr: "frame t = frame s" and c: "cancelled s \<Longrightarrow> cancelled t" and l: "leaving s \<Longrightarrow> leaving t"
    using assms(3) unfolding evolves_def by blast+
  show ?thesis
    using assms fetch_inv_frame [OF fr] lossless_frame [OF fr c] check_inv_frame [OF fr l]
    unfolding core_inv_def safe_def by blast
qed

text \<open>The item popped by a leaving run is dropped.\<close>

lemma popped_fields [simp]:
  "pending (popped s) = (pending s)(nextToCommit s := None)" "nextToCommit (popped s) = nextToCommit s + 1"
  "dispatchedUpTo (popped s) = dispatchedUpTo s" "runStartBlock (popped s) = runStartBlock s" "seedHash (popped s) = seedHash s"
  "resultQ (popped s) = resultQ s" "inFetch (popped s) = inFetch s" "cancelled (popped s) = cancelled s"
  "episode (popped s) = episode s" "rollback (popped s) = rollback s" "fatalErr (popped s) = fatalErr s"
  "holdingDispatch (popped s) = holdingDispatch s" "storeQ (popped s) = storeQ s" "running (popped s) = running s"
  "completionQ (popped s) = completionQ s" "inFlight (popped s) = inFlight s" "applyCursor (popped s) = applyCursor s"
  "applyHoles (popped s) = applyHoles s" "reorderCompletions (popped s) = reorderCompletions s"
  "checked (popped s) = checked s" "callbacks (popped s) = callbacks s" "storeClosed (popped s) = storeClosed s"
  "lastCheckedNum (popped s) = lastCheckedNum s" "lastCheckedHash (popped s) = lastCheckedHash s"
  "leaving (popped s) = leaving s" "registered (popped s) = registered s" "in_pool cs (popped s) = in_pool cs s"
  "panicked (popped s) = panicked s" "pool_env env (popped s) = pool_env env s"
  "configuredStart (popped s) = configuredStart s" "episodeRollbacks (popped s) = episodeRollbacks s" "heightRollbacks (popped s) = heightRollbacks s"
  "workQ (popped s) = workQ s" "fetching (popped s) = fetching s" "atSelect (popped s) = atSelect s"
  by (simp_all add: popped_def inFetch_def leaving_def registered_def held_def in_pool_def pool_env_def outstanding_def)

lemma check_inv_leave:
  assumes "check_inv s" and "leaving t" and "checked t = checked s" and "runStartBlock t = runStartBlock s"
    and "seedHash t = seedHash s" and "nextToCommit t = nextToCommit s + 1"
  shows "check_inv t"
proof -
  have "\<forall>h a. checked s h = Some a \<longrightarrow> br_Num a = h \<and> runStartBlock s \<le> h \<and> h < nextToCommit s + 1 \<and> br_Success a"
    using assms(1) unfolding check_inv_def by (meson less_add_one less_trans)
  then show ?thesis using assms(1,2) unfolding check_inv_def assms(3-6) by blast
qed

lemma core_leave:
  assumes inv: "core_inv workers s" and p: "pending s (nextToCommit s) = Some r" and l: "leaving t"
    and t: "pending t = (pending s)(nextToCommit s := None)" "nextToCommit t = nextToCommit s + 1"
      "dispatchedUpTo t = dispatchedUpTo s" "runStartBlock t = runStartBlock s" "resultQ t = resultQ s" "inFetch t = inFetch s"
      "reorderCompletions t = reorderCompletions s" "applyCursor t = applyCursor s" "in_pool [] t = in_pool [] s"
      "registered t = registered s" "inFlight t = inFlight s" "applyHoles t = applyHoles s" "checked t = checked s"
      "callbacks t = callbacks s" "seedHash t = seedHash s" "cancelled s \<Longrightarrow> cancelled t"
    and m: "mode_inv t"
  shows "core_inv workers t" and "window t < int (workers * DefaultWorkersAhead)"
proof -
  have I: "pool_inv [] s" "callbacks_inv s" "fetch_inv workers s" "lossless s" "check_inv s"
    using inv by (simp_all add: core_inv_def)
  note F = fetch_inv_pop [OF I(3) p t(1-6)]
  show "window t < int (workers * DefaultWorkersAhead)" by (rule F(2))
  have "pool_inv [] t"
    by (rule pool_inv_next [OF I(1), where xs = "[]" and ys = "[]"]) (simp_all add: t l)
  moreover have "callbacks_inv t"
    by (rule callbacks_inv_next [OF I(2) pool_invD(9) [OF I(1)]]) (simp_all add: t)
  moreover have "lossless t" by (rule lossless_pop [OF I(4) t(1,2,3,6)]) (rule t(16))
  moreover have "check_inv t" by (rule check_inv_leave [OF I(5) l t(13,4,15,2)])
  ultimately show "core_inv workers t" using m F(1) by (simp add: core_inv_def)
qed

definition hole_at :: "BlockResult \<Rightarrow> proc \<Rightarrow> proc" where
  "hole_at r s = (popped s)\<lparr>lastCheckedNum := br_Num r, lastCheckedHash := [], applyHoles := br_Num r # applyHoles s\<rparr>"

definition dispatched :: "bool \<Rightarrow> BlockResult \<Rightarrow> proc \<Rightarrow> proc" where
  "dispatched b r s = (popped s)\<lparr>cancelled := b, lastCheckedNum := br_Num r, lastCheckedHash := br_Hash r,
     checked := (checked s)(br_Num r \<mapsto> r), inFlight := inFlight s + 1, holdingDispatch := Some r\<rparr>"

lemma check_inv_fresh: "check_inv s \<Longrightarrow> nextToCommit s \<le> h \<Longrightarrow> checked s h = None"
  unfolding check_inv_def by (metis not_Some_eq not_less)

lemma core_hole:
  assumes inv: "core_inv workers s" and p: "pending s (nextToCommit s) = Some r" and nl: "\<not> leaving s"
  shows "core_inv workers (hole_at r s)" and "window (hole_at r s) < int (workers * DefaultWorkersAhead)"
proof -
  let ?t = "hole_at r s"
  have I: "pool_inv [] s" "mode_inv s" "callbacks_inv s" "fetch_inv workers s" "lossless s" "check_inv s"
    using inv by (simp_all add: core_inv_def)
  have run: "runStartBlock s \<le> nextToCommit s" using I(4) by (simp add: fetch_inv_def)
  have fi: "inFetch ?t = inFetch s" by (simp add: hole_at_def inFetch_def)
  have le: "leaving ?t = leaving s" by (simp add: hole_at_def leaving_def)
  note F = fetch_inv_pop [OF I(4) p, of ?t]
  have n: "br_Num r = nextToCommit s" by (rule F(3)) (simp_all add: hole_at_def fi [unfolded hole_at_def])
  show "window ?t < int (workers * DefaultWorkersAhead)"
    by (rule F(2)) (simp_all add: hole_at_def fi [unfolded hole_at_def])
  have "fetch_inv workers ?t" by (rule F(1)) (simp_all add: hole_at_def fi [unfolded hole_at_def])
  moreover have "pool_inv [] ?t"
    by (rule pool_inv_next [OF I(1), where xs = "[]" and ys = "[nextToCommit s]"])
      (use nl in \<open>simp_all add: hole_at_def n registered_def held_def in_pool_def\<close>)
  moreover have "mode_inv ?t" using I(2) by (simp add: hole_at_def mode_inv_def stopped_def)
  moreover have "callbacks_inv ?t"
    by (rule callbacks_inv_next [OF I(3) pool_invD(9) [OF I(1)]]) (simp_all add: hole_at_def)
  moreover have "lossless ?t" by (rule lossless_pop [OF I(5)]) (simp_all add: hole_at_def fi [unfolded hole_at_def])
  moreover have "check_inv ?t"
  proof -
    have "last_hash ?t = []" using run check_inv_fresh [OF I(6)] by (simp add: last_hash_def hole_at_def)
    moreover have "\<forall>h a. checked s h = Some a \<longrightarrow> br_Num a = h \<and> runStartBlock s \<le> h \<and> h < nextToCommit s + 1 \<and> br_Success a"
      using I(6) unfolding check_inv_def by (meson less_add_one less_trans)
    ultimately show ?thesis
      using I(6) unfolding check_inv_def le by (simp add: hole_at_def n)
  qed
  ultimately show "core_inv workers ?t" by (simp add: core_inv_def)
qed

lemma continuity_linked:
  assumes "continuitySignal start seed lastNum lastHash r = None"
  shows "br_Num r = start \<Longrightarrow> linked seed r" and "lastNum = br_Num r - 1 \<Longrightarrow> linked lastHash r"
  using assms unfolding continuitySignal_def linked_def Let_def by (auto split: if_splits)

lemma core_dispatch:
  assumes inv: "core_inv workers s" and p: "pending s (nextToCommit s) = Some r" and nl: "\<not> leaving s" "\<not> stopped s"
    and h: "holdingDispatch s = None" and ok: "br_Success r"
    and cont: "continuitySignal (runStartBlock s) (seedHash s) (lastCheckedNum s) (lastCheckedHash s) r = None"
  shows "core_inv workers (dispatched b r s)" and "window (dispatched b r s) < int (workers * DefaultWorkersAhead)"
proof -
  let ?t = "dispatched b r s"
  have I: "pool_inv [] s" "mode_inv s" "callbacks_inv s" "fetch_inv workers s" "lossless s" "check_inv s"
    using inv by (simp_all add: core_inv_def)
  have nc: "\<not> cancelled s" "episode s = None" using nl by (simp_all add: leaving_def)
  have run: "runStartBlock s \<le> nextToCommit s" using I(4) by (simp add: fetch_inv_def)
  have fi: "inFetch ?t = inFetch s" by (simp add: dispatched_def inFetch_def)
  note F = fetch_inv_pop [OF I(4) p, of ?t]
  have n: "br_Num r = nextToCommit s" by (rule F(3)) (simp_all add: dispatched_def fi [unfolded dispatched_def])
  show "window ?t < int (workers * DefaultWorkersAhead)"
    by (rule F(2)) (simp_all add: dispatched_def fi [unfolded dispatched_def])
  have "fetch_inv workers ?t" by (rule F(1)) (simp_all add: dispatched_def fi [unfolded dispatched_def])
  moreover have "pool_inv [] ?t"
    by (rule pool_inv_next [OF I(1), where xs = "[r]" and ys = "[]"])
      (use nl h in \<open>simp_all add: dispatched_def n registered_def held_def in_pool_def\<close>)
  moreover have "mode_inv ?t" using I(2) nl nc by (simp add: dispatched_def mode_inv_def stopped_def)
  moreover have "callbacks_inv ?t"
    by (rule callbacks_inv_next [OF I(3) pool_invD(9) [OF I(1)]]) (simp_all add: dispatched_def n)
  moreover have "lossless ?t"
    by (rule lossless_pop [OF I(5)]) (use nc in \<open>simp_all add: dispatched_def fi [unfolded dispatched_def]\<close>)
  moreover have "check_inv ?t"
  proof -
    have last: "lastCheckedNum s = nextToCommit s - 1" "lastCheckedHash s = last_hash s"
      using I(6) nl by (simp_all add: check_inv_def)
    note link = continuity_linked [OF cont]
    have old: "br_Num a = h \<and> runStartBlock s \<le> h \<and> h < nextToCommit s \<and> br_Success a" if "checked s h = Some a" for h a
      using I(6) that unfolding check_inv_def by blast
    have A: "br_Num a = h \<and> runStartBlock s \<le> h \<and> h < nextToCommit s + 1 \<and> br_Success a"
      if "((checked s)(nextToCommit s \<mapsto> r)) h = Some a" for h a
      using that old [of h a] n ok run by (cases "h = nextToCommit s") auto
    have B: "linked (br_Hash a) b'"
      if "((checked s)(nextToCommit s \<mapsto> r)) h = Some a" "((checked s)(nextToCommit s \<mapsto> r)) (h + 1) = Some b'" for h a b'
    proof (cases "h + 1 = nextToCommit s")
      case True
      then have "checked s h = Some a" "b' = r" "h = nextToCommit s - 1" using that by auto
      moreover from this have "nextToCommit s \<noteq> runStartBlock s" using old [of h a] by simp
      ultimately have "last_hash s = br_Hash a" by (simp add: last_hash_def)
      then show ?thesis using link(2) last n \<open>b' = r\<close> by simp
    next
      case False
      have "h \<noteq> nextToCommit s" using that(2) check_inv_fresh [OF I(6), of "nextToCommit s + 1"] by auto
      then show ?thesis using that False I(6) unfolding check_inv_def by auto
    qed
    have C: "linked (seedHash s) a" if "((checked s)(nextToCommit s \<mapsto> r)) (runStartBlock s) = Some a" for a
      using that link(1) n I(6) unfolding check_inv_def by (cases "runStartBlock s = nextToCommit s") auto
    have L: "last_hash ?t = br_Hash r" using run n by (simp add: last_hash_def dispatched_def)
    have f: "checked ?t = (checked s)(nextToCommit s \<mapsto> r)" "runStartBlock ?t = runStartBlock s"
      "seedHash ?t = seedHash s" "nextToCommit ?t = nextToCommit s + 1" "lastCheckedNum ?t = nextToCommit s + 1 - 1"
      "lastCheckedHash ?t = br_Hash r"
      by (simp_all add: dispatched_def n)
    let ?c = "(checked s)(nextToCommit s \<mapsto> r)"
    have "\<forall>h a. ?c h = Some a \<longrightarrow> br_Num a = h \<and> runStartBlock s \<le> h \<and> h < nextToCommit s + 1 \<and> br_Success a"
      "\<forall>h a b. ?c h = Some a \<and> ?c (h + 1) = Some b \<longrightarrow> linked (br_Hash a) b"
      "\<forall>a. ?c (runStartBlock s) = Some a \<longrightarrow> linked (seedHash s) a"
      using A B C by blast+
    then show ?thesis unfolding check_inv_def f L by (simp only: simp_thms)
  qed
  ultimately show "core_inv workers ?t" by (simp add: core_inv_def)
qed

lemma gap_forms:
  "\<exists>b. fst (poppedGapSignal env r s) = s\<lparr>cancelled := cancelled s \<or> b\<rparr>
    \<and> (snd (poppedGapSignal env r s) = None \<or> fst (poppedGapSignal env r s) = s)"
proof -
  let ?g = "poppedGapSignal env r s"
  have "fst ?g = s \<or> fst ?g = s\<lparr>cancelled := True\<rparr> \<and> snd ?g = None"
    by (simp add: poppedGapSignal_def split: option.split sum.split)
  then show ?thesis
  proof (elim disjE conjE)
    assume "fst ?g = s"
    then show ?thesis by (intro exI [of _ False]) simp
  next
    assume "fst ?g = s\<lparr>cancelled := True\<rparr>" "snd ?g = None"
    then show ?thesis by (intro exI [of _ True]) simp
  qed
qed

lemma check_forms:
  fixes env r s
  defines "t \<equiv> fst (checkedForDispatch env r (popped s))" and "d \<equiv> snd (checkedForDispatch env r (popped s))"
  shows "(t = hole_at r s \<and> d = None) \<or> (\<exists>sig. t = startReorgEpisode sig r (popped s) \<and> d = None)
    \<or> (d = Some r \<and> br_Success r
       \<and> continuitySignal (runStartBlock s) (seedHash s) (lastCheckedNum s) (lastCheckedHash s) r = None
       \<and> (\<exists>b. t\<lparr>inFlight := inFlight t + 1, holdingDispatch := Some r\<rparr> = dispatched (cancelled s \<or> b) r s))"
proof (cases "br_Success r")
  case False
  then show ?thesis by (simp add: t_def d_def checkedForDispatch_def hole_at_def)
next
  case ok: True
  show ?thesis
  proof (cases "pendingContinuitySignal r (popped s)")
    case (Some sig)
    then have "t = startReorgEpisode sig r (popped s)" "d = None"
      using ok by (simp_all add: t_def d_def checkedForDispatch_def)
    then show ?thesis by blast
  next
    case None
    then have cont: "continuitySignal (runStartBlock s) (seedHash s) (lastCheckedNum s) (lastCheckedHash s) r = None"
      by (simp add: pendingContinuitySignal_def)
    obtain u sg where g: "poppedGapSignal env r (popped s) = (u, sg)" by fastforce
    obtain b where b: "u = (popped s)\<lparr>cancelled := cancelled s \<or> b\<rparr>" "sg = None \<or> u = popped s"
      using gap_forms [of env r "popped s"] g by auto
    show ?thesis
    proof (cases sg)
      case (Some sig)
      then have "t = startReorgEpisode sig r (popped s)" "d = None"
        using ok None g b(2) by (simp_all add: t_def d_def checkedForDispatch_def)
      then show ?thesis by blast
    next
      case none: None
      have "d = Some r" using ok None g none by (simp add: d_def checkedForDispatch_def)
      moreover have "t\<lparr>inFlight := inFlight t + 1, holdingDispatch := Some r\<rparr> = dispatched (cancelled s \<or> b) r s"
        using ok None g none b(1) by (simp add: t_def checkedForDispatch_def dispatched_def)
      ultimately show ?thesis using ok cont by blast
    qed
  qed
qed

lemma pop_check_core:
  assumes inv: "core_inv workers s" and env: "env_ok env s"
  defines "t \<equiv> pop_and_check env s"
  shows "(core_inv workers t \<and> moves s t) \<and> (t = s \<and> (holdingDispatch s \<noteq> None \<or> pending s (nextToCommit s) = None)
    \<or> window t < int (workers * DefaultWorkersAhead))"
proof (cases "holdingDispatch s \<noteq> None \<or> pending s (nextToCommit s) = None")
  case True
  then have "t = s" by (auto simp: t_def pop_and_check_def popPending_def)
  then show ?thesis using inv True moves_refl by blast
next
  case False
  then obtain r where h: "holdingDispatch s = None" and p: "pending s (nextToCommit s) = Some r" by auto
  have m: "mode_inv s" using inv by (simp add: core_inv_def)
  have leave: "core_inv workers (popped s)" "window (popped s) < int (workers * DefaultWorkersAhead)" if "leaving s"
    using core_leave [OF inv p, of "popped s"] that m by (simp_all add: mode_inv_def stopped_def)
  have mv: "moves s (popped s)" by (simp add: moves_def commits_def counters_def)
  show ?thesis
  proof (cases "rollback s \<noteq> None \<or> cancelled s")
    case True
    then have "leaving s" using m by (auto simp: leaving_def mode_inv_def stopped_def)
    moreover have "t = popped s" using True h p by (auto simp: t_def pop_and_check_def popPending_def popped_def Let_def)
    ultimately show ?thesis using leave mv by simp
  next
    case nc: False
    show ?thesis
    proof (cases "episode s")
      case (Some ep)
      have t: "t = resolveEpisodeItem env r (popped s)"
        using nc Some h p by (simp add: t_def pop_and_check_def popPending_def popped_def Let_def)
      have l: "leaving s" using Some by (simp add: leaving_def)
      have c: "core_inv workers (popped s)" by (rule leave(1) [OF l])
      then have "safe env [] (popped s)" using env_ok_pool_env [OF env] by (simp add: safe_def core_inv_def)
      from resolve_ok [OF this, of r, folded t]
      have t1: "safe env [] t" "evolves (popped s) t" "callbacks_inv t" using c by (auto simp: core_inv_def)
      then have "frame t = frame (popped s)" by (simp add: evolves_def)
      from frameD(15) [OF this] have "window t = window (popped s)" .
      then show ?thesis
        using core_evolves [OF c t1] leave(2) [OF l] moves_trans [OF mv evolves_moves [OF t1(2)]] by simp
    next
      case None
      have nl: "\<not> leaving s" using None nc by (simp add: leaving_def)
      have ns: "\<not> stopped s" using nc m by (auto simp: mode_inv_def stopped_def)
      let ?c = "checkedForDispatch env r (popped s)"
      have t: "t = (case ?c of (u, Some it) \<Rightarrow> u\<lparr>inFlight := inFlight u + 1, holdingDispatch := Some it\<rparr> | (u, None) \<Rightarrow> u)"
        using nc None h p by (simp add: t_def pop_and_check_def popPending_def popped_def Let_def)
      from check_forms [of env r s] show ?thesis
      proof (elim disjE conjE exE)
        assume "fst ?c = hole_at r s" "snd ?c = None"
        then have "t = hole_at r s" unfolding t by (simp add: split_def)
        moreover have "moves s (hole_at r s)" by (simp add: moves_def commits_def counters_def hole_at_def)
        ultimately show ?thesis using core_hole [OF inv p nl] by simp
      next
        fix sig
        assume "fst ?c = startReorgEpisode sig r (popped s)" "snd ?c = None"
        then have t': "t = startReorgEpisode sig r (popped s)" unfolding t by (simp add: split_def)
        have "mode_inv t" using m h by (simp add: t' startReorgEpisode_def mode_inv_def stopped_def)
        moreover have "inFetch t = inFetch s" "in_pool [] t = in_pool [] s" "registered t = registered s"
          by (simp_all add: t' startReorgEpisode_def inFetch_def in_pool_def registered_def held_def)
        moreover have "moves s t" by (simp add: t' startReorgEpisode_def moves_def commits_def counters_def)
        ultimately show ?thesis using core_leave [OF inv p, of t]
          by (simp add: t' startReorgEpisode_def leaving_def)
      next
        fix b
        assume d: "snd ?c = Some r" and ok: "br_Success r"
          and cont: "continuitySignal (runStartBlock s) (seedHash s) (lastCheckedNum s) (lastCheckedHash s) r = None"
          and e: "(fst ?c)\<lparr>inFlight := inFlight (fst ?c) + 1, holdingDispatch := Some r\<rparr> = dispatched (cancelled s \<or> b) r s"
        have "t = dispatched (cancelled s \<or> b) r s" unfolding t using d e by (simp add: split_def)
        moreover have "moves s (dispatched (cancelled s \<or> b) r s)" by (simp add: moves_def commits_def counters_def dispatched_def)
        ultimately show ?thesis using core_dispatch [OF inv p nl ns h ok cont] by simp
      qed
    qed
  qed
qed

lemma core_drop_held:
  assumes inv: "core_inv workers s" and c: "cancelled s"
  shows "core_inv workers (drop_held s)"
proof -
  have f: "frame (drop_held s) = frame s" by simp
  have k: "cancelled (drop_held s) = cancelled s" "episode (drop_held s) = episode s" "callbacks (drop_held s) = callbacks s"
    "applyCursor (drop_held s) = applyCursor s" "checked (drop_held s) = checked s" "rollback (drop_held s) = rollback s"
    "fatalErr (drop_held s) = fatalErr s" "storeClosed (drop_held s) = storeClosed s" "holdingDispatch (drop_held s) = None"
    by (simp_all add: drop_held_def split: option.splits)
  have "pool_inv [] (drop_held s)"
  proof (rule pool_inv_sub)
    show "pool_inv [] s" using inv by (simp add: core_inv_def)
    then have "inFlight s = int (length (registered s))" by (rule pool_invD(1))
    then show "inFlight (drop_held s) = int (length (registered (drop_held s)))"
      by (simp add: drop_held_def registered_def held_def split: option.splits)
    show "mset (in_pool [] (drop_held s)) \<subseteq># mset (in_pool [] s)"
      by (simp add: drop_held_def in_pool_def registered_def held_def split: option.splits)
  qed (use c in \<open>simp_all add: drop_held_def split: option.splits\<close>)
  moreover have "mode_inv (drop_held s)" using inv k by (simp add: core_inv_def mode_inv_def stopped_def)
  moreover have "callbacks_inv (drop_held s)" using inv k by (simp add: core_inv_def callbacks_inv_def)
  ultimately show ?thesis
    using inv fetch_inv_frame [OF f] lossless_frame [OF f] check_inv_frame [OF f] k
    unfolding core_inv_def by (simp add: leaving_def)
qed

lemma core_atSelect: "core_inv workers (s\<lparr>atSelect := b\<rparr>) = core_inv workers s"
  by (simp add: core_inv_def pool_inv_def mode_inv_def callbacks_inv_def fetch_inv_def lossless_def check_inv_def
    stopped_def leaving_def registered_def held_def in_pool_def owned_def accounted_def inFetch_def window_def last_hash_def)

lemma turn_inv:
  assumes inv: "run_inv workers s" and env: "env_ok env s"
  shows "run_inv workers (collect_turn env s) \<and> moves s (collect_turn env s)"
proof -
  have c: "core_inv workers s" using inv by (simp add: run_inv_core)
  define t where "t = pop_and_check env s"
  note pc = pop_check_core [OF c env, folded t_def, THEN conjunct1, THEN conjunct1] pop_check_core [OF c env, folded t_def, THEN conjunct2]
  have mv: "moves s t" using pop_check_core [OF c env] by (simp add: t_def)
  have mode: "mode_inv t" using pc(1) by (simp add: core_inv_def)
  have turn: "collect_turn env s = (abandon t)\<lparr>atSelect := True\<rparr>" by (simp add: collect_turn_def t_def)
  show ?thesis
  proof (cases "holdingDispatch t \<noteq> None \<and> cancelled t")
    case True
    then have "abandon t = drop_held t" by (simp add: abandon_def)
    moreover have "cancelled (drop_held t)" using True by (simp add: drop_held_def split: option.splits)
    moreover have "moves t ((drop_held t)\<lparr>atSelect := True\<rparr>)" by (simp add: moves_def commits_def counters_def drop_held_def split: option.splits)
    ultimately show ?thesis using core_drop_held [OF pc(1)] True moves_trans [OF mv]
      by (simp add: turn run_inv_core core_atSelect awake_def)
  next
    case False
    then have "abandon t = t" using mode by (auto simp: abandon_def mode_inv_def)
    moreover have "moves t (t\<lparr>atSelect := True\<rparr>)" by (simp add: moves_def commits_def counters_def)
    ultimately show ?thesis using pc moves_trans [OF mv] by (auto simp: turn run_inv_core core_atSelect awake_def window_def)
  qed
qed

end
