(* ===== verification/Collector_Run.thy ===== *)
theory Collector_Run
  imports Collector_Inv
begin

text \<open>
  Every step of the interleaving keeps the invariant of a run, so it holds in every reachable state;
  the properties of a run follow.
\<close>

section \<open>Steps outside the collector\<close>

lemma core_frame:
  assumes inv: "core_inv workers s" and f: "frame t = frame s" and p: "pool_inv [] t" "mode_inv t"
    and e: "callbacks t = callbacks s" "applyCursor t = applyCursor s"
    and c: "cancelled s \<Longrightarrow> cancelled t" and l: "leaving s \<Longrightarrow> leaving t"
  shows "core_inv workers t"
proof -
  have "callbacks_inv t" using inv e frameD(13) [OF f] by (simp add: core_inv_def callbacks_inv_def)
  then show ?thesis
    using inv p fetch_inv_frame [OF f] lossless_frame [OF f c] check_inv_frame [OF f l] unfolding core_inv_def by blast
qed

lemma awake_frame:
  assumes "awake workers s" and "frame t = frame s" and "holdingDispatch t = holdingDispatch s" and "cancelled s \<Longrightarrow> cancelled t"
  shows "awake workers t"
  using assms(1,4) unfolding awake_def frameD [OF assms(2)] assms(3) by blast

lemma core_fetch:
  assumes inv: "core_inv workers s" and v: "pool_view t = pool_view s"
    and e: "cancelled t = cancelled s" "episode t = episode s" "rollback t = rollback s" "fatalErr t = fatalErr s"
      "storeClosed t = storeClosed s" "callbacks t = callbacks s" "runStartBlock t = runStartBlock s" "seedHash t = seedHash s"
      "lastCheckedNum t = lastCheckedNum s" "lastCheckedHash t = lastCheckedHash s"
    and f: "fetch_inv workers t" "lossless t"
  shows "core_inv workers t"
proof -
  have v': "applyCursor t = applyCursor s" "checked t = checked s" "nextToCommit t = nextToCommit s" "holdingDispatch t = holdingDispatch s"
    using v by (simp_all add: pool_view_def)
  have "pool_inv [] t" by (rule pool_inv_view [of _ s]) (use inv v e in \<open>simp_all add: core_inv_def\<close>)
  moreover have "mode_inv t" using inv e v' by (simp add: core_inv_def mode_inv_def stopped_def)
  moreover have "callbacks_inv t" using inv e v' by (simp add: core_inv_def callbacks_inv_def)
  moreover have "leaving t = leaving s" "last_hash t = last_hash s" using e v' by (simp_all add: leaving_def last_hash_def)
  then have "check_inv t" using inv e v' by (simp add: core_inv_def check_inv_def)
  ultimately show ?thesis using f by (simp add: core_inv_def)
qed

text \<open>Moving a height along the fetch pipeline.\<close>

lemma fetch_inv_move:
  assumes inv: "fetch_inv workers s" and sub: "mset (inFetch t) \<subseteq># mset (inFetch s)"
    and e: "pending t = pending s" "nextToCommit t = nextToCommit s" "dispatchedUpTo t = dispatchedUpTo s"
      "runStartBlock t = runStartBlock s" and r: "\<forall>r \<in> set (resultQ t). result_ok r"
  shows "fetch_inv workers t"
proof -
  have "set (inFetch t) \<subseteq> set (inFetch s)" using set_mset_mono [OF sub] by simp
  moreover have "distinct (inFetch s)" using inv by (simp add: fetch_inv_def)
  from distinct_submset [OF sub this] have "distinct (inFetch t)" .
  ultimately show ?thesis using inv r unfolding fetch_inv_def window_def e by blast
qed

lemma lossless_move:
  assumes "lossless s" and "set (inFetch t) = set (inFetch s) \<or> cancelled s" and "pending t = pending s"
    "nextToCommit t = nextToCommit s" "dispatchedUpTo t = dispatchedUpTo s" "cancelled t = cancelled s"
  shows "lossless t"
  using assms unfolding lossless_def by auto

lemma dispatch_inv:
  assumes inv: "run_inv workers s" and w: "dispatchedUpTo s + 1 - nextToCommit s < int (workers * DefaultWorkersAhead)"
  shows "run_inv workers (s\<lparr>workQ := workQ s @ [dispatchedUpTo s + 1], dispatchedUpTo := dispatchedUpTo s + 1\<rparr>)"
proof -
  let ?d = "dispatchedUpTo s + 1"
  let ?t = "s\<lparr>workQ := workQ s @ [?d], dispatchedUpTo := ?d\<rparr>"
  have c: "core_inv workers s" using inv by (simp add: run_inv_core)
  then have F: "fetch_inv workers s" and L: "lossless s" by (simp_all add: core_inv_def)
  have m: "mset (inFetch ?t) = mset (?d # inFetch s)" by (simp add: inFetch_def)
  have st: "set (inFetch ?t) = insert ?d (set (inFetch s))" using mset_eq_setD [OF m] by simp
  have fr: "?d \<notin> set (inFetch s)" using F by (force simp: fetch_inv_def)
  then have d: "distinct (inFetch ?t)" using mset_eq_imp_distinct_iff [OF m] F by (simp add: fetch_inv_def)
  have pn: "pending s ?d = None"
  proof (cases "pending s ?d")
    case (Some r)
    then show ?thesis using F by (force simp: fetch_inv_def)
  qed
  have "\<forall>h \<in> set (inFetch ?t). nextToCommit s \<le> h \<and> h \<le> ?d \<and> pending s h = None"
    using F pn unfolding st by (force simp: fetch_inv_def window_def)
  moreover have "\<forall>h r. pending s h = Some r \<longrightarrow> br_Num r = h \<and> result_ok r \<and> nextToCommit s \<le> h \<and> h \<le> ?d"
    using F by (force simp: fetch_inv_def)
  ultimately have "fetch_inv workers ?t"
    using F d w by (simp add: fetch_inv_def window_def)
  moreover have "lossless ?t"
  proof (cases "cancelled s")
    case False
    have "h \<in> set (inFetch ?t) \<or> pending s h \<noteq> None" if "nextToCommit s \<le> h \<and> h \<le> ?d" for h
      using L False that unfolding lossless_def st by (cases "h = ?d") auto
    then show ?thesis by (simp add: lossless_def)
  qed (simp add: lossless_def)
  ultimately have "core_inv workers ?t" by (intro core_fetch [OF c]) (simp_all add: pool_view_def)
  moreover have "awake workers ?t" by (simp add: awake_def inFetch_def)
  ultimately show ?thesis by (simp add: run_inv_core)
qed

lemma fetch_move_inv:
  assumes inv: "run_inv workers s" and t: "t = s\<lparr>workQ := a, fetching := b, resultQ := c\<rparr>"
    and m: "mset (inFetch t) = mset (inFetch s)" and r: "\<forall>r \<in> set c. result_ok r"
  shows "run_inv workers t"
proof -
  have k: "core_inv workers s" and w: "awake workers s" using inv by (simp_all add: run_inv_core)
  have "fetch_inv workers t" by (rule fetch_inv_move) (use k m r in \<open>simp_all add: t core_inv_def\<close>)
  moreover have "lossless t"
    by (rule lossless_move) (use k mset_eq_setD [OF m] in \<open>simp_all add: t core_inv_def\<close>)
  ultimately have "core_inv workers t" by (intro core_fetch [OF k]) (simp_all add: t pool_view_def)
  moreover have "inFetch t = [] \<longleftrightarrow> inFetch s = []" using m by (metis mset_zero_iff)
  then have "awake workers t" using w by (simp add: t awake_def window_def)
  ultimately show ?thesis by (simp add: run_inv_core)
qed

lemma fetch_drop_inv:
  assumes inv: "run_inv workers s" and c: "cancelled s"
  shows "run_inv workers (s\<lparr>fetching := remove1 n (fetching s)\<rparr>)"
proof -
  let ?t = "s\<lparr>fetching := remove1 n (fetching s)\<rparr>"
  have k: "core_inv workers s" using inv by (simp add: run_inv_core)
  then have F: "fetch_inv workers s" by (simp add: core_inv_def)
  have "mset (remove1 n (fetching s)) \<subseteq># mset (fetching s)" by simp
  then have "mset (inFetch ?t) \<subseteq># mset (inFetch s)"
    unfolding inFetch_def mset_append by (intro subset_mset.add_mono) simp_all
  then have "fetch_inv workers ?t"
    by (rule fetch_inv_move [OF F]) (use F in \<open>simp_all add: fetch_inv_def\<close>)
  moreover have "lossless ?t" by (simp add: lossless_def c)
  ultimately have "core_inv workers ?t" by (intro core_fetch [OF k]) (simp_all add: pool_view_def)
  then show ?thesis using c by (simp add: run_inv_core awake_def)
qed

lemma pool_move_inv:
  assumes inv: "run_inv workers s" and f: "frame t = frame s"
    and m: "mset (in_pool [] t) = mset (in_pool [] s)" and cnt: "inFlight t = int (length (registered t))"
    and e: "reorderCompletions t = reorderCompletions s" "applyHoles t = applyHoles s" "applyCursor t = applyCursor s"
      "cancelled t = cancelled s" "episode t = episode s" "rollback t = rollback s" "fatalErr t = fatalErr s"
      "callbacks t = callbacks s" "holdingDispatch t = holdingDispatch s"
  shows "run_inv workers t"
proof -
  have k: "core_inv workers s" and w: "awake workers s" using inv by (simp_all add: run_inv_core)
  have "pool_inv [] t"
    by (rule pool_inv_sub [of "[]" s]) (use k m cnt e frameD [OF f] in \<open>simp_all add: core_inv_def\<close>)
  moreover have "mode_inv t" using k e frameD(12) [OF f] by (simp add: core_inv_def mode_inv_def stopped_def)
  ultimately have "core_inv workers t" using e by (intro core_frame [OF k f]) (simp_all add: leaving_def)
  moreover have "awake workers t" by (rule awake_frame [OF w f]) (simp_all add: e)
  ultimately show ?thesis by (simp add: run_inv_core)
qed

lemma cancel_inv:
  assumes inv: "run_inv workers s"
  shows "run_inv workers (s\<lparr>cancelled := True\<rparr>)"
proof -
  have k: "core_inv workers s" using inv by (simp add: run_inv_core)
  have "pool_inv [] (s\<lparr>cancelled := True\<rparr>)"
    by (rule pool_inv_view [of _ s]) (use k in \<open>simp_all add: core_inv_def\<close>)
  moreover have "mode_inv (s\<lparr>cancelled := True\<rparr>)" using k by (simp add: core_inv_def mode_inv_def stopped_def)
  ultimately have "core_inv workers (s\<lparr>cancelled := True\<rparr>)" by (intro core_frame [OF k]) (simp_all add: leaving_def)
  then show ?thesis by (simp add: run_inv_core awake_def)
qed

section \<open>The cases of the select\<close>

lemma core_count: "core_inv workers s \<Longrightarrow> inFlight s = int (length (registered s))"
  using pool_invD(1) unfolding core_inv_def by blast

lemma result_inv:
  assumes inv: "run_inv workers s" and q: "resultQ s \<noteq> []"
  shows "run_inv workers (recv_result s)"
proof -
  obtain r rs where rq: "resultQ s = r # rs" using q by (cases "resultQ s") auto
  let ?t = "s\<lparr>resultQ := rs, pending := (pending s)(br_Num r \<mapsto> r), atSelect := False\<rparr>"
  have t: "recv_result s = ?t" by (simp add: recv_result_def rq)
  have c: "core_inv workers s" using inv by (simp add: run_inv_core)
  then have F: "fetch_inv workers s" and L: "lossless s" by (simp_all add: core_inv_def)
  have m: "mset (inFetch s) = mset (br_Num r # inFetch ?t)" by (simp add: inFetch_def rq)
  have st: "set (inFetch s) = insert (br_Num r) (set (inFetch ?t))" using mset_eq_setD [OF m] by simp
  have d: "br_Num r \<notin> set (inFetch ?t)" "distinct (inFetch ?t)"
    using mset_eq_imp_distinct_iff [OF m] F by (simp_all add: fetch_inv_def)
  have in_s: "\<forall>h \<in> set (inFetch s). nextToCommit s \<le> h \<and> h \<le> dispatchedUpTo s \<and> pending s h = None"
    and pend: "\<forall>h r. pending s h = Some r \<longrightarrow> br_Num r = h \<and> result_ok r \<and> nextToCommit s \<le> h \<and> h \<le> dispatchedUpTo s"
    and ok: "\<forall>x \<in> set (resultQ s). result_ok x"
    using F unfolding fetch_inv_def by blast+
  have r: "nextToCommit s \<le> br_Num r \<and> br_Num r \<le> dispatchedUpTo s" using in_s st by blast
  have "\<forall>h \<in> set (inFetch ?t). nextToCommit s \<le> h \<and> h \<le> dispatchedUpTo s \<and> pending ?t h = None"
    using in_s d(1) st by auto
  moreover have "br_Num x = h \<and> result_ok x \<and> nextToCommit s \<le> h \<and> h \<le> dispatchedUpTo s" if "pending ?t h = Some x" for h x
    using that pend r ok rq by (cases "h = br_Num r") auto
  then have "\<forall>h x. pending ?t h = Some x \<longrightarrow> br_Num x = h \<and> result_ok x \<and> nextToCommit s \<le> h \<and> h \<le> dispatchedUpTo s" by blast
  moreover have "\<forall>x \<in> set rs. result_ok x" using ok rq by simp
  moreover have f: "nextToCommit ?t = nextToCommit s" "dispatchedUpTo ?t = dispatchedUpTo s" "window ?t = window s"
    "resultQ ?t = rs" "runStartBlock ?t = runStartBlock s" by (simp_all add: window_def)
  ultimately have "fetch_inv workers ?t"
    using F d(2) unfolding fetch_inv_def f by blast
  moreover have "lossless ?t"
  proof (cases "cancelled s")
    case False
    have "h \<in> set (inFetch ?t) \<or> pending ?t h \<noteq> None" if "nextToCommit s \<le> h \<and> h \<le> dispatchedUpTo s" for h
      using L False that st unfolding lossless_def by auto
    then show ?thesis by (simp add: lossless_def)
  qed (simp add: lossless_def)
  ultimately have "core_inv workers ?t" by (intro core_fetch [OF c]) (simp_all add: pool_view_def)
  then show ?thesis by (simp add: t run_inv_core awake_def)
qed

lemma completion_inv:
  assumes inv: "run_inv workers s" and env: "env_ok env s" and q: "completionQ s \<noteq> []"
  shows "run_inv workers (recv_completion env s) \<and> moves s (recv_completion env s) \<and> \<not> atSelect (recv_completion env s)"
proof -
  obtain c cs where cq: "completionQ s = c # cs" using q by (cases "completionQ s") auto
  let ?s = "s\<lparr>completionQ := cs, atSelect := False\<rparr>"
  let ?t = "recv_completion env s"
  have t: "?t = applyCompletion (opener env) c False ?s" by (simp add: recv_completion_def cq)
  have k: "core_inv workers s" using inv by (simp add: run_inv_core)
  have "pool_inv [c] ?s"
    by (rule pool_inv_sub [of "[]" s])
      (use k core_count [OF k] in \<open>simp_all add: core_inv_def registered_def held_def in_pool_def cq\<close>)
  then have safe: "safe env [c] ?s"
    using k env_ok_pool_env [OF env] by (simp add: safe_def core_inv_def mode_inv_def stopped_def pool_env_def outstanding_def)
  have cb: "callbacks_inv ?s" using k by (simp add: core_inv_def callbacks_inv_def)
  note A = applyCompletion_ok [OF opener_ok safe, of False, folded t]
  have fr: "frame ?t = frame ?s" using A(2) by (simp add: evolves_def)
  let ?u = "s\<lparr>atSelect := False\<rparr>"
  have fu: "frame ?t = frame ?u" using fr by (simp add: frame_def)
  have ku: "core_inv workers ?u" using k by (simp add: core_atSelect)
  have "fetch_inv workers ?t" using ku fetch_inv_frame [OF fu] unfolding core_inv_def by blast
  moreover have "lossless ?t"
    by (rule lossless_frame [OF fu]) (use ku A(2) in \<open>simp_all add: core_inv_def evolves_def\<close>)
  moreover have "check_inv ?t"
    by (rule check_inv_frame [OF fu]) (use ku A(2) in \<open>simp_all add: core_inv_def evolves_def leaving_def\<close>)
  ultimately have "core_inv workers ?t" using A(1,3) cb by (simp add: core_inv_def safe_def)
  moreover have sel: "\<not> atSelect ?t" using frameD(8) [OF fr] by simp
  then have "awake workers ?t" by (simp add: awake_def)
  moreover have "moves s ?s" by (simp add: moves_def commits_def counters_def)
  ultimately show ?thesis using sel moves_trans evolves_moves [OF A(2)] by (auto simp: run_inv_core)
qed

lemma recv_completion_wakes:
  assumes "run_inv workers s" and "env_ok env s" and "completionQ s \<noteq> []"
  shows "\<not> atSelect (recv_completion env s)"
  using completion_inv [OF assms] by blast

lemma send_inv:
  assumes inv: "run_inv workers s" and h: "holdingDispatch s = Some it"
  shows "run_inv workers (send_store s)"
proof -
  let ?t = "s\<lparr>storeQ := storeQ s @ [it], holdingDispatch := None\<rparr>"
  have k: "core_inv workers s" using inv by (simp add: run_inv_core)
  have "pool_inv [] ?t"
    by (rule pool_inv_sub [of "[]" s])
      (use k h core_count [OF k] in \<open>simp_all add: core_inv_def registered_def held_def in_pool_def\<close>)
  moreover have "mode_inv ?t" using k by (simp add: core_inv_def mode_inv_def stopped_def)
  ultimately have "core_inv workers ?t" by (intro core_frame [OF k]) (simp_all add: leaving_def)
  moreover have "send_store s = ?t\<lparr>atSelect := False\<rparr>" by (simp add: send_store_def h)
  ultimately show ?thesis by (simp add: run_inv_core core_atSelect awake_def)
qed

lemma core_closed:
  "cancelled s \<Longrightarrow> holdingDispatch s = None \<Longrightarrow> core_inv workers (s\<lparr>storeClosed := True\<rparr>) = core_inv workers s"
  by (simp add: core_inv_def pool_inv_def mode_inv_def callbacks_inv_def fetch_inv_def lossless_def check_inv_def
    stopped_def leaving_def registered_def held_def in_pool_def owned_def accounted_def inFetch_def window_def last_hash_def)

lemma done_inv:
  assumes inv: "run_inv workers s" and c: "cancelled s"
  shows "run_inv workers (recv_done s)"
proof -
  have k: "core_inv workers s" using inv by (simp add: run_inv_core)
  let ?t = "(drop_held s)\<lparr>storeClosed := True\<rparr>"
  have d: "core_inv workers (drop_held s)" by (rule core_drop_held [OF k c])
  have e: "cancelled (drop_held s)" "holdingDispatch (drop_held s) = None"
    using c by (simp_all add: drop_held_def split: option.splits)
  have "core_inv workers ?t" using d core_closed [OF e] by simp
  moreover have "recv_done s = ?t\<lparr>atSelect := False\<rparr>"
    by (simp add: recv_done_def drop_held_def split: option.splits)
  ultimately show ?thesis by (simp add: run_inv_core core_atSelect awake_def)
qed

section \<open>Reachable states\<close>

lemma pstep_inv:
  assumes "pstep workers s t" and inv: "run_inv workers s"
  shows "run_inv workers t"
proof -
  have ok: "\<forall>r \<in> set (resultQ s). result_ok r" using inv by (simp add: run_inv_def fetch_inv_def)
  show ?thesis using assms(1)
proof cases
  case dispatch
  then show ?thesis using dispatch_inv [OF inv] by simp
next
  case (fetch_start n ns)
  show ?thesis
    by (rule fetch_move_inv [OF inv, where a = ns and b = "n # fetching s" and c = "resultQ s"])
      (use fetch_start ok in \<open>simp_all add: inFetch_def\<close>)
next
  case (fetch_done r)
  then have "mset (fetching s) = add_mset (br_Num r) (mset (remove1 (br_Num r) (fetching s)))" by simp
  then have "mset (inFetch t) = mset (inFetch s)" unfolding fetch_done(1) inFetch_def by simp
  then show ?thesis
    by (rule fetch_move_inv [OF inv, where a = "workQ s" and b = "remove1 (br_Num r) (fetching s)" and c = "resultQ s @ [r]", rotated])
      (use fetch_done ok in auto)
next
  case (fetch_drop n)
  then show ?thesis using fetch_drop_inv [OF inv] by simp
next
  case (store_start it its)
  then show ?thesis
    using core_count [of workers s] inv
    by (intro pool_move_inv [OF inv]) (simp_all add: in_pool_def registered_def held_def run_inv_core)
next
  case (store_done it c)
  have "mset (running s) = add_mset it (mset (remove1 it (running s)))" using store_done by simp
  then have "length (running s) = Suc (length (remove1 it (running s)))" by (metis size_add_mset size_mset)
  then show ?thesis
    using core_count [of workers s] inv store_done
    by (intro pool_move_inv [OF inv]) (simp_all add: in_pool_def registered_def held_def run_inv_core completion_of_def)
next
  case cancel
  then show ?thesis using cancel_inv [OF inv] by simp
next
  case (turn env)
  then show ?thesis using turn_inv [OF inv] by blast
next
  case result
  then show ?thesis using result_inv [OF inv] by simp
next
  case (completion env)
  then show ?thesis using completion_inv [OF inv] by blast
next
  case send
  then show ?thesis using send_inv [OF inv] by auto
next
  case ctx_done
  then show ?thesis using done_inv [OF inv] by simp
qed
qed

lemma init_inv: "run_inv workers (init_run start seed cs hr er)"
  by (simp add: run_inv_def init_run_def pool_inv_def mode_inv_def callbacks_inv_def fetch_inv_def lossless_def awake_def
    check_inv_def stopped_def leaving_def registered_def held_def in_pool_def owned_def accounted_def inFetch_def window_def last_hash_def)

lemma reach_run_inv:
  assumes "reach workers s0 s" and "run_inv workers s0"
  shows "run_inv workers s"
  using assms by (induction rule: reach.induct) (use pstep_inv in blast)+

lemmas reach_inv = reach_run_inv [OF _ init_inv]

text \<open>Only the store-send case of the select hands an item to the pool; every other step \<open>moves\<close>.\<close>

lemma pstep_moves:
  assumes "pstep workers s t" and inv: "run_inv workers s"
  shows "moves s t \<or> (holdingDispatch s \<noteq> None \<and> t = send_store s)"
  using assms(1)
proof cases
  case (turn env)
  then show ?thesis using turn_inv [OF inv] by blast
next
  case (completion env)
  then show ?thesis using completion_inv [OF inv] by blast
next
  case (store_start it its)
  then show ?thesis by (auto simp: moves_def commits_def counters_def)
qed (auto simp: moves_def commits_def counters_def recv_result_def recv_done_def split: list.splits)

lemma send_store_keeps:
  "runStartBlock (send_store s) = runStartBlock s" "seedHash (send_store s) = seedHash s" "callbacks (send_store s) = callbacks s"
  "rollback (send_store s) = rollback s" "fatalErr (send_store s) = fatalErr s" "counters (send_store s) = counters s"
  "configuredStart (send_store s) = configuredStart s"
  by (simp_all add: send_store_def counters_def split: option.splits)

definition keeps :: "proc \<Rightarrow> proc \<Rightarrow> bool" where
  "keeps s t \<longleftrightarrow> runStartBlock t = runStartBlock s \<and> seedHash t = seedHash s \<and> configuredStart t = configuredStart s
     \<and> (stopped s \<longrightarrow> stopped t) \<and> commits s t \<and> (rollback s \<noteq> None \<longrightarrow> rollback t = rollback s)"

lemma keeps_trans: "keeps s t \<Longrightarrow> keeps t u \<Longrightarrow> keeps s u"
  unfolding keeps_def using commits_trans [of s t u] by auto

lemma pstep_keeps:
  assumes "pstep workers s t" and inv: "run_inv workers s"
  shows "keeps s t"
  using pstep_moves [OF assms]
proof
  assume "moves s t"
  then show ?thesis by (auto simp: moves_def keeps_def stopped_def)
next
  assume "holdingDispatch s \<noteq> None \<and> t = send_store s"
  then show ?thesis using send_store_keeps [of s] by (simp add: keeps_def stopped_def commits_same)
qed

lemma reach_keeps:
  assumes "reach workers s0 s" and "run_inv workers s0"
  shows "keeps s0 s"
  using assms
proof (induction rule: reach.induct)
  case start
  then show ?case by (simp add: keeps_def commits_same)
next
  case (step s t)
  have "run_inv workers s" by (rule reach_run_inv [OF step.hyps(1) step.prems])
  then show ?case using keeps_trans [OF step.IH [OF step.prems]] pstep_keeps [OF step.hyps(2)] by blast
qed

lemma env_exists: "\<exists>env. env_ok env s"
proof -
  define ok where "ok n = \<lparr>br_Num = n, br_ID = [], br_Hash = [], br_ParentHash = [], br_Success = True, br_Error = None,
    br_Converted = empty_conversion\<rparr>" for n :: height
  define env where "env = \<lparr>handler = None, finalized = Inr 0, header = (\<lambda>_. Inl (ErrMsg [])),
    refetch = (\<lambda>_. ok (nextToCommit s)), arrivals = map (\<lambda>it. \<lparr>item = it, computed = ok 0, stale = None\<rparr>) (running s @ storeQ s),
    gapCancel = False, walkCancel = False, refillCancel = (\<lambda>_. False)\<rparr>"
  have "env_ok env s"
    by (auto simp: env_ok_def env_def completion_of_def ok_def result_ok_def list_all_iff comp_def)
  then show ?thesis ..
qed

lemma remove1_shorter: "remove1 x xs = xs \<Longrightarrow> x \<notin> set xs"
  by (metis length_remove1 length_pos_if_in_set diff_less less_irrefl zero_less_one)

text \<open>A run that is not cancelled always has a step to take.\<close>

lemma pstep_enabled:
  assumes inv: "run_inv workers s" and w: "0 < workers" and nc: "\<not> cancelled s" and np: "\<not> panicked s"
  shows "\<exists>t. pstep workers s t \<and> t \<noteq> s \<and> t \<noteq> s\<lparr>cancelled := True\<rparr>"
proof -
  have pos: "0 < workers * DefaultWorkersAhead" using w by simp
  have L: "lossless s" and A: "awake workers s" and F: "fetch_inv workers s" using inv by (simp_all add: run_inv_def)
  have go: ?thesis
    if "pstep workers s t"
      and "atSelect t \<noteq> atSelect s \<or> workQ t \<noteq> workQ s \<or> running t \<noteq> running s \<or> resultQ t \<noteq> resultQ s" for t
  proof -
    have "t \<noteq> s \<and> t \<noteq> s\<lparr>cancelled := True\<rparr>" using that(2) by auto
    then show ?thesis using that(1) by blast
  qed
  consider (loop) "\<not> atSelect s" | (res) "atSelect s" "resultQ s \<noteq> []" | (compl) "atSelect s" "completionQ s \<noteq> []"
    | (store) "completionQ s = []" "running s \<noteq> []" | (take) "running s = []" "storeQ s \<noteq> []"
    | (hold) "atSelect s" "storeQ s = []" "holdingDispatch s \<noteq> None"
    | (fetched) "resultQ s = []" "fetching s \<noteq> []" | (work) "fetching s = []" "workQ s \<noteq> []"
    | (idle) "atSelect s" "holdingDispatch s = None" "inFetch s = []"
    by (auto simp: inFetch_def)
  then show ?thesis
  proof cases
    case loop
    obtain env where env: "env_ok env s" using env_exists by blast
    show ?thesis by (rule go [OF pstep.turn [OF loop np env]]) (use loop in \<open>simp add: collect_turn_def\<close>)
  next
    case res
    show ?thesis
      by (rule go [OF pstep.result [OF res(1) np res(2)]]) (use res in \<open>auto simp: recv_result_def split: list.splits\<close>)
  next
    case compl
    obtain env where env: "env_ok env s" using env_exists by blast
    have "atSelect (recv_completion env s) \<noteq> atSelect s"
      using recv_completion_wakes [OF inv env compl(2)] compl(1) by simp
    then show ?thesis by (intro go [OF pstep.completion [OF compl(1) np env compl(2)]]) simp
  next
    case store
    then obtain it where it: "it \<in> set (running s)" by (cases "running s") auto
    let ?c = "\<lparr>item = it, computed = it\<lparr>br_Success := True, br_Error := None\<rparr>, stale = None\<rparr>"
    have c: "completion_of it ?c" by (simp add: completion_of_def result_ok_def)
    have "length (completionQ s) < workers * (DefaultWorkersAhead + 1)" using store w by simp
    from pstep.store_done [OF it c this] show ?thesis
      by (rule go) (use it in \<open>auto dest: remove1_shorter\<close>)
  next
    case take
    then obtain it its where q: "storeQ s = it # its" by (cases "storeQ s") auto
    have "length (running s) < workers" using take w by simp
    from pstep.store_start [OF q this] show ?thesis by (rule go) simp_all
  next
    case hold
    then have "length (storeQ s) < workers * DefaultWorkersAhead" using pos by simp
    from pstep.send [OF hold(1) np hold(3) this] show ?thesis
      by (rule go) (use hold in \<open>auto simp: send_store_def\<close>)
  next
    case fetched
    then obtain n where n: "n \<in> set (fetching s)" by (cases "fetching s") auto
    let ?r = "\<lparr>br_Num = n, br_ID = [], br_Hash = [], br_ParentHash = [], br_Success = True, br_Error = None, br_Converted = empty_conversion\<rparr>"
    have "length (resultQ s) < workers * DefaultWorkersAhead" using fetched pos by simp
    from pstep.fetch_done [of ?r, OF _ _ this] have
      "pstep workers s (s\<lparr>fetching := remove1 n (fetching s), resultQ := resultQ s @ [?r]\<rparr>)"
      using n by (simp add: result_ok_def)
    then show ?thesis by (rule go) simp_all
  next
    case work
    then obtain n ns where q: "workQ s = n # ns" by (cases "workQ s") auto
    have "length (fetching s) < workers" using work w by simp
    from pstep.fetch_start [OF q this] show ?thesis by (rule go) (simp_all add: q)
  next
    case idle
    have "window s < int (workers * DefaultWorkersAhead)"
    proof (rule ccontr)
      assume full: "\<not> ?thesis"
      then have "pending s (nextToCommit s) = None" using A idle nc by (auto simp: awake_def)
      moreover have "nextToCommit s \<le> dispatchedUpTo s" using full pos by (simp add: window_def)
      ultimately show False using L idle(3) nc by (auto simp: lossless_def)
    qed
    moreover have "length (workQ s) < workers * DefaultWorkersAhead" using idle(3) pos by (simp add: inFetch_def)
    ultimately have "pstep workers s (s\<lparr>workQ := workQ s @ [dispatchedUpTo s + 1], dispatchedUpTo := dispatchedUpTo s + 1\<rparr>)"
      by (intro pstep.dispatch) (simp_all add: window_def)
    then show ?thesis by (rule go) simp
  qed
qed

end
