(* ===== verification/Collector_Props.thy ===== *)
theory Collector_Props
  imports Collector_Run
begin

text \<open>
  The properties of a run of the block processor, for every reachable state of every interleaving, and
  two sample runs that show their hypotheses are met: one commits a block, one detects a reorg and
  records a rollback point.
\<close>

section \<open>Two sample runs\<close>

definition sample :: "height \<Rightarrow> hash \<Rightarrow> hash \<Rightarrow> BlockResult" where
  "sample n parent h = \<lparr>br_Num = n, br_ID = [], br_Hash = h, br_ParentHash = parent, br_Success = True, br_Error = None,
     br_Converted = empty_conversion\<rparr>"

definition quiet :: "BlockResult list \<Rightarrow> height \<Rightarrow> collector_env" where
  "quiet pool n = \<lparr>handler = Some demo_query, finalized = Inr 5, header = demo_header, refetch = (\<lambda>_. sample n [] []),
     arrivals = map (\<lambda>it. \<lparr>item = it, computed = it, stale = None\<rparr>) pool,
     gapCancel = False, walkCancel = False, refillCancel = (\<lambda>_. False)\<rparr>"

lemma sample_fields [simp]:
  "br_Num (sample n p h) = n" "br_Hash (sample n p h) = h" "br_ParentHash (sample n p h) = p"
  "br_Success (sample n p h)" "br_Error (sample n p h) = None"
  by (simp_all add: sample_def)

lemma quiet_ok:
  "running s @ storeQ s = map (\<lambda>(n, p, h). sample n p h) xs \<Longrightarrow> n = nextToCommit s \<Longrightarrow>
   env_ok (quiet (map (\<lambda>(n, p, h). sample n p h) xs) n) s"
  by (auto simp: env_ok_def quiet_def completion_of_def result_ok_def comp_def list_all_iff)

abbreviation blk9 :: BlockResult where "blk9 \<equiv> sample 9 ''0xc8'' ''0xc9''"

definition run0 :: proc where "run0 = init_run 9 ''0xc8'' 3 (\<lambda>_. 0) 0"
definition run1 :: proc where "run1 = run0\<lparr>dispatchedUpTo := 9, resultQ := [blk9], atSelect := True\<rparr>"
definition run2 :: proc where "run2 = collect_turn (quiet [] 9) (recv_result run1)"
definition run3 :: proc where "run3 = (send_store run2)\<lparr>storeQ := [], running := [], inFlight := 0,
  completionQ := [\<lparr>item = blk9, computed = blk9, stale = None\<rparr>], atSelect := True\<rparr>"
definition run4 :: proc where "run4 = recv_completion (quiet [] 10) run3"

lemmas run_defs = run0_def run1_def run2_def run3_def run4_def init_run_def
lemmas turn_defs = collect_turn_def pop_and_check_def popPending_def abandon_def checkedForDispatch_def
  pendingContinuitySignal_def continuitySignal_def poppedGapSignal_def quiet_def Let_def

lemma run1_reach: "reach 1 run0 run1"
proof -
  let ?a = "run0\<lparr>workQ := [9], dispatchedUpTo := 9\<rparr>"
  let ?b = "?a\<lparr>workQ := [], fetching := [9]\<rparr>"
  let ?c = "?b\<lparr>fetching := [], resultQ := [blk9]\<rparr>"
  have a: "pstep 1 run0 ?a" using pstep.dispatch [of run0 1] by (simp add: run0_def init_run_def)
  have b: "pstep 1 ?a ?b" using pstep.fetch_start [of ?a 9 "[]" 1] by (simp add: run0_def init_run_def)
  have c: "pstep 1 ?b ?c" using pstep.fetch_done [of blk9 ?b 1] by (simp add: run0_def init_run_def result_ok_def)
  have "env_ok (quiet [] 9) ?c" using quiet_ok [of ?c "[]" 9] by (simp add: run0_def init_run_def)
  then have "pstep 1 ?c (collect_turn (quiet [] 9) ?c)"
    by (intro pstep.turn) (simp_all add: run0_def init_run_def)
  moreover have "collect_turn (quiet [] 9) ?c = run1"
    by (simp add: turn_defs run_defs)
  ultimately have d: "pstep 1 ?c run1" by simp
  show ?thesis by (rule reach.step [OF reach.step [OF reach.step [OF reach.step [OF reach.start a] b] c] d])
qed

lemma run2_fields:
  "holdingDispatch run2 = Some blk9" "storeQ run2 = []" "running run2 = []" "atSelect run2" "\<not> panicked run2"
  "completionQ run2 = []" "inFlight run2 = 1" "nextToCommit run2 = 10" "cancelled run2 = False"
  "applyCursor run2 = 9" "applyHoles run2 = []" "reorderCompletions run2 = []" "callbacks run2 = []" "episode run2 = None"
  "rollback run2 = None" "fatalErr run2 = None"
  by (simp_all add: turn_defs run2_def run1_def run0_def init_run_def recv_result_def)

lemma run2_reach: "reach 1 run0 run2"
proof -
  have a: "pstep 1 run1 (recv_result run1)" by (rule pstep.result) (simp_all add: run_defs)
  have f: "running (recv_result run1) = []" "storeQ (recv_result run1) = []" "nextToCommit (recv_result run1) = 9"
    "\<not> atSelect (recv_result run1)" "\<not> panicked (recv_result run1)"
    by (simp_all add: run1_def run0_def init_run_def recv_result_def)
  have "env_ok (quiet [] 9) (recv_result run1)" by (rule quiet_ok [of _ "[]", simplified]) (simp_all add: f)
  then have b: "pstep 1 (recv_result run1) run2" unfolding run2_def by (rule pstep.turn [OF f(4,5)])
  show ?thesis by (rule reach.step [OF reach.step [OF run1_reach a] b])
qed

lemma run3_reach: "reach 1 run0 run3"
proof -
  let ?a = "send_store run2"
  let ?b = "?a\<lparr>storeQ := [], running := [blk9]\<rparr>"
  let ?done = "\<lparr>item = blk9, computed = blk9, stale = None\<rparr>"
  let ?c = "?b\<lparr>running := [], completionQ := [?done], inFlight := 0\<rparr>"
  have fa: "storeQ ?a = [blk9]" "running ?a = []" "completionQ ?a = []" "inFlight ?a = 1" "\<not> atSelect ?a" "\<not> panicked ?a"
    "nextToCommit ?a = 10" "holdingDispatch ?a = None"
    by (simp_all add: send_store_def run2_fields)
  have a: "pstep 1 run2 ?a" by (rule pstep.send) (simp_all add: run2_fields)
  have b: "pstep 1 ?a ?b" using pstep.store_start [of ?a blk9 "[]" 1] by (simp add: fa)
  have c: "pstep 1 ?b ?c"
    using pstep.store_done [of blk9 ?b ?done 1] by (simp add: fa completion_of_def result_ok_def)
  have "env_ok (quiet [] 10) ?c" by (rule quiet_ok [of _ "[]", simplified]) (simp_all add: fa)
  then have "pstep 1 ?c (collect_turn (quiet [] 10) ?c)" by (intro pstep.turn) (simp_all add: fa)
  moreover have "collect_turn (quiet [] 10) ?c = run3"
  proof -
    have "pending ?a 10 = None" by (simp add: send_store_def run2_fields run2_def run1_def run0_def init_run_def recv_result_def turn_defs)
    then show ?thesis by (simp add: turn_defs fa run3_def)
  qed
  ultimately have d: "pstep 1 ?c run3" by simp
  show ?thesis by (rule reach.step [OF reach.step [OF reach.step [OF reach.step [OF run2_reach a] b] c] d])
qed

lemma run3_fields:
  "completionQ run3 = [\<lparr>item = blk9, computed = blk9, stale = None\<rparr>]" "storeQ run3 = []" "running run3 = []" "atSelect run3"
  "\<not> panicked run3" "nextToCommit run3 = 10" "applyCursor run3 = 9" "applyHoles run3 = []" "reorderCompletions run3 = []"
  "callbacks run3 = []" "rollback run3 = None" "fatalErr run3 = None" "holdingDispatch run3 = None" "episode run3 = None"
  "cancelled run3 = False"
  by (simp_all add: run3_def send_store_def run2_fields)

lemma run4_reach: "reach 1 run0 run4"
proof -
  have "env_ok (quiet [] 10) run3" by (rule quiet_ok [of _ "[]", simplified]) (simp_all add: run3_fields)
  then have "pstep 1 run3 run4" unfolding run4_def by (intro pstep.completion) (simp_all add: run3_fields)
  then show ?thesis by (rule reach.step [OF run3_reach])
qed

lemma run4_fields:
  "callbacks run4 = [blk9]" "registered run4 = []" "completionQ run4 = []" "cancelled run4 = False" "episode run4 = None"
  "holdingDispatch run4 = None" "panicked run4 = panicked run3" "applyCursor run4 = 10"
proof -
  have "collectReady 9 [] [(9, \<lparr>item = blk9, computed = blk9, stale = None\<rparr>)] = ([\<lparr>item = blk9, computed = blk9, stale = None\<rparr>], 10, [], [])"
    by (simp add: collectReady.simps [of 9] collectReady.simps [of 10])
  then show "callbacks run4 = [blk9]" "registered run4 = []" "completionQ run4 = []" "cancelled run4 = False" "episode run4 = None"
    "holdingDispatch run4 = None" "panicked run4 = panicked run3" "applyCursor run4 = 10"
    by (simp_all add: run4_def recv_completion_def run3_fields applyCompletion_def park_def applyOneCompletion_def applyCommit_def
      registered_def held_def)
qed

text \<open>The second run starts on an orphaned block 9; block 10 does not chain from it and block 11
  confirms the new chain.\<close>

abbreviation blk10 :: BlockResult where "blk10 \<equiv> sample 10 ''0xc9'' ''0xc10''"
abbreviation blk11 :: BlockResult where "blk11 \<equiv> sample 11 ''0xc10'' ''0xc11''"

definition fork0 :: proc where "fork0 = init_run 10 ''0xold9'' 3 (\<lambda>_. 0) 0"
definition fork1 :: proc where "fork1 = fork0\<lparr>dispatchedUpTo := 11, resultQ := [blk10, blk11], atSelect := True\<rparr>"
definition fork2 :: proc where "fork2 = collect_turn (quiet [] 10) (recv_result fork1)"
definition fork3 :: proc where "fork3 = collect_turn (quiet [] 11) (recv_result fork2)"

lemma fork1_reach: "reach 1 fork0 fork1"
proof -
  note d = fork0_def init_run_def
  let ?a = "fork0\<lparr>workQ := [10], dispatchedUpTo := 10\<rparr>"
  let ?b = "?a\<lparr>workQ := [], fetching := [10]\<rparr>"
  let ?c = "?b\<lparr>fetching := [], resultQ := [blk10]\<rparr>"
  let ?e = "?c\<lparr>workQ := [11], dispatchedUpTo := 11\<rparr>"
  let ?f = "?e\<lparr>workQ := [], fetching := [11]\<rparr>"
  let ?g = "?f\<lparr>fetching := [], resultQ := [blk10, blk11]\<rparr>"
  have a: "pstep 1 fork0 ?a" using pstep.dispatch [of fork0 1] by (simp add: d)
  have b: "pstep 1 ?a ?b" using pstep.fetch_start [of ?a 10 "[]" 1] by (simp add: d)
  have c: "pstep 1 ?b ?c" using pstep.fetch_done [of blk10 ?b 1] by (simp add: d result_ok_def)
  have e: "pstep 1 ?c ?e" using pstep.dispatch [of ?c 1] by (simp add: d)
  have f: "pstep 1 ?e ?f" using pstep.fetch_start [of ?e 11 "[]" 1] by (simp add: d)
  have g: "pstep 1 ?f ?g" using pstep.fetch_done [of blk11 ?f 1] by (simp add: d result_ok_def)
  have "env_ok (quiet [] 10) ?g" using quiet_ok [of ?g "[]" 10] by (simp add: d)
  then have "pstep 1 ?g (collect_turn (quiet [] 10) ?g)" by (intro pstep.turn) (simp_all add: d)
  moreover have "collect_turn (quiet [] 10) ?g = fork1" by (simp add: turn_defs fork1_def d)
  ultimately have h: "pstep 1 ?g fork1" by simp
  note r = reach.step [OF reach.step [OF reach.step [OF reach.start a] b] c]
  show ?thesis by (rule reach.step [OF reach.step [OF reach.step [OF reach.step [OF r e] f] g] h])
qed

lemma fork2_fields:
  "episode fork2 = Some \<lparr>baseHeight = 10, baseParentHash = ''0xc9'', lastParkedHash = ''0xc10'', rewalks = 0, gapRefills = 0,
     stalePinned = False, staleTopHeight = 0, staleTopHash = []\<rparr>"
  "resultQ fork2 = [blk11]" "nextToCommit fork2 = 11" "atSelect fork2" "\<not> panicked fork2" "holdingDispatch fork2 = None"
  "storeQ fork2 = []" "running fork2 = []" "completionQ fork2 = []" "rollback fork2 = None" "cancelled fork2 = False"
  "configuredStart fork2 = 3" "applyCursor fork2 = 10" "applyHoles fork2 = []" "reorderCompletions fork2 = []" "inFlight fork2 = 0" "callbacks fork2 = []"
  by (simp_all add: turn_defs fork2_def fork1_def fork0_def init_run_def recv_result_def startReorgEpisode_def)

lemma fork2_reach: "reach 1 fork0 fork2"
proof -
  have a: "pstep 1 fork1 (recv_result fork1)" by (rule pstep.result) (simp_all add: fork1_def fork0_def init_run_def)
  have f: "running (recv_result fork1) = []" "storeQ (recv_result fork1) = []" "nextToCommit (recv_result fork1) = 10"
    "\<not> atSelect (recv_result fork1)" "\<not> panicked (recv_result fork1)"
    by (simp_all add: fork1_def fork0_def init_run_def recv_result_def)
  have "env_ok (quiet [] 10) (recv_result fork1)" by (rule quiet_ok [of _ "[]", simplified]) (simp_all add: f)
  then have b: "pstep 1 (recv_result fork1) fork2" unfolding fork2_def by (rule pstep.turn [OF f(4,5)])
  show ?thesis by (rule reach.step [OF reach.step [OF fork1_reach a] b])
qed

lemma fork3_rollback:
  "rollback fork3 = Some \<lparr>forkPoint = 8, oldTip = 0, chainHashes = [9 \<mapsto> ''0xc9'', 8 \<mapsto> ''0xc8'', 10 \<mapsto> ''0xc10'', 11 \<mapsto> ''0xc11'']\<rparr>"
  and fork3_callbacks: "callbacks fork3 = []"
proof -
  let ?s = "popped (recv_result fork2)"
  have f: "episode ?s = episode fork2" "rollback ?s = None" "cancelled ?s = False" "holdingDispatch ?s = None"
    "completionQ ?s = []" "callbacks ?s = []" "storeQ ?s = []" "running ?s = []" "configuredStart ?s = 3"
    by (simp_all add: recv_result_def fork2_fields popped_def)
  have p: "pop_and_check (quiet [] 11) (recv_result fork2) = resolveEpisodeItem (quiet [] 11) blk11 ?s"
    by (simp add: pop_and_check_def popPending_def recv_result_def fork2_fields popped_def Let_def)
  have "resolveEpisodeItem (quiet [] 11) blk11 ?s = finalizeEpisode (opener (quiet [] 11)) (quiet [] 11) (Some blk11) ?s"
    using f by (simp add: resolveEpisodeItem.simps [of _ blk11] fork2_fields)
  moreover have "drainInFlightStores (opener (quiet [] 11)) (quiet [] 11) ?s = settle_pool ?s"
    using f by (simp add: drainInFlightStores_def drop_held_def outstanding_def Let_def fork2_fields)
  ultimately have "rollback (resolveEpisodeItem (quiet [] 11) blk11 ?s) =
      Some \<lparr>forkPoint = 8, oldTip = 0, chainHashes = [9 \<mapsto> ''0xc9'', 8 \<mapsto> ''0xc8'', 10 \<mapsto> ''0xc10'', 11 \<mapsto> ''0xc11'']\<rparr>"
      "callbacks (resolveEpisodeItem (quiet [] 11) blk11 ?s) = []"
    using f demo_walk by (simp_all add: finalizeEpisode_def settle_pool_def fork2_fields quiet_def runCancel_def)
  then show "rollback fork3 = Some \<lparr>forkPoint = 8, oldTip = 0,
      chainHashes = [9 \<mapsto> ''0xc9'', 8 \<mapsto> ''0xc8'', 10 \<mapsto> ''0xc10'', 11 \<mapsto> ''0xc11'']\<rparr>" "callbacks fork3 = []"
    by (simp_all add: fork3_def collect_turn_def p abandon_def drop_held_def split: option.splits)
qed

lemma fork3_reach: "reach 1 fork0 fork3"
proof -
  have a: "pstep 1 fork2 (recv_result fork2)" by (rule pstep.result) (simp_all add: fork2_fields)
  have f: "running (recv_result fork2) = []" "storeQ (recv_result fork2) = []" "nextToCommit (recv_result fork2) = 11"
    "\<not> atSelect (recv_result fork2)" "\<not> panicked (recv_result fork2)"
    by (simp_all add: recv_result_def fork2_fields)
  have "env_ok (quiet [] 11) (recv_result fork2)" by (rule quiet_ok [of _ "[]", simplified]) (simp_all add: f)
  then have b: "pstep 1 (recv_result fork2) fork3" unfolding fork3_def by (rule pstep.turn [OF f(4,5)])
  show ?thesis by (rule reach.step [OF reach.step [OF fork2_reach a] b])
qed

section \<open>Order of the commits\<close>

lemma reach_start:
  assumes "reach workers (init_run start seed cs hr er) s"
  shows "runStartBlock s = start" and "seedHash s = seed"
  using reach_keeps [OF assms init_inv] by (simp_all add: keeps_def init_run_def)





section \<open>Episodes, rollbacks and shutdown\<close>

text \<open>C3: once a run has recorded a rollback point or a fatal error it commits nothing more and keeps
  the rollback point, whatever the goroutines still do.\<close>

theorem decided_run_commits_nothing:
  assumes "reach workers (init_run start seed cs hr er) s" and "rollback s \<noteq> None \<or> fatalErr s \<noteq> None"
    and "reach workers s t"
  shows "callbacks t = callbacks s \<and> (rollback s \<noteq> None \<longrightarrow> rollback t = rollback s) \<and> (rollback t \<noteq> None \<or> fatalErr t \<noteq> None)"
proof -
  have "keeps s t" by (rule reach_keeps [OF assms(3) reach_inv [OF assms(1)]])
  moreover have "stopped s" using assms(2) by (simp add: stopped_def)
  ultimately show ?thesis unfolding keeps_def commits_def stopped_def by auto
qed

theorem decided_run_commits_nothing_witness:
  "callbacks (fork3\<lparr>cancelled := True\<rparr>) = callbacks fork3"
  using decided_run_commits_nothing [OF fork3_reach [unfolded fork0_def] _ reach.step [OF reach.start pstep.cancel]]
  by (simp add: fork3_rollback)







text \<open>C9: the prefetch window is bounded. Every dispatched height that was not popped yet is in the fetch
  pipeline or waits for its turn, in exactly one place, and there are at most twice as many of them as
  workers; without a cancellation none of them is lost.\<close>

theorem prefetch_window:
  assumes "reach workers (init_run start seed cs hr er) s"
  shows "dispatchedUpTo s + 1 - nextToCommit s \<le> int (workers * DefaultWorkersAhead)
    \<and> distinct (workQ s @ fetching s @ map br_Num (resultQ s))
    \<and> set (workQ s @ fetching s @ map br_Num (resultQ s)) \<inter> dom (pending s) = {}
    \<and> set (workQ s @ fetching s @ map br_Num (resultQ s)) \<union> dom (pending s) \<subseteq> {nextToCommit s .. dispatchedUpTo s}
    \<and> (cancelled s \<or> {nextToCommit s .. dispatchedUpTo s} \<subseteq> set (workQ s @ fetching s @ map br_Num (resultQ s)) \<union> dom (pending s))"
proof -
  have F: "fetch_inv workers s" and L: "lossless s" using reach_inv [OF assms] by (simp_all add: run_inv_def)
  have "set (inFetch s) \<inter> dom (pending s) = {}" "set (inFetch s) \<union> dom (pending s) \<subseteq> {nextToCommit s .. dispatchedUpTo s}"
    using F unfolding fetch_inv_def by (auto simp: dom_def)
  moreover have "cancelled s \<or> {nextToCommit s .. dispatchedUpTo s} \<subseteq> set (inFetch s) \<union> dom (pending s)"
    using L unfolding lossless_def by auto
  ultimately show ?thesis using F unfolding inFetch_def fetch_inv_def window_def by blast
qed

theorem prefetch_window_witness: "dispatchedUpTo fork1 + 1 - nextToCommit fork1 \<le> 2 \<and> dom (pending fork1) = {}"
  using prefetch_window [OF fork1_reach [unfolded fork0_def]] by (simp add: fork1_def fork0_def init_run_def)



end
