(* ===== verification/Prune_Queue.thy ===== *)
theory Prune_Queue
  imports Go_Errors "HOL-Library.Word"
begin

text \<open>
  Package \<open>pkg/pruner\<close>, files \<open>indexer_queue.go\<close> and \<open>queue.go\<close>: the queue of indexed
  blocks that the pruner drains. Document ids are stored as 16 raw bytes each, packed per
  collection, and rebuilt as text when a block leaves the queue.

  A Go map is iterated in an unspecified order, so \<open>map[string][]byte\<close> is an association list
  with distinct keys: every order is some list, and the theorems hold for all of them.
  \<open>sort.Slice\<close> is a parameter with the contract \<open>sorts_by\<close>. The mutex makes each operation
  atomic, so an operation is a function on the queue record. The file system is a map from paths
  to file contents; the failures the operating system may report are an argument.
\<close>

section \<open>Data\<close>

type_synonym byte = "8 word"
type_synonym uuid = "byte list"

abbreviation (input) uuidSize :: nat where "uuidSize \<equiv> 16"
abbreviation (input) uuidHexWithoutHyphensLen :: nat where "uuidHexWithoutHyphensLen \<equiv> 32"
abbreviation (input) indexerQueueGobVersion :: int where "indexerQueueGobVersion \<equiv> 1"
abbreviation (input) docIDPrefix :: string where "docIDPrefix \<equiv> ''bae''"
abbreviation (input) zero_uuid :: uuid where "zero_uuid \<equiv> replicate uuidSize 0"

record BlockEntry =
  entryNumber :: height
  BlockDocID :: uuid
  OtherDocIDs :: "(string \<times> byte list) list"
  BatchSigID :: uuid
  HasBatchSig :: bool

record indexerQueueSnapshot =
  Version :: int
  DocIDPrefix :: string
  Entries :: "BlockEntry list"

record IndexerQueue =
  entries :: "BlockEntry list"
  filePath :: string

record DrainResult =
  DocIDsByCollection :: "string \<Rightarrow> docID list option"
  BlockCount :: int

text \<open>Go code that would panic yields \<open>Panics\<close>.\<close>

datatype 'a outcome = Panics | Returns 'a

definition NewIndexerQueue :: IndexerQueue where
  "NewIndexerQueue = \<lparr>entries = [], filePath = []\<rparr>"

section \<open>UUID packing\<close>

text \<open>\<open>encoding/hex\<close>. The decoder reports the first offending byte, formatted with \<open>%#U\<close>.\<close>

definition rune_text :: "char \<Rightarrow> string" where
  "rune_text c = (let n = (of_char c :: nat);
       up = (\<lambda>d. ''0123456789ABCDEF'' ! d);
       code = ''U+00'' @ [up (n div 16), up (n mod 16)];
       glyph = (if n < 128 then [c] else [char_of (192 + n div 64), char_of (128 + n mod 64)])
     in if 32 \<le> n \<and> n \<le> 126 \<or> 161 \<le> n \<and> n \<noteq> 173
        then code @ '' '' @ [CHR 0x27] @ glyph @ [CHR 0x27] else code)"

definition hex_digit :: "char \<Rightarrow> nat option" where
  "hex_digit c = (case digit_value c of None \<Rightarrow> None | Some d \<Rightarrow> if d < 16 then Some d else None)"

definition InvalidByteError :: "char \<Rightarrow> goerror" where
  "InvalidByteError c = ErrMsg (''encoding/hex: invalid byte: '' @ rune_text c)"

fun hex_decode :: "string \<Rightarrow> byte list result" where
  "hex_decode [] = Inr []"
| "hex_decode [c] = (case hex_digit c of None \<Rightarrow> Inl (InvalidByteError c)
     | Some _ \<Rightarrow> Inl (Sentinel ''encoding/hex: odd length hex string''))"
| "hex_decode (a # b # cs) = (case hex_digit a of None \<Rightarrow> Inl (InvalidByteError a)
     | Some x \<Rightarrow> (case hex_digit b of None \<Rightarrow> Inl (InvalidByteError b)
     | Some y \<Rightarrow> (case hex_decode cs of Inl e \<Rightarrow> Inl e
     | Inr bs \<Rightarrow> Inr (word_of_nat (16 * x + y) # bs))))"

definition hex_byte :: "byte \<Rightarrow> string" where
  "hex_byte w = [digit_char (unat w div 16), digit_char (unat w mod 16)]"

definition hex_encode :: "byte list \<Rightarrow> string" where
  "hex_encode bs = concat (map hex_byte bs)"

text \<open>\<open>strings.Cut(s, "-")\<close>: the part after the first hyphen, if there is one.\<close>

definition cut_hyphen :: "string \<Rightarrow> string option" where
  "cut_hyphen s = (if CHR ''-'' \<in> set s then Some (tl (dropWhile (\<lambda>c. c \<noteq> CHR ''-'') s)) else None)"

definition parseUUIDHex :: "string \<Rightarrow> uuid result" where
  "parseUUIDHex uuidStr = (let clean = replace_all ''-'' [] uuidStr in
     if length clean \<noteq> uuidHexWithoutHyphensLen then Inl (ErrMsg (''invalid UUID: '' @ uuidStr))
     else hex_decode clean)"

definition extractUUID :: "docID \<Rightarrow> uuid result" where
  "extractUUID d = (case cut_hyphen d of
     None \<Rightarrow> Inl (ErrMsg (''invalid docID format: '' @ d))
   | Some after \<Rightarrow> parseUUIDHex after)"

definition formatUUID :: "uuid \<Rightarrow> string" where
  "formatUUID b = (let h = hex_encode b in
     take 8 h @ ''-'' @ take 4 (drop 8 h) @ ''-'' @ take 4 (drop 12 h) @ ''-'' @
     take 4 (drop 16 h) @ ''-'' @ drop 20 h)"

definition RestoreDocID :: "uuid \<Rightarrow> docID" where
  "RestoreDocID u = docIDPrefix @ ''-'' @ formatUUID u"

fun packDocIDs :: "docID list \<Rightarrow> byte list result" where
  "packDocIDs [] = Inr []"
| "packDocIDs (d # ds) = (case extractUUID d of Inl e \<Rightarrow> Inl e
     | Inr u \<Rightarrow> (case packDocIDs ds of Inl e \<Rightarrow> Inl e | Inr bs \<Rightarrow> Inr (u @ bs)))"

definition UnpackDocIDs :: "byte list \<Rightarrow> docID list" where
  "UnpackDocIDs packed =
     map (\<lambda>i. RestoreDocID (take uuidSize (drop (i * uuidSize) packed))) [0 ..< length packed div uuidSize]"

section \<open>Tracking\<close>

text \<open>The loop over \<open>otherDocIDs\<close>: empty lists are skipped, the first bad id aborts.\<close>

fun pack_others :: "(string \<times> docID list) list \<Rightarrow> (string \<times> byte list) list result" where
  "pack_others [] = Inr []"
| "pack_others ((col, ids) # rest) =
     (if ids = [] then pack_others rest
      else case packDocIDs ids of Inl e \<Rightarrow> Inl (Wrapped (''invalid docID for '' @ col @ '': '') e [])
      | Inr packed \<Rightarrow> (case pack_others rest of Inl e \<Rightarrow> Inl e
         | Inr os \<Rightarrow> Inr (if packed \<noteq> [] then (col, packed) # os else os)))"

definition TrackBlockDocIDs ::
  "height \<Rightarrow> docID \<Rightarrow> (string \<times> docID list) list \<Rightarrow> docID \<Rightarrow> IndexerQueue \<Rightarrow> IndexerQueue result" where
  "TrackBlockDocIDs n blockDocID otherDocIDs batchSigID q =
     (case (if blockDocID \<noteq> [] then extractUUID blockDocID else Inr zero_uuid) of
        Inl e \<Rightarrow> Inl (Wrapped ''invalid block docID: '' e [])
      | Inr b \<Rightarrow> (case pack_others otherDocIDs of Inl e \<Rightarrow> Inl e
      | Inr os \<Rightarrow> (case (if batchSigID \<noteq> [] then extractUUID batchSigID else Inr zero_uuid) of
           Inl e \<Rightarrow> Inl (Wrapped ''invalid batch sig docID: '' e [])
         | Inr s \<Rightarrow> Inr (q\<lparr>entries := entries q @
             [\<lparr>entryNumber = n, BlockDocID = b, OtherDocIDs = os, BatchSigID = s,
               HasBatchSig = (batchSigID \<noteq> [])\<rparr>]\<rparr>))))"

section \<open>Counting\<close>

definition entryDocCount :: "BlockEntry \<Rightarrow> int" where
  "entryDocCount e = fold (\<lambda>(col, packed) count. count + int (length packed div uuidSize)) (OtherDocIDs e) 1
     + (if HasBatchSig e then 1 else 0)"

definition DocCount :: "IndexerQueue \<Rightarrow> int" where
  "DocCount q = fold (\<lambda>e total.
     fold (\<lambda>(col, packed) t. t + int (length packed div uuidSize)) (OtherDocIDs e) (total + 1)
       + (if HasBatchSig e then 1 else 0)) (entries q) 0"

definition Len :: "IndexerQueue \<Rightarrow> int" where
  "Len q = int (length (entries q))"

definition HighestBlockNumber :: "IndexerQueue \<Rightarrow> height" where
  "HighestBlockNumber q = fold (\<lambda>e hi. if entryNumber e > hi then entryNumber e else hi) (entries q) 0"

section \<open>Draining\<close>

definition add_ids ::
  "string \<Rightarrow> docID list \<Rightarrow> (string \<Rightarrow> docID list option) \<Rightarrow> string \<Rightarrow> docID list option" where
  "add_ids col ids m = m(col \<mapsto> (case m col of None \<Rightarrow> ids | Some old \<Rightarrow> old @ ids))"

definition drain_entry ::
  "string \<Rightarrow> BlockEntry \<Rightarrow> (string \<Rightarrow> docID list option) \<Rightarrow> string \<Rightarrow> docID list option" where
  "drain_entry sigCol e m =
     (let m1 = fold (\<lambda>(col, packed) m. let ids = UnpackDocIDs packed in
                 if ids \<noteq> [] then add_ids col ids m else m) (OtherDocIDs e) m
      in if HasBatchSig e then add_ids sigCol [RestoreDocID (BatchSigID e)] m1 else m1)"

definition buildDrainResult :: "BlockEntry list \<Rightarrow> int \<Rightarrow> string \<Rightarrow> string \<Rightarrow> DrainResult" where
  "buildDrainResult drained drainCount blockCol sigCol =
     (let m = fold (drain_entry sigCol) drained (\<lambda>_. None);
          blockIDs = map (\<lambda>e. RestoreDocID (BlockDocID e)) drained
      in \<lparr>DocIDsByCollection = (if blockIDs \<noteq> [] \<and> blockCol \<noteq> [] then m(blockCol \<mapsto> blockIDs) else m),
          BlockCount = drainCount\<rparr>)"

fun doc_cutoff :: "int \<Rightarrow> int \<Rightarrow> nat \<Rightarrow> BlockEntry list \<Rightarrow> nat" where
  "doc_cutoff excess acc i [] = 0"
| "doc_cutoff excess acc i (e # es) =
     (let acc' = acc + entryDocCount e in if acc' \<ge> excess then i + 1 else doc_cutoff excess acc' (i + 1) es)"

definition DrainByDocCount ::
  "(BlockEntry list \<Rightarrow> BlockEntry list) \<Rightarrow> int \<Rightarrow> string \<Rightarrow> string \<Rightarrow> IndexerQueue \<Rightarrow>
   IndexerQueue \<times> DrainResult option" where
  "DrainByDocCount srt excess blockCol sigCol q =
     (if entries q = [] \<or> excess \<le> 0 then (q, None)
      else let es = srt (entries q);
               c0 = doc_cutoff excess 0 0 es;
               cutoff = (if c0 = 0 then length es else c0)
           in (q\<lparr>entries := drop cutoff es\<rparr>,
               Some (buildDrainResult (take cutoff es) (int cutoff) blockCol sigCol)))"

text \<open>A negative \<open>keep\<close> reaches \<open>make([]BlockEntry, keep)\<close>, which panics.\<close>

definition Drain ::
  "(BlockEntry list \<Rightarrow> BlockEntry list) \<Rightarrow> int \<Rightarrow> string \<Rightarrow> string \<Rightarrow> IndexerQueue \<Rightarrow>
   (IndexerQueue \<times> DrainResult option) outcome" where
  "Drain srt keep blockCol sigCol q =
     (if Len q \<le> keep then Returns (q, None)
      else if keep < 0 then Panics
      else let es = srt (entries q); drainCount = nat (Len q - keep)
           in Returns (q\<lparr>entries := drop drainCount es\<rparr>,
                Some (buildDrainResult (take drainCount es) (int drainCount) blockCol sigCol)))"

section \<open>Persistence\<close>

text \<open>\<open>encoding/gob\<close> writes the snapshot and reads it back field by field; any other content of
  the file fails to decode. Paths are compared after \<open>filepath.Clean\<close>.\<close>

datatype queue_file = Gob indexerQueueSnapshot | Garbage

type_synonym filesystem = "string \<Rightarrow> queue_file option"

record io_failures =
  open_err :: "goerror option"
  create_err :: "goerror option"
  encode_err :: "goerror option"
  close_err :: "goerror option"
  remove_err :: "goerror option"
  rename_err :: "goerror option"

definition no_failures :: io_failures where
  "no_failures = \<lparr>open_err = None, create_err = None, encode_err = None, close_err = None,
     remove_err = None, rename_err = None\<rparr>"

definition LoadFromFile ::
  "io_failures \<Rightarrow> filesystem \<Rightarrow> string \<Rightarrow> IndexerQueue \<Rightarrow> IndexerQueue \<times> int result" where
  "LoadFromFile io fs path q0 = (let q = q0\<lparr>filePath := path\<rparr> in
     case fs path of
       None \<Rightarrow> (q, Inr 0)
     | Some f \<Rightarrow> (case open_err io of
         Some e \<Rightarrow> (q, Inl (Wrapped ''failed to open queue file: '' e []))
       | None \<Rightarrow> (case f of
           Garbage \<Rightarrow> (q, Inr 0)
         | Gob snap \<Rightarrow> if Version snap \<noteq> indexerQueueGobVersion then (q, Inr 0)
             else (q\<lparr>entries := Entries snap\<rparr>, Inr (int (length (Entries snap)))))))"

text \<open>Removing a file that is absent is the error \<open>ErrNotExist\<close>; the encode branch wraps the
  result of \<open>os.Remove\<close>, which the source's inner \<open>err\<close> holds by then.\<close>

definition os_remove :: "io_failures \<Rightarrow> string \<Rightarrow> filesystem \<Rightarrow> filesystem \<times> goerror option" where
  "os_remove io p fs = (case remove_err io of Some e \<Rightarrow> (fs, Some e)
     | None \<Rightarrow> if fs p = None then (fs, Some (Sentinel ''file does not exist'')) else (fs(p := None), None))"

definition wrap_nilable :: "string \<Rightarrow> goerror option \<Rightarrow> goerror" where
  "wrap_nilable p e = (case e of None \<Rightarrow> ErrMsg (p @ ''%!w(<nil>)'') | Some x \<Rightarrow> Wrapped p x [])"

definition Save :: "io_failures \<Rightarrow> filesystem \<Rightarrow> IndexerQueue \<Rightarrow> filesystem \<times> goerror option" where
  "Save io fs q =
     (if filePath q = [] then (fs, None)
      else let snap = \<lparr>Version = indexerQueueGobVersion, DocIDPrefix = docIDPrefix, Entries = entries q\<rparr>
      in if Entries snap = [] then (fst (os_remove io (filePath q) fs), None)
      else let tmpPath = filePath q @ ''.tmp'' in
        case create_err io of Some e \<Rightarrow> (fs, Some (Wrapped ''failed to create temp file: '' e []))
      | None \<Rightarrow> (case encode_err io of
          Some _ \<Rightarrow> (let (fs', e) = os_remove io tmpPath (fs(tmpPath \<mapsto> Garbage))
                     in (fs', Some (wrap_nilable ''failed to encode queue: '' e)))
        | None \<Rightarrow> (let fs1 = fs(tmpPath \<mapsto> Gob snap) in
            case close_err io of
              Some e \<Rightarrow> (fst (os_remove io tmpPath fs1), Some (Wrapped ''failed to close temp file: '' e []))
            | None \<Rightarrow> (case rename_err io of
                Some e \<Rightarrow> (fst (os_remove io tmpPath fs1), Some (Wrapped ''failed to rename temp file: '' e []))
              | None \<Rightarrow> (fs1(filePath q \<mapsto> Gob snap, tmpPath := None), None)))))"

section \<open>Well-formed queues\<close>

text \<open>What the fixed-size arrays and the packing of the source guarantee.\<close>

definition entry_ok :: "BlockEntry \<Rightarrow> bool" where
  "entry_ok e \<longleftrightarrow> length (BlockDocID e) = uuidSize \<and> length (BatchSigID e) = uuidSize
     \<and> distinct (map fst (OtherDocIDs e))
     \<and> list_all (\<lambda>(col, packed). packed \<noteq> [] \<and> length packed mod uuidSize = 0) (OtherDocIDs e)"

definition queue_ok :: "IndexerQueue \<Rightarrow> bool" where
  "queue_ok q \<longleftrightarrow> list_all entry_ok (entries q)"

text \<open>The docIDs DefraDB produces: the prefix, then a lower-case UUID with hyphens.\<close>

definition lower_hex :: "char \<Rightarrow> bool" where
  "lower_hex c \<longleftrightarrow> c \<in> set ''0123456789abcdef''"

definition canonical_docID :: "docID \<Rightarrow> bool" where
  "canonical_docID d = (let h = filter (\<lambda>c. c \<noteq> CHR ''-'') (drop 4 d) in
     length h = 32 \<and> list_all lower_hex h \<and>
     d = ''bae-'' @ take 8 h @ ''-'' @ take 4 (drop 8 h) @ ''-'' @ take 4 (drop 12 h) @ ''-'' @
         take 4 (drop 16 h) @ ''-'' @ drop 20 h)"

section \<open>Packing lemmas\<close>

lemma replace_all_delete [simp]: "replace_all [c] [] s = filter (\<lambda>d. d \<noteq> c) s"
proof (induction s)
  case Nil
  then show ?case by (subst replace_all.simps) simp
next
  case (Cons d s)
  then show ?case by (subst replace_all.simps) (auto simp: prefix_def)
qed

lemma hex_digit_digit_char [simp]: "d < 16 \<Longrightarrow> hex_digit (digit_char d) = Some d"
  by (simp add: hex_digit_def digit_value_digit_char)

lemma digit_char_not_hyphen [simp]: "d < 16 \<Longrightarrow> digit_char d \<noteq> CHR ''-''" "d < 16 \<Longrightarrow> CHR ''-'' \<noteq> digit_char d"
  using digit_char_not_sep [of d] by auto

lemma unat_byte_less [simp]: "unat (w :: byte) < 256"
  using unsigned_less [of w] by simp

lemma unat_byte_div_less [simp]: "unat (w :: byte) div 16 < 16"
  using unat_byte_less [of w] by linarith

lemma hex_decode_encode [simp]: "hex_decode (hex_encode bs) = Inr bs"
proof (induction bs)
  case Nil
  then show ?case by (simp add: hex_encode_def)
next
  case (Cons b bs)
  have "16 * (unat b div 16) + unat b mod 16 = unat b" by simp
  moreover have "hex_encode (b # bs) =
      digit_char (unat b div 16) # digit_char (unat b mod 16) # hex_encode bs"
    by (simp add: hex_encode_def hex_byte_def)
  ultimately show ?case using Cons by simp
qed

lemma length_hex_encode [simp]: "length (hex_encode bs) = 2 * length bs"
  by (induction bs) (auto simp: hex_encode_def hex_byte_def)

lemma hex_encode_chars: "c \<in> set (hex_encode bs) \<Longrightarrow> c \<noteq> CHR ''-''"
  by (auto simp: hex_encode_def hex_byte_def)

lemma filter_hex_encode: "set h \<subseteq> set (hex_encode bs) \<Longrightarrow> filter (\<lambda>c. c \<noteq> CHR ''-'') h = h"
  using hex_encode_chars by (intro filter_True) blast

lemma split_32:
  assumes "length h = 32"
  shows "take 8 h @ take 4 (drop 8 h) @ take 4 (drop 12 h) @ take 4 (drop 16 h) @ drop 20 h = h"
proof -
  have "drop 16 h = take 4 (drop 16 h) @ drop 20 h"
    using append_take_drop_id [of 4 "drop 16 h"] by simp
  moreover have "drop 12 h = take 4 (drop 12 h) @ drop 16 h"
    using append_take_drop_id [of 4 "drop 12 h"] by simp
  moreover have "drop 8 h = take 4 (drop 8 h) @ drop 12 h"
    using append_take_drop_id [of 4 "drop 8 h"] by simp
  ultimately show ?thesis by (metis append_take_drop_id)
qed

lemma parse_format [simp]:
  assumes "length u = uuidSize"
  shows "parseUUIDHex (formatUUID u) = Inr u"
proof -
  let ?h = "hex_encode u"
  have sub: "set (take 8 ?h) \<subseteq> set ?h" "set (take 4 (drop 8 ?h)) \<subseteq> set ?h"
    "set (take 4 (drop 12 ?h)) \<subseteq> set ?h" "set (take 4 (drop 16 ?h)) \<subseteq> set ?h"
    "set (drop 20 ?h) \<subseteq> set ?h"
    by (meson set_take_subset set_drop_subset subset_trans)+
  have "filter (\<lambda>c. c \<noteq> CHR ''-'') (formatUUID u) = ?h"
    using split_32 [of ?h] assms by (simp add: formatUUID_def Let_def sub [THEN filter_hex_encode])
  then show ?thesis using assms by (simp add: parseUUIDHex_def)
qed

lemma extract_restore [simp]: "length u = uuidSize \<Longrightarrow> extractUUID (RestoreDocID u) = Inr u"
  by (simp add: extractUUID_def RestoreDocID_def cut_hyphen_def)

lemma lower_hex_digit:
  assumes "lower_hex c"
  shows "\<exists>d < 16. c = digit_char d"
proof -
  obtain d where "d < length ''0123456789abcdef''" and "c = ''0123456789abcdef'' ! d"
    using assms unfolding lower_hex_def by (metis in_set_conv_nth)
  then show ?thesis by (intro exI [of _ d]) (simp add: digit_char_def)
qed

lemma hex_encode_decode:
  "list_all lower_hex h \<Longrightarrow> even (length h) \<Longrightarrow>
   \<exists>bs. hex_decode h = Inr bs \<and> hex_encode bs = h \<and> 2 * length bs = length h"
proof (induction h rule: hex_decode.induct)
  case (3 a b cs)
  then obtain x y where xy: "x < 16" "a = digit_char x" "y < 16" "b = digit_char y"
    using lower_hex_digit [of a] lower_hex_digit [of b] by auto
  obtain bs where bs: "hex_decode cs = Inr bs" "hex_encode bs = cs" "2 * length bs = length cs"
    using 3 xy by auto
  define w :: byte where "w = word_of_nat (16 * x + y)"
  have "unat w = (16 * x + y) mod 2 ^ 8"
    unfolding w_def by (subst unat_of_nat) simp
  then have "hex_encode (w # bs) = a # b # cs"
    using xy bs by (simp add: hex_encode_def hex_byte_def)
  moreover have "hex_decode (a # b # cs) = Inr (w # bs)"
    using bs xy by (simp add: w_def)
  ultimately show ?case using bs by auto
qed (auto simp: hex_encode_def)

lemma extract_canonical:
  assumes "canonical_docID d"
  shows "\<exists>u. extractUUID d = Inr u \<and> length u = uuidSize \<and> RestoreDocID u = d"
proof -
  define h where "h = filter (\<lambda>c. c \<noteq> CHR ''-'') (drop 4 d)"
  have h: "length h = 32" "list_all lower_hex h"
    and d: "d = ''bae-'' @ take 8 h @ ''-'' @ take 4 (drop 8 h) @ ''-'' @ take 4 (drop 12 h) @ ''-'' @
         take 4 (drop 16 h) @ ''-'' @ drop 20 h"
    using assms unfolding canonical_docID_def h_def Let_def by blast+
  obtain u where u: "hex_decode h = Inr u" "hex_encode u = h" "2 * length u = length h"
    using hex_encode_decode [of h] h by auto
  then have "RestoreDocID u = d" using d by (simp add: RestoreDocID_def formatUUID_def Let_def)
  with u h show ?thesis using extract_restore [of u] by auto
qed

lemma packDocIDs_canonical:
  "list_all canonical_docID ids \<Longrightarrow> \<exists>us. packDocIDs ids = Inr (concat us) \<and> list_all (\<lambda>u. length u = uuidSize) us
     \<and> map RestoreDocID us = ids"
proof (induction ids)
  case Nil
  then show ?case by (intro exI [of _ "[]"]) simp
next
  case (Cons d ids)
  then obtain us where "packDocIDs ids = Inr (concat us)" "list_all (\<lambda>u. length u = uuidSize) us"
    "map RestoreDocID us = ids" by auto
  moreover obtain u where "extractUUID d = Inr u" "length u = uuidSize" "RestoreDocID u = d"
    using Cons.prems extract_canonical by auto
  ultimately show ?case by (intro exI [of _ "u # us"]) simp
qed

lemma hex_decode_length: "hex_decode s = Inr bs \<Longrightarrow> 2 * length bs = length s"
  by (induction s arbitrary: bs rule: hex_decode.induct) (auto split: option.splits sum.splits)

lemma extractUUID_length: "extractUUID d = Inr u \<Longrightarrow> length u = uuidSize"
  by (auto simp: extractUUID_def parseUUIDHex_def Let_def split: option.splits if_splits
      dest: hex_decode_length)

lemma packDocIDs_length: "packDocIDs ds = Inr p \<Longrightarrow> length p = uuidSize * length ds"
  by (induction ds arbitrary: p) (auto split: sum.splits dest: extractUUID_length)

lemma length_concat_uuids: "list_all (\<lambda>u. length u = uuidSize) us \<Longrightarrow> length (concat us) = uuidSize * length us"
  by (induction us) auto

lemma uuid_window:
  assumes "list_all (\<lambda>u. length u = uuidSize) us" and "i < length us"
  shows "take uuidSize (drop (i * uuidSize) (concat us)) = us ! i"
  using assms
proof (induction us arbitrary: i)
  case (Cons u us)
  then show ?case by (cases i) simp_all
qed simp

lemma UnpackDocIDs_concat:
  assumes "list_all (\<lambda>u. length u = uuidSize) us"
  shows "UnpackDocIDs (concat us) = map RestoreDocID us"
  using assms by (intro nth_equalityI) (auto simp: UnpackDocIDs_def length_concat_uuids uuid_window)

lemma length_UnpackDocIDs [simp]: "length (UnpackDocIDs p) = length p div uuidSize"
  by (simp add: UnpackDocIDs_def)

section \<open>Abstract contents\<close>

text \<open>
  What the queue promises is independent of the packing: a bag of tracked blocks, each with its
  number, its block document, the documents of the other collections and its signature document
  (empty when there is none).
\<close>

record tracked =
  t_number :: height
  t_block :: docID
  t_others :: "(string \<times> docID list) list"
  t_sig :: docID

definition abs_entry :: "BlockEntry \<Rightarrow> tracked" where
  "abs_entry e = \<lparr>t_number = entryNumber e, t_block = RestoreDocID (BlockDocID e),
     t_others = map (\<lambda>(col, p). (col, UnpackDocIDs p)) (OtherDocIDs e),
     t_sig = (if HasBatchSig e then RestoreDocID (BatchSigID e) else [])\<rparr>"

definition contents :: "IndexerQueue \<Rightarrow> tracked list" where
  "contents q = map abs_entry (entries q)"

definition tracked_ok :: "tracked \<Rightarrow> bool" where
  "tracked_ok t \<longleftrightarrow> canonical_docID (t_block t) \<and> distinct (map fst (t_others t))
     \<and> list_all (\<lambda>(col, ids). list_all canonical_docID ids) (t_others t)
     \<and> (t_sig t = [] \<or> canonical_docID (t_sig t))"

text \<open>Empty collections are not recorded.\<close>

definition stored_form :: "tracked \<Rightarrow> tracked" where
  "stored_form t = t\<lparr>t_others := filter (\<lambda>(col, ids). ids \<noteq> []) (t_others t)\<rparr>"

definition tracked_count :: "tracked \<Rightarrow> int" where
  "tracked_count t = 1 + (\<Sum>(col, ids) \<leftarrow> t_others t. int (length ids)) + (if t_sig t = [] then 0 else 1)"

definition ids_at :: "(string \<Rightarrow> docID list option) \<Rightarrow> string \<Rightarrow> docID list" where
  "ids_at m col = (case m col of None \<Rightarrow> [] | Some ids \<Rightarrow> ids)"

definition ids_in :: "string \<Rightarrow> string \<Rightarrow> tracked \<Rightarrow> docID list" where
  "ids_in sigCol col t = concat (map snd (filter (\<lambda>(c, ids). c = col) (t_others t)))
     @ (if t_sig t \<noteq> [] \<and> sigCol = col then [t_sig t] else [])"

definition drained_ids :: "string \<Rightarrow> string \<Rightarrow> string \<Rightarrow> tracked list \<Rightarrow> docID list" where
  "drained_ids blockCol sigCol col ts =
     (if col = blockCol \<and> blockCol \<noteq> [] \<and> ts \<noteq> [] then map t_block ts else concat (map (ids_in sigCol col) ts))"

lemma RestoreDocID_not_Nil [simp]: "RestoreDocID u \<noteq> []"
  by (simp add: RestoreDocID_def)

lemma ids_at_add_ids [simp]: "ids_at (add_ids c ids m) col = (if col = c then ids_at m col @ ids else ids_at m col)"
  by (auto simp: ids_at_def add_ids_def split: option.splits)

lemma ids_at_others:
  "ids_at (fold (\<lambda>(c, p) m. let ids = UnpackDocIDs p in if ids \<noteq> [] then add_ids c ids m else m) os m) col
   = ids_at m col @ concat (map snd (filter (\<lambda>(c, ids). c = col) (map (\<lambda>(c, p). (c, UnpackDocIDs p)) os)))"
  by (induction os arbitrary: m) (auto simp: Let_def)

lemma ids_at_drain_entry:
  "ids_at (drain_entry sigCol e m) col = ids_at m col @ ids_in sigCol col (abs_entry e)"
  by (auto simp: drain_entry_def ids_in_def abs_entry_def Let_def ids_at_others [unfolded Let_def])

lemma ids_at_drain_entries:
  "ids_at (fold (drain_entry sigCol) es m) col = ids_at m col @ concat (map (\<lambda>e. ids_in sigCol col (abs_entry e)) es)"
  by (induction es arbitrary: m) (simp_all add: ids_at_drain_entry)

lemma ids_at_empty [simp]: "ids_at (\<lambda>_. None) col = []"
  by (simp add: ids_at_def)

lemma ids_at_upd [simp]: "ids_at (m(c \<mapsto> v)) col = (if col = c then v else ids_at m col)"
  by (simp add: ids_at_def)

lemma buildDrainResult_ids:
  "ids_at (DocIDsByCollection (buildDrainResult es n blockCol sigCol)) col
   = drained_ids blockCol sigCol col (map abs_entry es)"
  by (auto simp: buildDrainResult_def drained_ids_def Let_def ids_at_drain_entries comp_def abs_entry_def)

lemma fold_add_sum: "fold (\<lambda>(c, p) t. t + f p) os (a :: int) = a + (\<Sum>(c, p) \<leftarrow> os. f p)"
  by (induction os arbitrary: a) auto

lemma entryDocCount_tracked: "entryDocCount e = tracked_count (abs_entry e)"
  unfolding entryDocCount_def fold_add_sum
  by (simp add: tracked_count_def abs_entry_def comp_def split_def)

lemma DocCount_sum: "DocCount q = (\<Sum>t \<leftarrow> contents q. tracked_count t)"
proof -
  have "fold (\<lambda>e total.
     fold (\<lambda>(col, packed) t. t + int (length packed div uuidSize)) (OtherDocIDs e) (total + 1)
       + (if HasBatchSig e then 1 else 0)) es a = a + (\<Sum>e \<leftarrow> es. entryDocCount e)" for es a
    by (induction es arbitrary: a) (auto simp: fold_add_sum entryDocCount_def)
  then show ?thesis by (simp add: DocCount_def contents_def entryDocCount_tracked comp_def)
qed

lemma entryDocCount_pos: "0 < entryDocCount e"
proof -
  have "0 \<le> (\<Sum>(c, p) \<leftarrow> os. int (length p div uuidSize))" for os :: "(string \<times> byte list) list"
    by (induction os) auto
  then show ?thesis by (simp add: entryDocCount_def fold_add_sum add_pos_nonneg)
qed

section \<open>The cutoff of \<open>DrainByDocCount\<close>\<close>

abbreviation docs :: "BlockEntry list \<Rightarrow> int" where
  "docs es \<equiv> (\<Sum>e \<leftarrow> es. entryDocCount e)"

lemma doc_cutoff_zero:
  "acc < excess \<Longrightarrow> doc_cutoff excess acc i es = 0 \<Longrightarrow> acc + docs es < excess"
  by (induction excess acc i es rule: doc_cutoff.induct) (auto simp: Let_def algebra_simps split: if_splits)

lemma doc_cutoff_pos:
  "doc_cutoff excess acc i es = c \<Longrightarrow> 0 < c \<Longrightarrow> acc < excess \<Longrightarrow>
   i < c \<and> c - i \<le> length es \<and> excess \<le> acc + docs (take (c - i) es)
   \<and> acc + docs (take (c - i - 1) es) < excess"
proof (induction excess acc i es rule: doc_cutoff.induct)
  case (2 excess acc i e es)
  show ?case
  proof (cases "excess \<le> acc + entryDocCount e")
    case True
    with 2 show ?thesis by (auto simp: Let_def)
  next
    case False
    with 2 have IH: "i + 1 < c" "c - (i + 1) \<le> length es"
      "excess \<le> acc + entryDocCount e + docs (take (c - (i + 1)) es)"
      "acc + entryDocCount e + docs (take (c - (i + 1) - 1) es) < excess"
      by (auto simp: Let_def)
    obtain k where "c = i + Suc (Suc k)" using IH(1) less_iff_Suc_add [of "i + 1" c] by auto
    with IH show ?thesis by simp
  qed
qed simp

section \<open>Operations on the contents\<close>

lemma pack_others_canonical:
  "list_all (\<lambda>(col, ids). list_all canonical_docID ids) os \<Longrightarrow>
   \<exists>ps. pack_others os = Inr ps \<and> map (\<lambda>(col, p). (col, UnpackDocIDs p)) ps = filter (\<lambda>(col, ids). ids \<noteq> []) os"
proof (induction os)
  case Nil
  then show ?case by simp
next
  case (Cons x os)
  obtain col ids where x: "x = (col, ids)" by force
  obtain ps where ps: "pack_others os = Inr ps"
    "map (\<lambda>(col, p). (col, UnpackDocIDs p)) ps = filter (\<lambda>(col, ids). ids \<noteq> []) os"
    using Cons x by auto
  show ?case
  proof (cases "ids = []")
    case True
    with ps x show ?thesis by simp
  next
    case False
    obtain us where us: "packDocIDs ids = Inr (concat us)" "list_all (\<lambda>u. length u = uuidSize) us"
      "map RestoreDocID us = ids" using packDocIDs_canonical [of ids] Cons.prems x by auto
    then have "concat us \<noteq> []" using False by (cases us) auto
    with us ps x False show ?thesis by (auto simp: UnpackDocIDs_concat)
  qed
qed

lemma Track_contents:
  assumes "tracked_ok t"
  shows "\<exists>q'. TrackBlockDocIDs (t_number t) (t_block t) (t_others t) (t_sig t) q = Inr q'
    \<and> contents q' = contents q @ [stored_form t]"
proof -
  have b: "canonical_docID (t_block t)" and o: "list_all (\<lambda>(col, ids). list_all canonical_docID ids) (t_others t)"
    and s: "t_sig t = [] \<or> canonical_docID (t_sig t)"
    using assms by (auto simp: tracked_ok_def)
  obtain u where u: "extractUUID (t_block t) = Inr u" "RestoreDocID u = t_block t"
    using extract_canonical [OF b] by auto
  obtain ps where ps: "pack_others (t_others t) = Inr ps"
    "map (\<lambda>(col, p). (col, UnpackDocIDs p)) ps = filter (\<lambda>(col, ids). ids \<noteq> []) (t_others t)"
    using pack_others_canonical [OF o] by auto
  have ne: "t_block t \<noteq> []" using b by (auto simp: canonical_docID_def Let_def)
  show ?thesis
  proof (cases "t_sig t = []")
    case True
    then show ?thesis using u ps ne
      by (simp add: TrackBlockDocIDs_def contents_def abs_entry_def stored_form_def)
  next
    case False
    then obtain v where "extractUUID (t_sig t) = Inr v" "RestoreDocID v = t_sig t"
      using extract_canonical s by blast
    then show ?thesis using u ps ne False
      by (simp add: TrackBlockDocIDs_def contents_def abs_entry_def stored_form_def)
  qed
qed

lemma pack_others_Cons:
  assumes "pack_others ((col, ids) # rest) = Inr ps"
  obtains os where "pack_others rest = Inr os"
    and "ps = os \<or> (\<exists>p. packDocIDs ids = Inr p \<and> p \<noteq> [] \<and> ps = (col, p) # os)"
  using assms by (auto split: if_splits sum.splits)

lemma pack_others_keys: "pack_others os = Inr ps \<Longrightarrow> set (map fst ps) \<subseteq> set (map fst os)"
proof (induction os arbitrary: ps)
  case (Cons x os)
  obtain col ids where x: "x = (col, ids)" by force
  obtain ps' where ps': "pack_others os = Inr ps'"
    and ps: "ps = ps' \<or> (\<exists>p. packDocIDs ids = Inr p \<and> p \<noteq> [] \<and> ps = (col, p) # ps')"
    using Cons.prems unfolding x by (rule pack_others_Cons)
  show ?case using ps Cons.IH [OF ps'] x by (elim disjE exE conjE) (simp_all add: subset_insertI2)
qed simp

lemma pack_others_ok:
  "pack_others os = Inr ps \<Longrightarrow> distinct (map fst os) \<Longrightarrow>
   distinct (map fst ps) \<and> list_all (\<lambda>(col, p). p \<noteq> [] \<and> length p mod uuidSize = 0) ps"
proof (induction os arbitrary: ps)
  case (Cons x os)
  obtain col ids where x: "x = (col, ids)" by force
  obtain ps' where ps': "pack_others os = Inr ps'"
    and ps: "ps = ps' \<or> (\<exists>p. packDocIDs ids = Inr p \<and> p \<noteq> [] \<and> ps = (col, p) # ps')"
    using Cons.prems(1) unfolding x by (rule pack_others_Cons)
  have "col \<notin> set (map fst ps')" using pack_others_keys [OF ps'] Cons.prems(2) x by auto
  then show ?case using Cons.IH [OF ps'] Cons.prems(2) ps x by (auto dest: packDocIDs_length)
qed simp

lemma Track_entry:
  assumes "TrackBlockDocIDs n b others sg q = Inr q'"
  obtains u ps v where "pack_others others = Inr ps" and "length u = uuidSize" and "length v = uuidSize"
    and "q' = q\<lparr>entries := entries q @ [\<lparr>entryNumber = n, BlockDocID = u, OtherDocIDs = ps,
      BatchSigID = v, HasBatchSig = (sg \<noteq> [])\<rparr>]\<rparr>"
proof -
  obtain u where u: "(if b \<noteq> [] then extractUUID b else Inr zero_uuid) = Inr u"
    using assms by (auto simp: TrackBlockDocIDs_def split: sum.splits)
  obtain ps where ps: "pack_others others = Inr ps"
    using assms by (auto simp: TrackBlockDocIDs_def split: sum.splits)
  obtain v where v: "(if sg \<noteq> [] then extractUUID sg else Inr zero_uuid) = Inr v"
    using assms by (auto simp: TrackBlockDocIDs_def split: sum.splits)
  have "length u = uuidSize" "length v = uuidSize"
    using u v by (auto split: if_splits dest: extractUUID_length)
  then show thesis using that [OF ps] assms unfolding TrackBlockDocIDs_def u v ps by simp
qed

lemma Track_ok [go_inv]:
  assumes "queue_ok q" and "distinct (map fst others)" and "TrackBlockDocIDs n b others sg q = Inr q'"
  shows "queue_ok q'"
  using assms(3) by (rule Track_entry) (use assms(1,2) pack_others_ok in \<open>simp add: queue_ok_def entry_ok_def\<close>)

lemma Drain_step:
  assumes "sorts_by entryNumber srt" and "0 \<le> keep" and "keep < Len q"
  defines "k \<equiv> nat (Len q - keep)"
  shows "Drain srt keep blockCol sigCol q = Returns (q\<lparr>entries := drop k (srt (entries q))\<rparr>,
      Some (buildDrainResult (take k (srt (entries q))) (int k) blockCol sigCol))"
    and "length (drop k (srt (entries q))) = nat keep"
  using assms by (auto simp: Drain_def k_def Let_def Len_def sorts_by_length)

lemma mset_take_drop: "mset (take k xs) + mset (drop k xs) = mset xs"
  by (metis append_take_drop_id mset_append)

lemma contents_split:
  assumes "sorts_by entryNumber srt"
  shows "mset (map abs_entry (take k (srt (entries q)))) + mset (contents (q\<lparr>entries := drop k (srt (entries q))\<rparr>))
    = mset (contents q)"
  using sorts_by_mset [OF assms, of "entries q"]
  by (simp add: contents_def mset_take_drop flip: image_mset_union)

lemma contents_order:
  assumes "sorts_by entryNumber srt" and "a \<in> set (map abs_entry (take k (srt (entries q))))"
    and "b \<in> set (contents (q\<lparr>entries := drop k (srt (entries q))\<rparr>))"
  shows "t_number a \<le> t_number b"
  using sorts_by_take_drop [OF assms(1)] assms(2,3) by (fastforce simp: contents_def abs_entry_def)

lemma queue_ok_drop:
  assumes "sorts_by entryNumber srt" and "queue_ok q"
  shows "queue_ok (q\<lparr>entries := drop k (srt (entries q))\<rparr>)"
  using assms sorts_by_set [OF assms(1), of "entries q"] set_drop_subset [of k "srt (entries q)"]
  by (auto simp: queue_ok_def list_all_iff)

text \<open>The part both drains share: cut the sorted entries at \<open>k\<close> and report the front.\<close>

lemma drain_at:
  fixes blockCol sigCol :: string
  assumes "sorts_by entryNumber srt" and "queue_ok q" and "k \<le> length (entries q)"
  defines "ts \<equiv> map abs_entry (take k (srt (entries q)))"
    and "q' \<equiv> q\<lparr>entries := drop k (srt (entries q))\<rparr>"
    and "r \<equiv> buildDrainResult (take k (srt (entries q))) (int k) blockCol sigCol"
  shows "queue_ok q' \<and> mset ts + mset (contents q') = mset (contents q)
    \<and> (\<forall>a \<in> set ts. \<forall>b \<in> set (contents q'). t_number a \<le> t_number b)
    \<and> BlockCount r = int (length ts)
    \<and> (\<forall>col. ids_at (DocIDsByCollection r) col = drained_ids blockCol sigCol col ts)"
  unfolding ts_def q'_def r_def
proof (intro conjI)
  show "queue_ok (q\<lparr>entries := drop k (srt (entries q))\<rparr>)" by (rule queue_ok_drop [OF assms(1,2)])
  show "\<forall>a \<in> set (map abs_entry (take k (srt (entries q)))).
      \<forall>b \<in> set (contents (q\<lparr>entries := drop k (srt (entries q))\<rparr>)). t_number a \<le> t_number b"
    using contents_order [OF assms(1)] by blast
  show "BlockCount (buildDrainResult (take k (srt (entries q))) (int k) blockCol sigCol)
      = int (length (map abs_entry (take k (srt (entries q)))))"
    using assms(3) by (simp add: buildDrainResult_def Let_def sorts_by_length [OF assms(1)])
qed (rule contents_split [OF assms(1)], simp add: buildDrainResult_ids)

section \<open>The interface the pruner drains through\<close>

text \<open>
  The pruner uses a queue only through its length and \<open>Drain\<close>. The laws say that a drain to
  \<open>keep\<close> blocks removes the oldest ones, loses nothing and reports exactly the documents of the
  removed blocks.
\<close>

locale block_queue =
  fixes inv :: "'q \<Rightarrow> bool"
    and items :: "'q \<Rightarrow> tracked list"
    and size_of :: "'q \<Rightarrow> int"
    and drain_to :: "int \<Rightarrow> 'q \<Rightarrow> ('q \<times> DrainResult option) outcome"
    and bcol scol :: string
  assumes size_of: "inv q \<Longrightarrow> size_of q = int (length (items q))"
    and drain_none: "inv q \<Longrightarrow> size_of q \<le> keep \<Longrightarrow> drain_to keep q = Returns (q, None)"
    and drain_some: "inv q \<Longrightarrow> 0 \<le> keep \<Longrightarrow> keep < size_of q \<Longrightarrow>
      \<exists>q' r ts. drain_to keep q = Returns (q', Some r) \<and> inv q' \<and> size_of q' = keep
        \<and> mset ts + mset (items q') = mset (items q)
        \<and> (\<forall>a \<in> set ts. \<forall>b \<in> set (items q'). t_number a \<le> t_number b)
        \<and> BlockCount r = int (length ts)
        \<and> (\<forall>col. ids_at (DocIDsByCollection r) col = drained_ids bcol scol col ts)"
begin

lemma drain_bounded:
  assumes "inv q" and "0 \<le> keep"
  shows "\<exists>q' r. drain_to keep q = Returns (q', r) \<and> inv q' \<and> size_of q' = min (size_of q) keep"
  using drain_none [OF assms(1)] drain_some [OF assms] assms by (cases "size_of q \<le> keep") (auto simp: min_def)

lemma drain_again:
  assumes "inv q" and "0 \<le> keep" and "drain_to keep q = Returns (q', r)"
  shows "drain_to keep q' = Returns (q', None)"
  using drain_bounded [OF assms(1,2)] assms(3) drain_none by auto

lemma drain_keeps_newest:
  assumes "inv q" and "0 \<le> keep" and "drain_to keep q = Returns (q', r)"
    and "t \<in># mset (items q) - mset (items q')"
  shows "size (filter_mset (\<lambda>b. t_number t \<le> t_number b) (mset (items q'))) = nat keep"
proof -
  have gt: "keep < size_of q"
  proof (rule ccontr)
    assume "\<not> keep < size_of q"
    then have "q' = q" using drain_none [OF assms(1)] assms(3) by simp
    with assms(4) show False by simp
  qed
  obtain ts where ts: "inv q'" "size_of q' = keep" "mset ts + mset (items q') = mset (items q)"
    "\<forall>a \<in> set ts. \<forall>b \<in> set (items q'). t_number a \<le> t_number b"
    using drain_some [OF assms(1,2) gt] assms(3) by auto
  have "mset (items q) - mset (items q') = mset ts" by (simp flip: ts(3))
  then have "t \<in> set ts" using assms(4) by simp
  then have "filter_mset (\<lambda>b. t_number t \<le> t_number b) (mset (items q')) = mset (items q')"
    using ts(4) by (auto simp: filter_mset_eq_conv)
  then show ?thesis using ts(1,2) size_of [of q'] by simp
qed

end

lemma Drain_block_queue:
  assumes "sorts_by entryNumber srt"
  shows "block_queue queue_ok contents Len (\<lambda>keep. Drain srt keep blockCol sigCol) blockCol sigCol"
proof
  fix q keep
  show "Len q = int (length (contents q))" by (simp add: Len_def contents_def)
  show "Drain srt keep blockCol sigCol q = Returns (q, None)" if "Len q \<le> keep"
    using that by (simp add: Drain_def)
  assume q: "queue_ok q" and k: "0 \<le> keep" "keep < Len q"
  let ?k = "nat (Len q - keep)"
  let ?es = "srt (entries q)"
  let ?q = "q\<lparr>entries := drop ?k ?es\<rparr>"
  let ?r = "buildDrainResult (take ?k ?es) (int ?k) blockCol sigCol"
  let ?ts = "map abs_entry (take ?k ?es)"
  have "Drain srt keep blockCol sigCol q = Returns (?q, Some ?r)" by (rule Drain_step(1) [OF assms k])
  moreover have "Len ?q = keep" using Drain_step(2) [OF assms k] k(1) by (simp add: Len_def)
  moreover note drain_at [OF assms q, of ?k blockCol sigCol]
  ultimately show "\<exists>q' r ts. Drain srt keep blockCol sigCol q = Returns (q', Some r) \<and> queue_ok q' \<and> Len q' = keep
      \<and> mset ts + mset (contents q') = mset (contents q)
      \<and> (\<forall>a \<in> set ts. \<forall>b \<in> set (contents q'). t_number a \<le> t_number b)
      \<and> BlockCount r = int (length ts)
      \<and> (\<forall>col. ids_at (DocIDsByCollection r) col = drained_ids blockCol sigCol col ts)"
    using k by (intro exI [of _ ?q] exI [of _ ?r] exI [of _ ?ts]) (simp add: Len_def)
qed

interpretation iq: block_queue queue_ok contents Len "\<lambda>keep. Drain (sort_key entryNumber) keep blockCol sigCol"
  blockCol sigCol for blockCol sigCol
  by (rule Drain_block_queue) (rule sorts_by_sort_key)

section \<open>Properties\<close>

text \<open>The sequence of \<open>TrackBlockDocIDs\<close> calls for a list of blocks.\<close>

fun track_blocks :: "tracked list \<Rightarrow> IndexerQueue \<Rightarrow> IndexerQueue result" where
  "track_blocks [] q = Inr q"
| "track_blocks (t # ts) q =
     (case TrackBlockDocIDs (t_number t) (t_block t) (t_others t) (t_sig t) q of
        Inl e \<Rightarrow> Inl e | Inr q' \<Rightarrow> track_blocks ts q')"

lemma track_blocks_contents:
  "list_all tracked_ok ts \<Longrightarrow> queue_ok q \<Longrightarrow>
   \<exists>q'. track_blocks ts q = Inr q' \<and> queue_ok q' \<and> contents q' = contents q @ map stored_form ts"
proof (induction ts arbitrary: q)
  case (Cons t ts)
  obtain q1 where q1: "TrackBlockDocIDs (t_number t) (t_block t) (t_others t) (t_sig t) q = Inr q1"
    "contents q1 = contents q @ [stored_form t]"
    using Track_contents Cons.prems(1) by (metis list.pred_inject(2))
  have "queue_ok q1" using Track_ok q1(1) Cons.prems by (auto simp: tracked_ok_def)
  then show ?case using Cons.IH [of q1] Cons.prems q1 by simp
qed simp

lemma tracked_count_stored_form [simp]: "tracked_count (stored_form t) = tracked_count t"
proof -
  have "(\<Sum>(col, ids) \<leftarrow> filter (\<lambda>(col, ids). ids \<noteq> []) os. int (length ids)) = (\<Sum>(col, ids) \<leftarrow> os. int (length ids))"
    for os :: "(string \<times> docID list) list"
    by (induction os) auto
  then show ?thesis by (simp add: tracked_count_def stored_form_def)
qed

lemma sum_list_take_drop: "sum_list (map f (take k xs)) + sum_list (map f (drop k xs)) = sum_list (map f xs)"
  for f :: "'a \<Rightarrow> int"
  by (metis append_take_drop_id map_append sum_list_append)

lemma DocCount_docs: "DocCount q = docs (entries q)"
  by (simp add: DocCount_sum contents_def comp_def entryDocCount_tracked)

lemma docs_perm: "mset xs = mset ys \<Longrightarrow> docs xs = docs ys"
  by (metis mset_map sum_mset_sum_list)

lemma DrainByDocCount_step:
  assumes "sorts_by entryNumber srt" and "entries q \<noteq> []" and "0 < excess"
  shows "\<exists>k. DrainByDocCount srt excess blockCol sigCol q = (q\<lparr>entries := drop k (srt (entries q))\<rparr>,
      Some (buildDrainResult (take k (srt (entries q))) (int k) blockCol sigCol))
    \<and> k \<le> length (entries q)
    \<and> min excess (docs (srt (entries q))) \<le> docs (take k (srt (entries q)))
    \<and> docs (take (k - 1) (srt (entries q))) < excess"
proof -
  let ?es = "srt (entries q)"
  define c where "c = doc_cutoff excess 0 0 ?es"
  have len: "length ?es = length (entries q)" by (rule sorts_by_length [OF assms(1)])
  show ?thesis
  proof (cases "c = 0")
    case True
    then have all: "docs ?es < excess" using doc_cutoff_zero [of 0 excess 0 ?es] assms(3) c_def by simp
    have "0 \<le> docs (drop (length ?es - 1) ?es)"
      by (rule sum_list_nonneg) (auto intro: less_imp_le entryDocCount_pos)
    then have "docs (take (length ?es - 1) ?es) < excess"
      using all sum_list_take_drop [of entryDocCount "length ?es - 1" ?es] by linarith
    then show ?thesis using True all assms len
      by (intro exI [of _ "length ?es"]) (simp add: DrainByDocCount_def Let_def flip: c_def)
  next
    case False
    then have c: "c \<le> length ?es" "excess \<le> docs (take c ?es)" "docs (take (c - 1) ?es) < excess"
      using doc_cutoff_pos [of excess 0 0 ?es c] assms(3) c_def by auto
    then show ?thesis using False assms len
      by (intro exI [of _ c]) (simp add: DrainByDocCount_def Let_def flip: c_def)
  qed
qed

text \<open>C36: draining a queue that holds more than \<open>keep\<close> blocks never panics, leaves exactly
  \<open>keep\<close> blocks, removes blocks no newer than any that stay, loses none, keeps the queue
  well-formed, and hands out per collection exactly the docIDs tracked for the removed blocks.\<close>

theorem Drain_removes_oldest:
  assumes "sorts_by entryNumber srt" and "queue_ok q" and "0 \<le> keep" and "keep < Len q"
  shows "\<exists>q' r ts. Drain srt keep blockCol sigCol q = Returns (q', Some r) \<and> queue_ok q' \<and> Len q' = keep
    \<and> mset ts + mset (contents q') = mset (contents q)
    \<and> (\<forall>a \<in> set ts. \<forall>b \<in> set (contents q'). t_number a \<le> t_number b)
    \<and> BlockCount r = int (length ts)
    \<and> (\<forall>col. ids_at (DocIDsByCollection r) col = drained_ids blockCol sigCol col ts)"
  using block_queue.drain_some [OF Drain_block_queue [OF assms(1)] assms(2-4)] .

definition demo_entry :: "height \<Rightarrow> BlockEntry" where
  "demo_entry n = \<lparr>entryNumber = n, BlockDocID = replicate 16 7, OtherDocIDs = [(''Log'', replicate 32 9)],
     BatchSigID = replicate 16 0, HasBatchSig = False\<rparr>"

definition demo_queue :: IndexerQueue where
  "demo_queue = \<lparr>entries = [demo_entry 8, demo_entry 5, demo_entry 6], filePath = ''q.gob''\<rparr>"

lemma demo_queue_ok: "queue_ok demo_queue" "Len demo_queue = 3" "entries demo_queue \<noteq> []"
  by (simp_all add: queue_ok_def demo_queue_def demo_entry_def entry_ok_def Len_def)

theorem Drain_removes_oldest_witness:
  "\<exists>q' r ts. Drain (sort_key entryNumber) 1 ''Block'' ''Sig'' demo_queue = Returns (q', Some r)
    \<and> queue_ok q' \<and> Len q' = 1 \<and> mset ts + mset (contents q') = mset (contents demo_queue)
    \<and> (\<forall>a \<in> set ts. \<forall>b \<in> set (contents q'). t_number a \<le> t_number b)
    \<and> BlockCount r = int (length ts)
    \<and> (\<forall>col. ids_at (DocIDsByCollection r) col = drained_ids ''Block'' ''Sig'' col ts)"
  by (rule Drain_removes_oldest [OF sorts_by_sort_key demo_queue_ok(1)]) (simp_all add: demo_queue_ok)

text \<open>Draining by document count removes the oldest blocks, at least \<open>excess\<close> documents
  (or everything when the queue holds fewer), and not one block more than needed; the documents it
  counts are exactly the docIDs it hands out, and the document count of the queue drops by them.\<close>

theorem DrainByDocCount_minimal:
  assumes "sorts_by entryNumber srt" and "queue_ok q" and "entries q \<noteq> []" and "0 < excess"
  shows "\<exists>q' r ts. DrainByDocCount srt excess blockCol sigCol q = (q', Some r) \<and> queue_ok q'
    \<and> mset ts + mset (contents q') = mset (contents q)
    \<and> (\<forall>a \<in> set ts. \<forall>b \<in> set (contents q'). t_number a \<le> t_number b)
    \<and> BlockCount r = int (length ts)
    \<and> (\<forall>col. ids_at (DocIDsByCollection r) col = drained_ids blockCol sigCol col ts)
    \<and> min excess (DocCount q) \<le> (\<Sum>t \<leftarrow> ts. tracked_count t)
    \<and> (\<Sum>t \<leftarrow> butlast ts. tracked_count t) < excess
    \<and> DocCount q' = DocCount q - (\<Sum>t \<leftarrow> ts. tracked_count t)"
proof -
  let ?es = "srt (entries q)"
  obtain k where k: "DrainByDocCount srt excess blockCol sigCol q = (q\<lparr>entries := drop k ?es\<rparr>,
      Some (buildDrainResult (take k ?es) (int k) blockCol sigCol))"
    and len: "k \<le> length (entries q)" and big: "min excess (docs ?es) \<le> docs (take k ?es)"
    and small: "docs (take (k - 1) ?es) < excess"
    using DrainByDocCount_step [OF assms(1,3,4)] by blast
  let ?q = "q\<lparr>entries := drop k ?es\<rparr>"
  let ?ts = "map abs_entry (take k ?es)"
  have total: "DocCount q = docs ?es"
    unfolding DocCount_docs by (rule docs_perm) (simp only: sorts_by_mset [OF assms(1)])
  have ts: "(\<Sum>t \<leftarrow> ?ts. tracked_count t) = docs (take k ?es)"
    by (simp add: comp_def entryDocCount_tracked)
  have "butlast (take k ?es) = take (k - 1) ?es"
    using len by (simp add: butlast_take sorts_by_length [OF assms(1)])
  then have bl: "(\<Sum>t \<leftarrow> butlast ?ts. tracked_count t) = docs (take (k - 1) ?es)"
    by (simp add: comp_def entryDocCount_tracked flip: map_butlast)
  have "DocCount ?q = docs (drop k ?es)" by (simp add: DocCount_docs)
  then have "DocCount ?q = DocCount q - (\<Sum>t \<leftarrow> ?ts. tracked_count t)"
    using sum_list_take_drop [of entryDocCount k ?es] total ts by linarith
  then show ?thesis
    using k drain_at [OF assms(1,2) len, of blockCol sigCol] big [folded total ts] small [folded bl]
    by (intro exI [of _ ?q] exI [of _ "buildDrainResult (take k ?es) (int k) blockCol sigCol"] exI [of _ ?ts])
      simp
qed

theorem DrainByDocCount_minimal_witness:
  "\<exists>q' r ts. DrainByDocCount (sort_key entryNumber) 4 ''Block'' ''Sig'' demo_queue = (q', Some r) \<and> queue_ok q'
    \<and> mset ts + mset (contents q') = mset (contents demo_queue)
    \<and> (\<forall>a \<in> set ts. \<forall>b \<in> set (contents q'). t_number a \<le> t_number b)
    \<and> BlockCount r = int (length ts)
    \<and> (\<forall>col. ids_at (DocIDsByCollection r) col = drained_ids ''Block'' ''Sig'' col ts)
    \<and> min 4 (DocCount demo_queue) \<le> (\<Sum>t \<leftarrow> ts. tracked_count t)
    \<and> (\<Sum>t \<leftarrow> butlast ts. tracked_count t) < 4
    \<and> DocCount q' = DocCount demo_queue - (\<Sum>t \<leftarrow> ts. tracked_count t)"
  by (rule DrainByDocCount_minimal [OF sorts_by_sort_key demo_queue_ok(1,3)]) simp

text \<open>C37: tracking refines appending to a list of blocks. Blocks whose docIDs have the form
  DefraDB gives them (and whose collection names are distinct, as map keys are) are all accepted,
  the queue then holds exactly those docIDs in that order, and its document count is their number.\<close>

theorem track_blocks_refines:
  assumes "list_all tracked_ok ts"
  shows "\<exists>q. track_blocks ts NewIndexerQueue = Inr q \<and> queue_ok q \<and> contents q = map stored_form ts
    \<and> DocCount q = (\<Sum>t \<leftarrow> ts. tracked_count t)"
proof -
  have "queue_ok NewIndexerQueue" "contents NewIndexerQueue = []"
    by (simp_all add: NewIndexerQueue_def queue_ok_def contents_def)
  then obtain q where "track_blocks ts NewIndexerQueue = Inr q" "queue_ok q" "contents q = map stored_form ts"
    using track_blocks_contents [OF assms, of NewIndexerQueue] by auto
  then show ?thesis by (simp add: DocCount_sum comp_def)
qed

definition demo_tracked :: tracked where
  "demo_tracked = \<lparr>t_number = 9, t_block = ''bae-0123abcd-0123-4567-89ab-0123456789ab'',
     t_others = [(''Log'', [''bae-ffffffff-0123-4567-89ab-0123456789ab'']), (''Tx'', [])],
     t_sig = ''bae-00000000-0123-4567-89ab-0123456789ab''\<rparr>"

lemma demo_tracked_ok: "tracked_ok demo_tracked"
  by (simp add: demo_tracked_def tracked_ok_def canonical_docID_def Let_def lower_hex_def)

theorem track_blocks_refines_witness:
  "\<exists>q. track_blocks [demo_tracked] NewIndexerQueue = Inr q \<and> queue_ok q
    \<and> contents q = map stored_form [demo_tracked] \<and> DocCount q = 3"
  using track_blocks_refines [of "[demo_tracked]"] demo_tracked_ok
  by (simp add: tracked_count_def demo_tracked_def)

text \<open>C38: saving is atomic. Whatever the operating system reports, the queue file afterwards is
  either what it was before or the complete new snapshot (or gone, for an empty queue), and when
  \<open>Save\<close> returns an error it is what it was before.\<close>

theorem Save_atomic:
  shows "fst (Save io fs q) (filePath q) = fs (filePath q)
      \<or> snd (Save io fs q) = None \<and> fst (Save io fs q) (filePath q) =
          (if entries q = [] then None
           else Some (Gob \<lparr>Version = 1, DocIDPrefix = ''bae'', Entries = entries q\<rparr>))"
  by (auto simp: Save_def os_remove_def Let_def split: option.splits)



end
