(* ===== verification/Process_Blocks.thy ===== *)
theory Process_Blocks
  imports Collector_Props Prune_Queue
begin

text \<open>
  File \<open>pkg/indexer/concurrent_processor.go\<close>, around the runs: the task of a pool worker, the
  dispatcher, and \<open>ProcessBlocks\<close>, which restarts a run after every resolved reorg.

  What \<open>ProcessBlocks\<close> cannot know in advance is indexed by the number of the run: the final state of
  the run, the error of its context, the answers of the reorg handler.
\<close>

section \<open>Pool worker\<close>

text \<open>\<open>hnd\<close> is the stored-hash query, absent without a reorg handler.\<close>

definition runStoreTask ::
  "rpc_env \<Rightarrow> (ConversionResult \<Rightarrow> 'w \<Rightarrow> 'w \<times> docID result) \<Rightarrow> ('w \<Rightarrow> stored_query) option \<Rightarrow> BlockResult \<Rightarrow> 'w \<Rightarrow>
   'w \<times> storeCompletion \<times> bool" where
  "runStoreTask env Store hnd it w =
     (case storeWithRetry env Store (br_Num it) (br_Converted it) w of (w', out, signs) \<Rightarrow>
        (w', \<lparr>item = it, computed = out, stale =
           (case br_Error out of None \<Rightarrow> None
            | Some e \<Rightarrow> if IsErrDocumentDeleted (Some e) then None
                else (case hnd of None \<Rightarrow> None | Some q \<Rightarrow> detectStaleOrphan (q w') it))\<rparr>, signs))"

section \<open>Dispatcher\<close>

definition minute :: int where "minute = 60 * second"

definition minInterval :: "int \<Rightarrow> int" where
  "minInterval blocksPerMinute = (if 0 < blocksPerMinute then minute div blocksPerMinute else 0)"

datatype dispatch_action = Pause int | Throttled | Send height

text \<open>One round of the loop at time \<open>now\<close>; \<open>rested\<close> tells that the pause of this round is over.\<close>

definition dispatchRound :: "nat \<Rightarrow> int \<Rightarrow> int \<Rightarrow> bool \<Rightarrow> int \<Rightarrow> height \<Rightarrow> height \<Rightarrow> dispatch_action" where
  "dispatchRound workers blocksPerMinute now rested lastDispatch nextBlock frontier =
     (let mi = minInterval blocksPerMinute; elapsed = now - lastDispatch in
      if 0 < mi \<and> \<not> rested \<and> elapsed < mi then Pause (mi - elapsed)
      else if nextBlock - frontier \<ge> int (workers * DefaultWorkersAhead) then Throttled
      else Send nextBlock)"

section \<open>Runs and restarts\<close>

abbreviation maxRollbacksPerRun :: nat where "maxRollbacksPerRun \<equiv> 64"
abbreviation maxRollbacksPerHeight :: nat where "maxRollbacksPerHeight \<equiv> 3"

record runs_env =
  once :: "nat \<Rightarrow> proc \<Rightarrow> proc"
  ctxErr :: "nat \<Rightarrow> goerror"
  storedHash :: "nat \<Rightarrow> stored_query option"
  RollbackBlocks :: "nat \<Rightarrow> height \<Rightarrow> height \<Rightarrow> (height \<Rightarrow> hash option) \<Rightarrow> goerror option"

definition err_seed :: "height \<Rightarrow> goerror \<Rightarrow> goerror" where
  "err_seed n e = Wrapped (''query seed hash for block '' @ itoa n @ '': '') e []"

definition err_run_guard :: "nat \<Rightarrow> goerror" where
  "err_run_guard n = ErrMsg (''rollback guard: '' @ itoa (int n) @ '' rollbacks exceed the per-run limit of ''
     @ itoa (int maxRollbacksPerRun))"

definition err_height_guard :: "height \<Rightarrow> nat \<Rightarrow> goerror" where
  "err_height_guard h n = ErrMsg (''rollback guard: height '' @ itoa h @ '' rolled back '' @ itoa (int n)
     @ '' times, exceeding the limit of '' @ itoa (int maxRollbacksPerHeight)
     @ '' - the RPC node may persistently serve forked data'')"

definition err_no_handler :: "height \<Rightarrow> goerror" where
  "err_no_handler h = ErrMsg (''reorg detected at height '' @ itoa h @ '' but no rollback handler is configured'')"

definition err_rollback :: "height \<Rightarrow> height \<Rightarrow> goerror \<Rightarrow> goerror" where
  "err_rollback a b e = Wrapped (''rollback blocks ['' @ itoa a @ '', '' @ itoa b @ '']: '') e
     '' (partial rollback followed by re-indexing would leave duplicate heights; indexing stopped)''"

definition resolveSeed :: "stored_query option \<Rightarrow> (height \<Rightarrow> hash option) \<Rightarrow> height \<Rightarrow> hash result" where
  "resolveSeed hnd committed startBlock =
     (if startBlock \<le> 0 then Inr []
      else let seed = (case committed (startBlock - 1) of Some h \<Rightarrow> h | None \<Rightarrow> []) in
        if seed \<noteq> [] then Inr seed
        else case hnd of None \<Rightarrow> Inr seed
        | Some query \<Rightarrow> (case query (startBlock - 1) of
            Inl e \<Rightarrow> Inl (err_seed (startBlock - 1) e) | Inr h \<Rightarrow> Inr h))"

definition processBlocksOnce ::
  "runs_env \<Rightarrow> nat \<Rightarrow> height \<Rightarrow> hash \<Rightarrow> height \<Rightarrow> (height \<Rightarrow> nat) \<Rightarrow> nat \<Rightarrow> rollbackPoint option \<times> goerror \<times> proc" where
  "processBlocksOnce env k startBlock seed cs hr er = (let s = once env k (init_run startBlock seed cs hr er) in
     (map_option (\<lambda>rb. rb\<lparr>oldTip := dispatchedUpTo s\<rparr>) (rollback s), ctxErr env k, s))"

definition fatalFailure :: "proc \<Rightarrow> goerror option" where
  "fatalFailure s = fatalErr s"

text \<open>The loop of \<open>ProcessBlocks\<close>. A panic of the collector ends the process. \<open>None\<close> is not returning.\<close>

partial_function (option) restart_loop ::
  "runs_env \<Rightarrow> nat \<Rightarrow> height \<Rightarrow> hash \<Rightarrow> height \<Rightarrow> (height \<Rightarrow> nat) \<Rightarrow> nat \<Rightarrow> goerror outcome option" where
  "restart_loop env k from seed cs hr er = (case processBlocksOnce env k from seed cs hr er of (rb, err, s) \<Rightarrow>
     if panicked s then Some Panics
     else case fatalFailure s of Some e \<Rightarrow> Some (Returns e)
     | None \<Rightarrow> (case rb of None \<Rightarrow> Some (Returns err)
     | Some p \<Rightarrow>
        (let restart = forkPoint p + 1; rollbacks = episodeRollbacks s + 1;
             hr' = (heightRollbacks s)(restart := heightRollbacks s restart + 1)
         in if rollbacks > maxRollbacksPerRun then Some (Returns (err_run_guard rollbacks))
         else if hr' restart > maxRollbacksPerHeight then Some (Returns (err_height_guard restart (hr' restart)))
         else if storedHash env k = None then Some (Returns (err_no_handler restart))
         else case RollbackBlocks env k restart (oldTip p) (chainHashes p) of
           Some e \<Rightarrow> Some (Returns (err_rollback restart (oldTip p) e))
         | None \<Rightarrow> (case resolveSeed (storedHash env k) (committedHashes s) restart of
             Inl e \<Rightarrow> Some (Returns e)
           | Inr seed' \<Rightarrow> restart_loop env (Suc k) restart seed' cs hr' rollbacks))))"

definition ProcessBlocks :: "runs_env \<Rightarrow> height \<Rightarrow> (height \<Rightarrow> hash option) \<Rightarrow> height \<Rightarrow> goerror outcome option" where
  "ProcessBlocks env configured committed startBlock =
     (case resolveSeed (storedHash env 0) committed startBlock of
        Inl e \<Rightarrow> Some (Returns e)
      | Inr seed \<Rightarrow> restart_loop env 0 startBlock seed (min startBlock configured) (\<lambda>_. 0) 0)"

section \<open>Lemmas\<close>

text \<open>A pool worker reports what the step relation of a run expects.\<close>

lemma store_attempts_ok:
  "result_ok (fst (snd (store_attempts env store n h attempt left w)))"
  by (induction env store n h attempt left w rule: store_attempts.induct)
    (auto simp: result_ok_def Let_def split: option.splits prod.splits sum.splits)

lemma runStoreTask_completion:
  "completion_of it (fst (snd (runStoreTask env Store hnd it w)))"
proof -
  obtain w' r b where eq: "storeWithRetry env Store (br_Num it) (br_Converted it) w = (w', r, b)" by (metis prod_cases3)
  then have "result_ok r" using store_attempts_ok unfolding storeWithRetry_def by (metis fst_conv snd_conv)
  then show ?thesis by (auto simp: runStoreTask_def eq completion_of_def split: option.splits)
qed

text \<open>A run that commits nothing leaves the rollback counters as they were.\<close>

lemma quiet_run_counters:
  assumes "reach workers (init_run start seed cs hr er) s" and "callbacks s = []"
  shows "episodeRollbacks s = er \<and> heightRollbacks s = hr"
proof -
  have "commits (init_run start seed cs hr er) s" using reach_keeps [OF assms(1) init_inv] by (simp add: keeps_def)
  then show ?thesis using assms(2) by (auto simp: commits_def counters_def init_run_def)
qed

lemma restart_loop_returns:
  assumes runs: "\<And>k s0. reach workers s0 (once env k s0)"
    and quiet: "\<And>k start seed cs hr er. k0 \<le> k \<Longrightarrow> callbacks (once env k (init_run start seed cs hr er)) = []"
  shows "k0 \<le> k \<Longrightarrow> \<exists>r. restart_loop env k from seed cs hr er = Some r"
proof (induction "maxRollbacksPerRun - er" arbitrary: k "from" seed hr er rule: less_induct)
  case less
  let ?s = "once env k (init_run from seed cs hr er)"
  have c: "episodeRollbacks ?s = er \<and> heightRollbacks ?s = hr"
    by (rule quiet_run_counters [OF runs quiet [OF less.prems]])
  note unf = restart_loop.simps [of env k "from" seed cs hr er]
  show ?case
  proof (cases "er < maxRollbacksPerRun")
    case False
    then show ?thesis unfolding unf
      using c by (auto simp: processBlocksOnce_def Let_def split: option.splits)
  next
    case True
    then have "\<exists>r. restart_loop env (Suc k) from' seed' cs hr' (er + 1) = Some r" for from' seed' hr'
      using less.prems by (intro less.hyps) auto
    then show ?thesis unfolding unf
      using c by (auto simp: processBlocksOnce_def Let_def split: option.splits sum.splits)
  qed
qed

lemma restart_loop_step:
  "(\<exists>r. restart_loop env k from seed cs hr er = Some r)
   \<or> (\<exists>from' seed' hr' er'. restart_loop env k from seed cs hr er = restart_loop env (Suc k) from' seed' cs hr' er')"
proof -
  obtain rb err s where eq: "processBlocksOnce env k from seed cs hr er = (rb, err, s)" by (metis prod_cases3)
  note unf = restart_loop.simps [of env k "from" seed cs hr er, unfolded eq prod.case]
  show ?thesis
  proof (cases "panicked s \<or> fatalFailure s \<noteq> None \<or> rb = None")
    case True
    then show ?thesis unfolding unf by (auto split: option.splits)
  next
    case False
    then obtain p where p: "rb = Some p" "\<not> panicked s" "fatalFailure s = None" by auto
    show ?thesis unfolding unf p Let_def
      by (simp split: option.splits sum.splits) blast
  qed
qed

section \<open>Properties\<close>

text \<open>C7: restarting after reorgs always ends. If from some run on the node only produces forks, so that
  no further block is committed, \<open>ProcessBlocks\<close> returns instead of rolling back for ever, whatever
  the runs before did and whatever the reorg handler answers.\<close>

theorem ProcessBlocks_returns:
  assumes "\<forall>k s0. reach workers s0 (once env k s0)"
    and "\<forall>k \<ge> k0. \<forall>start seed cs hr er. callbacks (once env k (init_run start seed cs hr er)) = []"
  shows "\<exists>r. ProcessBlocks env configured committed startBlock = Some r"
proof -
  have late: "\<exists>r. restart_loop env k from seed cs hr er = Some r" if "k0 \<le> k" for k "from" seed cs hr er
    by (rule restart_loop_returns [of workers env k0]) (use assms that in auto)
  have "\<exists>r. restart_loop env k from seed cs hr er = Some r" for k "from" seed cs hr er
  proof (induction "k0 - k" arbitrary: k "from" seed hr er)
    case 0
    then show ?case using late by simp
  next
    case (Suc d)
    then have "d = k0 - Suc k" by simp
    from Suc.hyps(1) [OF this] show ?case
      using restart_loop_step [of env k "from" seed cs hr er] by metis
  qed
  then show ?thesis by (auto simp: ProcessBlocks_def split: sum.splits)
qed

definition forked_runs :: runs_env where
  "forked_runs = \<lparr>once = (\<lambda>k s0. if s0 = fork0 then fork3 else s0), ctxErr = (\<lambda>_. ErrMsg ''context canceled''),
     storedHash = (\<lambda>_. Some demo_query), RollbackBlocks = (\<lambda>_ _ _ _. None)\<rparr>"

theorem ProcessBlocks_returns_witness: "\<exists>r. ProcessBlocks forked_runs 3 (\<lambda>_. None) 10 = Some r"
  by (rule ProcessBlocks_returns [of 1 forked_runs 0])
    (auto simp: forked_runs_def fork3_reach [simplified] reach.start fork3_callbacks init_run_def)

end
