(* ===== verification/Block_Handler.thy ===== *)
theory Block_Handler
  imports Continuity Prune_Queue "HOL-Library.List_Lexorder" "HOL-Library.Char_ord"
begin

text \<open>
  File \<open>pkg/defra/block_handler.go\<close>: storing the documents of a converted block and signing it.

  DefraDB is the record \<open>blockDB\<close> of the calls the handler makes, over a world \<open>'w\<close>; the injectable
  functions of the handler are fields of the record \<open>BlockHandler\<close>, as in the source. A transaction is
  the list of documents added to it. The collector of the context is the list of the CIDs of the
  documents added so far; operations that write return it updated. Go returns docIDs next to an error,
  so the writing operations return both.
\<close>

section \<open>Data\<close>

type_synonym cid = string
type_synonym txn = "(string \<times> doc) list"

record BlockCreationResult =
  bc_BlockNumber :: height
  bc_BlockID :: docID
  bc_BlockSignatureID :: docID
  bc_BlockSignatureCollection :: string
  bc_OtherDocIDs :: "string \<Rightarrow> docID list"

record BatchSignature =
  sig_Type :: string
  sig_Identity :: string
  sig_Value :: "byte list"
  sig_MerkleRoot :: "byte list"
  sig_CIDCount :: nat

text \<open>The client interface of the database. \<open>AddDocument\<close> and \<open>AddManyDocuments\<close> also return the CIDs
  they hand to the collector; \<open>DocIDString\<close> is \<open>doc.ID().String()\<close>, derived from the content.\<close>

record 'w blockDB =
  NewTxn :: "'w \<Rightarrow> 'w \<times> goerror option"
  GetCollectionByName :: "'w \<Rightarrow> string \<Rightarrow> goerror option"
  NewDocFromMap :: "string \<Rightarrow> doc \<Rightarrow> goerror option"
  AddDocument :: "'w \<Rightarrow> txn \<Rightarrow> string \<Rightarrow> doc \<Rightarrow> goerror option \<times> cid list"
  AddManyDocuments :: "'w \<Rightarrow> string \<Rightarrow> doc list \<Rightarrow> goerror option \<times> cid list"
  Commit :: "'w \<Rightarrow> txn \<Rightarrow> 'w \<times> goerror option"
  DocIDString :: "string \<Rightarrow> doc \<Rightarrow> docID"
  ExecRequest :: "'w \<Rightarrow> exec_request"

text \<open>\<open>batchWait\<close> is the outcome of the select between a backoff delay and the end of the context in
  \<open>writeBatchWithRetry\<close>; \<open>ctxErrAt\<close> and \<open>cidWait\<close> those of \<open>waitForCIDs\<close>, per attempt. The CIDs found by an
  attempt may differ from attempt to attempt.\<close>

record 'w BlockHandler =
  bh_db :: "'w blockDB option"
  bh_maxDocsPerTxn :: int
  docIDTracker :: "('w \<Rightarrow> height \<Rightarrow> BlockCreationResult \<Rightarrow> 'w \<times> goerror option) option"
  signBatchFn :: "cid list \<Rightarrow> BatchSignature option result"
  verifyBatchSigFn :: "BatchSignature \<Rightarrow> cid list \<Rightarrow> bool result"
  collectDocCIDsFn :: "'w \<Rightarrow> nat \<Rightarrow> docID list \<Rightarrow> string list \<Rightarrow> cid list result"
  maxCIDRetries :: nat
  batchWait :: "nat \<Rightarrow> goerror option"
  ctxErrAt :: "nat \<Rightarrow> goerror option"
  cidWait :: "nat \<Rightarrow> goerror option"

section \<open>Small helpers\<close>

text \<open>Durations are \<open>int64\<close> nanoseconds, so doubling wraps around.\<close>

definition wrap64 :: "int \<Rightarrow> int" where
  "wrap64 x = (x + 2 ^ 63) mod 2 ^ 64 - 2 ^ 63"

definition retryBackoff :: "nat \<Rightarrow> int" where
  "retryBackoff attempt = (let d = ((\<lambda>d. wrap64 (d * 2)) ^^ attempt) (500 * 1000000) in
     if d > 8 * second then 8 * second else d)"

datatype key_type = KeyTypeSecp256k1 | KeyTypeEd25519 | KeyTypeOther string

record signing_identity =
  isFullIdentity :: bool
  key_of :: key_type
  publicKeyText :: string
  Sign :: "byte list \<Rightarrow> byte list result"

abbreviation errNoIdentity :: goerror where "errNoIdentity \<equiv> Sentinel ''no identity available for signing''"

text \<open>The node identity, or else the one of the context; \<open>merkle\<close> is \<open>node.ComputeMerkleRoot\<close>.\<close>

definition defaultSignBatch ::
  "(cid list \<Rightarrow> byte list) \<Rightarrow> signing_identity option \<Rightarrow> signing_identity option \<Rightarrow> cid list \<Rightarrow> BatchSignature option result" where
  "defaultSignBatch merkle nodeIdentity ctxIdentity cids =
     (case (case nodeIdentity of Some i \<Rightarrow> Some i | None \<Rightarrow> ctxIdentity) of
        None \<Rightarrow> Inl errNoIdentity
      | Some i \<Rightarrow>
          if \<not> isFullIdentity i then Inl (ErrMsg ''identity is not a FullIdentity'')
          else let merkleRoot = merkle cids in
            case Sign i merkleRoot of Inl e \<Rightarrow> Inl (Wrapped ''sign merkle root: '' e [])
            | Inr sigValue \<Rightarrow>
                (let sig = (\<lambda>t. \<lparr>sig_Type = t, sig_Identity = publicKeyText i, sig_Value = sigValue,
                       sig_MerkleRoot = merkleRoot, sig_CIDCount = length cids\<rparr>)
                 in case key_of i of
                      KeyTypeSecp256k1 \<Rightarrow> Inr (Some (sig ''ES256K''))
                    | KeyTypeEd25519 \<Rightarrow> Inr (Some (sig ''EdDSA''))
                    | KeyTypeOther t \<Rightarrow> Inl (ErrMsg (''unsupported key type: '' @ t))))"

definition buildDocIDJSONArray :: "docID list \<Rightarrow> string" where
  "buildDocIDJSONArray docIDs = ''['' @ join '','' (map (\<lambda>i. [CHR 0x22] @ i @ [CHR 0x22]) docIDs) @ '']''"

definition cid_query :: "string \<Rightarrow> string \<Rightarrow> string" where
  "cid_query colName idsJSON = ''query { '' @ colName @ ''(filter: {_docID: {_in: '' @ idsJSON @ ''}}) { _version { cid } } }''"

text \<open>The maps of a \<open>[]any\<close> or \<open>[]map[string]any\<close> value; elements that are no maps are skipped.\<close>

definition maps_of :: "any \<Rightarrow> doc list" where
  "maps_of v = (case rows_of v of None \<Rightarrow> [] | Some rs \<Rightarrow> List.map_filter as_map rs)"

text \<open>\<open>decode\<close> is \<open>cid.Decode\<close>.\<close>

definition extractCIDsFromCollection :: "(string \<Rightarrow> cid option) \<Rightarrow> exec_request \<Rightarrow> string \<Rightarrow> string \<Rightarrow> cid list" where
  "extractCIDsFromCollection decode exec colName idsJSON = (let res = exec (cid_query colName idsJSON) in
     if gql_Errors res \<noteq> [] then []
     else case as_map (gql_Data res) of None \<Rightarrow> []
     | Some data \<Rightarrow> concat (map (\<lambda>docMap. List.map_filter (\<lambda>vMap.
           let cidStr = string_or_empty (mget vMap ''cid'') in if cidStr = [] then None else decode cidStr)
         (maps_of (mget docMap ''_version''))) (maps_of (mget data colName))))"

definition defaultCollectDocCIDs ::
  "(string \<Rightarrow> cid option) \<Rightarrow> exec_request \<Rightarrow> docID list \<Rightarrow> string list \<Rightarrow> cid list result" where
  "defaultCollectDocCIDs decode exec docIDs collectionNames =
     (if docIDs = [] then Inr []
      else Inr (concat (map (\<lambda>c. extractCIDsFromCollection decode exec c (buildDocIDJSONArray docIDs)) collectionNames)))"

definition sortedCIDStrings :: "cid list \<Rightarrow> string list" where
  "sortedCIDStrings cids = sort cids"

definition toInt64 :: "any \<Rightarrow> int result" where
  "toInt64 v = (case v of AInt64 n \<Rightarrow> Inr n | AInt n \<Rightarrow> Inr n | AFloat64 r \<Rightarrow> Inr (trunc_real r)
     | _ \<Rightarrow> Inl (ErrMsg (''expected numeric type, got '' @ go_type v)))"

definition NewBlockHandler ::
  "'w blockDB option \<Rightarrow> (cid list \<Rightarrow> byte list) \<Rightarrow> (string \<Rightarrow> cid option) \<Rightarrow> (BatchSignature \<Rightarrow> cid list \<Rightarrow> bool result) \<Rightarrow>
   int \<Rightarrow> signing_identity option \<Rightarrow> int \<Rightarrow> 'w BlockHandler result" where
  "NewBlockHandler defraDB merkle decode verify now ctxIdentity maxDocs = (case defraDB of
     None \<Rightarrow> Inl (NewConfigurationError now ''defra'' ''NewBlockHandler'' ''defraNode is nil'' [] None [])
   | Some d \<Rightarrow> Inr \<lparr>bh_db = Some d, bh_maxDocsPerTxn = (if maxDocs \<le> 0 then 1000 else maxDocs), docIDTracker = None,
       signBatchFn = defaultSignBatch merkle None ctxIdentity, verifyBatchSigFn = verify,
       collectDocCIDsFn = (\<lambda>w _ ids names. defaultCollectDocCIDs decode (ExecRequest d w) ids names),
       maxCIDRetries = 15, batchWait = (\<lambda>_. None), ctxErrAt = (\<lambda>_. None), cidWait = (\<lambda>_. None)\<rparr>)"

section \<open>Writing documents\<close>

fun first_error :: "('a \<Rightarrow> goerror option) \<Rightarrow> 'a list \<Rightarrow> goerror option" where
  "first_error f [] = None"
| "first_error f (x # xs) = (case f x of None \<Rightarrow> first_error f xs | Some e \<Rightarrow> Some e)"

definition storeBlockDoc :: "'w blockDB \<Rightarrow> doc \<Rightarrow> string \<Rightarrow> 'w \<Rightarrow> cid list \<Rightarrow> 'w \<times> cid list \<times> docID result" where
  "storeBlockDoc d blockData blockColName w cs = (case NewTxn d w of
     (w, Some e) \<Rightarrow> (w, cs, Inl (Wrapped ''create txn for block: '' e []))
   | (w, None) \<Rightarrow> (case GetCollectionByName d w blockColName of
       Some e \<Rightarrow> (w, cs, Inl (Wrapped ''get block collection: '' e []))
     | None \<Rightarrow> (case NewDocFromMap d blockColName blockData of
         Some e \<Rightarrow> (w, cs, Inl (Wrapped ''build block document: '' e []))
       | None \<Rightarrow> (case AddDocument d w [] blockColName blockData of
           (Some e, added) \<Rightarrow> (w, cs @ added,
             if IsErrAlreadyExists (Some e) then Inl (ErrMsg ''block already exists'')
             else Inl (Wrapped ''create block: '' e []))
         | (None, added) \<Rightarrow> (case Commit d w [(blockColName, blockData)] of
             (w, Some e) \<Rightarrow> (w, cs @ added, Inl (Wrapped ''commit block: '' e []))
           | (w, None) \<Rightarrow> (w, cs @ added, Inr (DocIDString d blockColName blockData)))))))"

text \<open>The loop of \<open>addDocsSkipExisting\<close>: the collector, and the documents added and the number skipped.\<close>

fun add_each :: "'w blockDB \<Rightarrow> 'w \<Rightarrow> string \<Rightarrow> doc list \<Rightarrow> txn \<Rightarrow> cid list \<Rightarrow> nat \<Rightarrow> cid list \<times> (txn \<times> nat) result" where
  "add_each d w colName [] t cs skipped = (cs, Inr (t, skipped))"
| "add_each d w colName (data # rest) t cs skipped = (case NewDocFromMap d colName data of
     Some e \<Rightarrow> (cs, Inl (Wrapped (''create doc in '' @ colName @ '': '') e []))
   | None \<Rightarrow> (case AddDocument d w t colName data of
       (Some e, added) \<Rightarrow>
         if \<not> IsErrAlreadyExists (Some e) then (cs @ added, Inl (Wrapped (''add document to '' @ colName @ '': '') e []))
         else add_each d w colName rest t (cs @ added) (skipped + 1)
     | (None, added) \<Rightarrow> add_each d w colName rest (t @ [(colName, data)]) (cs @ added) skipped))"

abbreviation doc_ids :: "'w blockDB \<Rightarrow> txn \<Rightarrow> docID list" where
  "doc_ids d t \<equiv> map (\<lambda>(c, x). DocIDString d c x) t"

definition addDocsSkipExisting ::
  "'w blockDB \<Rightarrow> string \<Rightarrow> doc list \<Rightarrow> 'w \<Rightarrow> cid list \<Rightarrow> 'w \<times> cid list \<times> (docID list \<times> nat) result" where
  "addDocsSkipExisting d colName dataMaps w cs = (case NewTxn d w of
     (w, Some e) \<Rightarrow> (w, cs, Inl (Wrapped (''create txn for '' @ colName @ '': '') e []))
   | (w, None) \<Rightarrow> (case GetCollectionByName d w colName of
       Some e \<Rightarrow> (w, cs, Inl (Wrapped (''get collection '' @ colName @ '': '') e []))
     | None \<Rightarrow> (case add_each d w colName dataMaps [] cs 0 of
         (cs, Inl e) \<Rightarrow> (w, cs, Inl e)
       | (cs, Inr (t, skipped)) \<Rightarrow>
           if t = [] then (w, cs, Inr ([], skipped))
           else (case Commit d w t of
             (w, Some e) \<Rightarrow> (w, cs, Inl (Wrapped (''commit '' @ colName @ '' batch: '') e []))
           | (w, None) \<Rightarrow> (w, cs, Inr (doc_ids d t, skipped))))))"

definition err_previously_stored :: "string \<Rightarrow> nat \<Rightarrow> nat \<Rightarrow> goerror" where
  "err_previously_stored colName skipped n = ErrMsg (colName @ '' batch: '' @ itoa (int skipped) @ '' of '' @ itoa (int n)
     @ '' documents were previously stored'')"

definition writeBatchSkipExisting ::
  "'w blockDB \<Rightarrow> string \<Rightarrow> doc list \<Rightarrow> 'w \<Rightarrow> cid list \<Rightarrow> 'w \<times> cid list \<times> docID list \<times> goerror option" where
  "writeBatchSkipExisting d colName dataMaps w cs = (case addDocsSkipExisting d colName dataMaps w cs of
     (w, cs, Inl e) \<Rightarrow> (w, cs, [], Some (Wrapped (''write '' @ colName @ '' batch per-document: '') e []))
   | (w, cs, Inr (ids, skipped)) \<Rightarrow>
       (w, cs, ids, if skipped > 0 then Some (err_previously_stored colName skipped (length dataMaps)) else None))"

definition createDocsInTxn ::
  "'w blockDB \<Rightarrow> string \<Rightarrow> doc list \<Rightarrow> 'w \<Rightarrow> cid list \<Rightarrow> 'w \<times> cid list \<times> docID list \<times> goerror option" where
  "createDocsInTxn d colName dataMaps w cs = (case NewTxn d w of
     (w, Some e) \<Rightarrow> (w, cs, [], Some (Wrapped (''create txn for '' @ colName @ '': '') e []))
   | (w, None) \<Rightarrow> (case GetCollectionByName d w colName of
       Some e \<Rightarrow> (w, cs, [], Some (Wrapped (''get collection '' @ colName @ '': '') e []))
     | None \<Rightarrow> (case first_error (NewDocFromMap d colName) dataMaps of
         Some e \<Rightarrow> (w, cs, [], Some (Wrapped (''create doc in '' @ colName @ '': '') e []))
       | None \<Rightarrow>
           if dataMaps = [] then (w, cs, [], None)
           else (case AddManyDocuments d w colName dataMaps of
             (Some e, added) \<Rightarrow>
               if \<not> IsErrAlreadyExists (Some e)
               then (w, cs @ added, [], Some (Wrapped (''add documents to '' @ colName @ '': '') e []))
               else writeBatchSkipExisting d colName dataMaps w (cs @ added)
           | (None, added) \<Rightarrow> (case Commit d w (map (Pair colName) dataMaps) of
               (w, Some e) \<Rightarrow> (w, cs @ added, [], Some (Wrapped (''commit '' @ colName @ '' batch: '') e []))
             | (w, None) \<Rightarrow> (w, cs @ added, map (DocIDString d colName) dataMaps, None))))))"

abbreviation maxBatchRetries :: nat where "maxBatchRetries \<equiv> 3"

text \<open>\<open>write\<close> also returns the docIDs its closure assigns; \<open>left\<close> counts the remaining attempts.\<close>

fun batch_attempts ::
  "(nat \<Rightarrow> goerror option) \<Rightarrow> ('w \<Rightarrow> cid list \<Rightarrow> 'w \<times> cid list \<times> docID list \<times> goerror option) \<Rightarrow>
   nat \<Rightarrow> nat \<Rightarrow> docID list \<Rightarrow> 'w \<Rightarrow> cid list \<Rightarrow> 'w \<times> cid list \<times> docID list \<times> goerror option" where
  "batch_attempts delay write attempt 0 ids w cs = (w, cs, ids, None)"
| "batch_attempts delay write attempt (Suc left) ids w cs = (case write w cs of
     (w, cs', ids, None) \<Rightarrow> (w, cs', ids, None)
   | (w, cs', ids, Some err) \<Rightarrow>
       (let cs = take (length cs) cs' in
        if \<not> IsErrTransactionConflict (Some err) then (w, cs, ids, Some err)
        else if attempt = maxBatchRetries - 1 then (w, cs, ids, Some err)
        else case delay attempt of Some e \<Rightarrow> (w, cs, ids, Some e)
        | None \<Rightarrow> batch_attempts delay write (attempt + 1) left ids w cs))"

definition writeBatchWithRetry ::
  "'w BlockHandler \<Rightarrow> ('w \<Rightarrow> cid list \<Rightarrow> 'w \<times> cid list \<times> docID list \<times> goerror option) \<Rightarrow>
   'w \<Rightarrow> cid list \<Rightarrow> 'w \<times> cid list \<times> docID list \<times> goerror option" where
  "writeBatchWithRetry h write w cs = batch_attempts (batchWait h) write 0 maxBatchRetries [] w cs"

fun write_batches ::
  "'w BlockHandler \<Rightarrow> 'w blockDB \<Rightarrow> string \<Rightarrow> doc list list \<Rightarrow> docID list \<Rightarrow> 'w \<Rightarrow> cid list \<Rightarrow>
   'w \<times> cid list \<times> docID list \<times> goerror option" where
  "write_batches h d colName [] allIDs w cs = (w, cs, allIDs, None)"
| "write_batches h d colName (batch # rest) allIDs w cs =
     (case writeBatchWithRetry h (createDocsInTxn d colName batch) w cs of
        (w, cs, ids, Some e) \<Rightarrow> (w, cs, allIDs @ ids, Some e)
      | (w, cs, ids, None) \<Rightarrow> write_batches h d colName rest (allIDs @ ids) w cs)"

definition createDocBatch ::
  "'w BlockHandler \<Rightarrow> 'w blockDB \<Rightarrow> string \<Rightarrow> doc list \<Rightarrow> int \<Rightarrow> 'w \<Rightarrow> cid list \<Rightarrow>
   'w \<times> cid list \<times> docID list \<times> goerror option" where
  "createDocBatch h d colName dataMaps batchSize w cs =
     write_batches h d colName (chunks (nat batchSize) dataMaps) [] w cs"

definition writeGroup ::
  "'w BlockHandler \<Rightarrow> 'w blockDB \<Rightarrow> DocumentGroup \<Rightarrow> doc list \<Rightarrow> 'w \<Rightarrow> cid list \<Rightarrow> 'w \<times> cid list \<times> docID list \<times> goerror option" where
  "writeGroup h d g ds w cs = createDocBatch h d (Collection g) ds
     (if BatchSize g \<le> 0 then bh_maxDocsPerTxn h else BatchSize g) w cs"

section \<open>Signing\<close>

text \<open>\<open>createdAt\<close> is the RFC 3339 text of the current time.\<close>

definition buildBlockSignatureDocument :: "string \<Rightarrow> BatchSignature \<Rightarrow> hash \<Rightarrow> height \<Rightarrow> string list \<Rightarrow> doc" where
  "buildBlockSignatureDocument createdAt blockSig blockHash blockNumber sortedCIDs =
     [''blockNumber'' \<mapsto> AInt64 blockNumber, ''blockHash'' \<mapsto> AString blockHash,
      ''merkleRoot'' \<mapsto> AString (hex_encode (sig_MerkleRoot blockSig)), ''cidCount'' \<mapsto> AInt (int (sig_CIDCount blockSig)),
      ''cids'' \<mapsto> AStrings sortedCIDs, ''signatureType'' \<mapsto> AString (sig_Type blockSig),
      ''signatureIdentity'' \<mapsto> AString (sig_Identity blockSig),
      ''signatureValue'' \<mapsto> AString (hex_encode (sig_Value blockSig)), ''createdAt'' \<mapsto> AString createdAt]"

definition signBlockOverCIDs ::
  "'w BlockHandler \<Rightarrow> 'w blockDB \<Rightarrow> string \<Rightarrow> height \<Rightarrow> hash \<Rightarrow> cid list \<Rightarrow> string \<Rightarrow> 'w \<Rightarrow> 'w \<times> docID result" where
  "signBlockOverCIDs h d createdAt blockNumber blockHash cids signatureCollection w = (case signBatchFn h cids of
     Inl e \<Rightarrow> (w, Inl (Wrapped ''failed to sign block: '' e []))
   | Inr None \<Rightarrow> (w, Inl (ErrMsg ''signing returned nil (no identity?)''))
   | Inr (Some blockSig) \<Rightarrow> (case verifyBatchSigFn h blockSig cids of
       Inl e \<Rightarrow> (w, Inl (Wrapped ''verify block signature: '' e []))
     | Inr False \<Rightarrow> (w, Inl (ErrMsg ''block signature failed self-verification''))
     | Inr True \<Rightarrow> (case NewTxn d w of
         (w, Some e) \<Rightarrow> (w, Inl (Wrapped ''failed to create signing transaction: '' e []))
       | (w, None) \<Rightarrow> (case GetCollectionByName d w signatureCollection of
           Some e \<Rightarrow> (w, Inl (Wrapped ''failed to get block signature collection: '' e []))
         | None \<Rightarrow>
             (let blockSigDoc = buildBlockSignatureDocument createdAt blockSig blockHash blockNumber (sortedCIDStrings cids)
              in case NewDocFromMap d signatureCollection blockSigDoc of
                 Some e \<Rightarrow> (w, Inl (Wrapped ''failed to build block signature document: '' e []))
               | None \<Rightarrow> (case AddDocument d w [] signatureCollection blockSigDoc of
                   (Some e, _) \<Rightarrow> (w, Inl (Wrapped ''failed to create block signature document: '' e []))
                 | (None, _) \<Rightarrow> (case Commit d w [(signatureCollection, blockSigDoc)] of
                     (w, Some e) \<Rightarrow> (w, Inl (Wrapped ''failed to commit block signature: '' e []))
                   | (w, None) \<Rightarrow> (w, Inr (DocIDString d signatureCollection blockSigDoc)))))))))"

definition signStoredBlock ::
  "'w BlockHandler \<Rightarrow> 'w blockDB \<Rightarrow> string \<Rightarrow> height \<Rightarrow> hash \<Rightarrow> docID list \<Rightarrow> goerror list \<Rightarrow> string \<Rightarrow> cid list \<Rightarrow> 'w \<Rightarrow> 'w \<times> docID" where
  "signStoredBlock h d createdAt blockInt blockHash allDocIDs batchErrors signatureCollection cids w =
     (if batchErrors \<noteq> [] then (w, [])
      else if length cids \<noteq> length allDocIDs then (w, [])
      else case signBlockOverCIDs h d createdAt blockInt blockHash cids signatureCollection w of
        (w, Inl _) \<Rightarrow> (w, []) | (w, Inr sigID) \<Rightarrow> (w, sigID))"

definition truncate_to :: "string \<Rightarrow> nat \<Rightarrow> string" where
  "truncate_to s n = (if length s \<le> n then s else take n s)"

text \<open>\<open>lastErr\<close> is never nil when the loop runs out with at least one attempt; \<open>%w\<close> of nil prints a
  placeholder.\<close>

definition err_no_cids :: "height \<Rightarrow> nat \<Rightarrow> nat \<Rightarrow> goerror \<Rightarrow> goerror" where
  "err_no_cids n retries ds e = Wrapped (''no CIDs found for block '' @ itoa n @ '' after '' @ itoa (int retries)
     @ '' retries ('' @ itoa (int ds) @ '' docs): '') e []"

definition err_incomplete_cids :: "height \<Rightarrow> nat \<Rightarrow> nat \<Rightarrow> nat \<Rightarrow> nat \<Rightarrow> goerror \<Rightarrow> goerror" where
  "err_incomplete_cids n retries found ds at_attempt e = Wrapped (''incomplete CID coverage for block '' @ itoa n
     @ '' after '' @ itoa (int retries) @ '' retries ('' @ itoa (int found) @ ''/'' @ itoa (int ds)
     @ '' docs as of attempt '' @ itoa (int at_attempt) @ ''/'' @ itoa (int retries) @ ''): '') e []"

fun cid_attempts ::
  "'w BlockHandler \<Rightarrow> 'w \<Rightarrow> height \<Rightarrow> docID list \<Rightarrow> string list \<Rightarrow> nat \<Rightarrow> nat \<Rightarrow> nat \<Rightarrow> nat \<Rightarrow> goerror \<Rightarrow> cid list result" where
  "cid_attempts h w n allDocIDs names attempt 0 lastCIDCount lastCountAttempt lastErr =
     Inl (if lastCIDCount = 0 then err_no_cids n (maxCIDRetries h) (length allDocIDs) lastErr
       else err_incomplete_cids n (maxCIDRetries h) lastCIDCount (length allDocIDs) lastCountAttempt lastErr)"
| "cid_attempts h w n allDocIDs names attempt (Suc left) lastCIDCount lastCountAttempt lastErr =
     (let pause = (if attempt < maxCIDRetries h - 1 then cidWait h attempt else None) in
      case ctxErrAt h attempt of Some e \<Rightarrow> Inl e
      | None \<Rightarrow> (case collectDocCIDsFn h w attempt allDocIDs names of
          Inl e \<Rightarrow> (case pause of Some e \<Rightarrow> Inl e
            | None \<Rightarrow> cid_attempts h w n allDocIDs names (attempt + 1) left lastCIDCount lastCountAttempt e)
        | Inr cids \<Rightarrow>
            if length cids \<ge> length allDocIDs then Inr cids
            else (case pause of Some e \<Rightarrow> Inl e
              | None \<Rightarrow> cid_attempts h w n allDocIDs names (attempt + 1) left (length cids) (attempt + 1)
                  (ErrMsg (''got '' @ itoa (int (length cids)) @ '' CIDs for '' @ itoa (int (length allDocIDs)) @ '' docs'')))))"

definition waitForCIDs :: "'w BlockHandler \<Rightarrow> 'w \<Rightarrow> height \<Rightarrow> docID list \<Rightarrow> string list \<Rightarrow> cid list result" where
  "waitForCIDs h w n allDocIDs names = cid_attempts h w n allDocIDs names 0 (maxCIDRetries h) 0 0 (ErrMsg ''%!w(<nil>)'')"

definition handlerDocIDs :: "exec_request \<Rightarrow> string \<Rightarrow> string \<Rightarrow> height \<Rightarrow> height \<Rightarrow> docID list result" where
  "handlerDocIDs exec colName field from to = query_chunks exec colName field from to []"

definition err_incomplete_block :: "height \<Rightarrow> string \<Rightarrow> nat \<Rightarrow> nat \<Rightarrow> goerror" where
  "err_incomplete_block n col found expected = ErrMsg (''failed to sign incomplete block '' @ itoa n @ '': collection '' @ col
     @ '' has '' @ itoa (int found) @ '' stored docs, expected '' @ itoa (int expected))"

fun existing_ids :: "exec_request \<Rightarrow> height \<Rightarrow> DocumentGroup list \<Rightarrow> docID list \<Rightarrow> string list \<Rightarrow> (docID list \<times> string list) result" where
  "existing_ids exec n [] allDocIDs collectionNames = Inr (allDocIDs, collectionNames)"
| "existing_ids exec n (g # gs) allDocIDs collectionNames =
     (if BlockNumField g = [] then Inl (ErrMsg (''group '' @ Collection g @ '' has empty BlockNumField''))
      else case handlerDocIDs exec (Collection g) (BlockNumField g) n n of
        Inl e \<Rightarrow> Inl (Wrapped (''query docIDs for '' @ Collection g @ '': '') e [])
      | Inr docIDs \<Rightarrow>
          if length docIDs < length (Docs g)
          then Inl (err_incomplete_block n (Collection g) (length docIDs) (length (Docs g)))
          else existing_ids exec n gs (allDocIDs @ docIDs) (collectionNames @ [Collection g]))"

definition SignExisting ::
  "'w BlockHandler \<Rightarrow> string \<Rightarrow> DocumentGroup list \<Rightarrow> string \<Rightarrow> hash \<Rightarrow> height \<Rightarrow> 'w \<Rightarrow> 'w \<times> docID result" where
  "SignExisting h createdAt groups signatureCollection blockHash blockNumber w = (case bh_db h of
     None \<Rightarrow> (w, Inl (ErrMsg ''defraNode is nil''))
   | Some d \<Rightarrow> (case existing_ids (ExecRequest d w) blockNumber groups [] [] of
       Inl e \<Rightarrow> (w, Inl e)
     | Inr (allDocIDs, collectionNames) \<Rightarrow> (case waitForCIDs h w blockNumber allDocIDs collectionNames of
         Inl e \<Rightarrow> (w, Inl e)
       | Inr cids \<Rightarrow> signBlockOverCIDs h d createdAt blockNumber blockHash cids signatureCollection w)))"

section \<open>Store\<close>

text \<open>The link stamper of the conversion result is given by its two operations and its state, absent
  when it is nil.\<close>

type_synonym 's stamp_fn = "'s \<Rightarrow> string \<Rightarrow> doc list \<Rightarrow> goerror option \<times> doc list"
type_synonym 's record_fn = "'s \<Rightarrow> string \<Rightarrow> doc list \<Rightarrow> docID list \<Rightarrow> goerror option \<times> 's"

definition stampBlockGroup :: "'s stamp_fn \<Rightarrow> 's option \<Rightarrow> DocumentGroup \<Rightarrow> doc list result" where
  "stampBlockGroup stamp st g = (case st of None \<Rightarrow> Inr (Docs g)
     | Some s \<Rightarrow> (case stamp s (Collection g) (Docs g) of
         (Some e, _) \<Rightarrow> Inl (Wrapped ''stamp block group: '' e []) | (None, ds) \<Rightarrow> Inr ds))"

definition stampGroup :: "'s stamp_fn \<Rightarrow> 's option \<Rightarrow> DocumentGroup \<Rightarrow> doc list result" where
  "stampGroup stamp st g = (case st of None \<Rightarrow> Inr (Docs g)
     | Some s \<Rightarrow> (case stamp s (Collection g) (Docs g) of (Some e, _) \<Rightarrow> Inl e | (None, ds) \<Rightarrow> Inr ds))"

definition recordGroup ::
  "'s record_fn \<Rightarrow> 's option \<Rightarrow> DocumentGroup \<Rightarrow> doc list \<Rightarrow> docID list \<Rightarrow> goerror list \<times> 's option" where
  "recordGroup rec st g ds ids = (case st of None \<Rightarrow> ([], None)
     | Some s \<Rightarrow> (case rec s (Collection g) ds ids of (Some e, s) \<Rightarrow> ([e], Some s) | (None, s) \<Rightarrow> ([], Some s)))"

text \<open>The loop over the groups after the block group: world, collector, docIDs per collection, all
  docIDs and the batch errors.\<close>

fun store_groups ::
  "'s stamp_fn \<Rightarrow> 's record_fn \<Rightarrow> 'w BlockHandler \<Rightarrow> 'w blockDB \<Rightarrow> DocumentGroup list \<Rightarrow> 's option \<Rightarrow>
   (string \<Rightarrow> docID list) \<Rightarrow> docID list \<Rightarrow> goerror list \<Rightarrow> 'w \<Rightarrow> cid list \<Rightarrow>
   'w \<times> cid list \<times> (string \<Rightarrow> docID list) \<times> docID list \<times> goerror list" where
  "store_groups stamp rec h d [] st other allIDs errs w cs = (w, cs, other, allIDs, errs)"
| "store_groups stamp rec h d (g # gs) st other allIDs errs w cs = (case stampGroup stamp st g of
     Inl e \<Rightarrow> (w, cs, other, allIDs, errs @ [e])
   | Inr ds \<Rightarrow> (case writeGroup h d g ds w cs of (w, cs, ids, err) \<Rightarrow>
       (let other = other(Collection g := other (Collection g) @ ids); allIDs = allIDs @ ids in
        case err of Some e \<Rightarrow> (w, cs, other, allIDs, errs @ [e])
        | None \<Rightarrow> (case recordGroup rec st g ds ids of (es, st) \<Rightarrow>
            if es \<noteq> [] then (w, cs, other, allIDs, errs @ es)
            else store_groups stamp rec h d gs st other allIDs errs w cs))))"

definition err_partial :: "height \<Rightarrow> goerror list \<Rightarrow> goerror" where
  "err_partial n errs = Wrapped (''block '' @ itoa n @ '' partially indexed with '' @ itoa (int (length errs))
     @ '' batch errors (first: '') (hd errs) '')''"

text \<open>The docs of a group are stamped in place, so the block data written is the first stamped doc.\<close>

definition Store ::
  "'s stamp_fn \<Rightarrow> 's record_fn \<Rightarrow> 'w BlockHandler \<Rightarrow> int \<Rightarrow> string \<Rightarrow> DocumentGroup list \<Rightarrow> string \<Rightarrow> 's option \<Rightarrow> 'w \<Rightarrow>
   'w \<times> BlockCreationResult option \<times> goerror option" where
  "Store stamp rec h now createdAt groups signatureCollection st w = (case bh_db h of
     None \<Rightarrow> (w, None, Some (NewConfigurationError now ''defra'' ''Store'' ''store requires embedded DefraDB node'' [] None []))
   | Some d \<Rightarrow> (case groups of
       [] \<Rightarrow> (w, None, Some (ErrMsg ''no document groups to store''))
     | blockGroup # rest \<Rightarrow> (case Docs blockGroup of
         [] \<Rightarrow> (w, None, Some (ErrMsg ''no block document in groups''))
       | blockData # _ \<Rightarrow> (case toInt64 (mget blockData (BlockNumField blockGroup)) of
           Inl e \<Rightarrow> (w, None, Some (Wrapped ''invalid block number: '' e []))
         | Inr blockInt \<Rightarrow>
             (let blockHash = string_or_empty (mget blockData (BlockHashField blockGroup)) in
              case stampBlockGroup stamp st blockGroup of
                Inl e \<Rightarrow> (w, None, Some e)
              | Inr ds \<Rightarrow> (case storeBlockDoc d (hd ds) (Collection blockGroup) w [] of
                  (w, _, Inl e) \<Rightarrow> (w, None, Some e)
                | (w, cs, Inr bid) \<Rightarrow> (case recordGroup rec st blockGroup ds [bid] of (errs, st) \<Rightarrow>
                   (case store_groups stamp rec h d rest st (\<lambda>_. []) [bid] errs w cs of
                     (w, cs, other, allDocIDs, errs) \<Rightarrow>
                     (case signStoredBlock h d createdAt blockInt blockHash allDocIDs errs signatureCollection cs w of
                       (w, sigID) \<Rightarrow>
                       (let cr = \<lparr>bc_BlockNumber = blockInt, bc_BlockID = bid, bc_BlockSignatureID = sigID,
                              bc_BlockSignatureCollection = signatureCollection, bc_OtherDocIDs = other\<rparr>;
                            w = (case docIDTracker h of None \<Rightarrow> w | Some track \<Rightarrow> fst (track w blockInt cr))
                        in (w, Some cr, if errs \<noteq> [] then Some (err_partial blockInt errs) else None)))))))))))"

text \<open>What \<open>storeWithRetry\<close> calls for a converted EVM block.\<close>

definition evm_store ::
  "'w BlockHandler \<Rightarrow> int \<Rightarrow> string \<Rightarrow> ConversionResult \<Rightarrow> 'w \<Rightarrow> 'w \<times> BlockCreationResult option \<times> goerror option" where
  "evm_store h now createdAt r w =
     Store StampBeforeWrite RecordDocIDs h now createdAt (Groups r) (SignatureCollection r) (Some (LinkStamper r)) w"

end
