(* ===== verification/Block_Store.thy ===== *)
theory Block_Store
  imports Block_Handler "HOL-Library.Sublist"
begin

text \<open>
  What \<open>Store\<close> of \<open>pkg/defra/block_handler.go\<close> guarantees, for any database with the documented
  behaviour \<open>db_laws\<close>: every document it leaves in the store is reported for tracking, success means
  that all documents are stored, and only a complete block is signed, over exactly its own CIDs.
\<close>

section \<open>The database contract\<close>

text \<open>\<open>stored\<close> reads the docIDs per collection off the world, \<open>cidOf\<close> is the CID of a document. A
  transaction takes effect only by a successful commit; a document added is handed to the collector;
  adding a stored document fails with the text \<open>IsErrAlreadyExists\<close> looks for.\<close>

abbreviation txn_ids :: "'w blockDB \<Rightarrow> txn \<Rightarrow> (string \<times> docID) list" where
  "txn_ids d t \<equiv> map (\<lambda>(c, x). (c, DocIDString d c x)) t"

definition db_laws :: "'w blockDB \<Rightarrow> ('w \<Rightarrow> (string \<times> docID) set) \<Rightarrow> (string \<Rightarrow> doc \<Rightarrow> cid) \<Rightarrow> bool" where
  "db_laws d stored cidOf \<longleftrightarrow>
     (\<forall>w. stored (fst (NewTxn d w)) = stored w)
   \<and> (\<forall>w t. stored (fst (Commit d w t)) = stored w \<union> (if snd (Commit d w t) = None then set (txn_ids d t) else {}))
   \<and> (\<forall>w t c x. fst (AddDocument d w t c x) = None \<longrightarrow> snd (AddDocument d w t c x) = [cidOf c x])
   \<and> (\<forall>w c xs. fst (AddManyDocuments d w c xs) = None \<longrightarrow> snd (AddManyDocuments d w c xs) = map (cidOf c) xs)
   \<and> (\<forall>w t c x. (c, DocIDString d c x) \<in> stored w \<longrightarrow>
        (\<exists>e. fst (AddDocument d w t c x) = Some e \<and> IsErrAlreadyExists (Some e)))
   \<and> (\<forall>c x. DocIDString d c x \<noteq> [])"

lemma db_lawsD:
  assumes "db_laws d stored cidOf"
  shows "NewTxn d w = (w', r) \<Longrightarrow> stored w' = stored w"
    and "Commit d w t = (w', None) \<Longrightarrow> stored w' = stored w \<union> set (txn_ids d t)"
    and "Commit d w t = (w', Some e) \<Longrightarrow> stored w' = stored w"
    and "AddDocument d w t c x = (None, added) \<Longrightarrow> added = [cidOf c x]"
    and "AddManyDocuments d w c xs = (None, added) \<Longrightarrow> added = map (cidOf c) xs"
    and "(c, DocIDString d c x) \<in> stored w \<Longrightarrow> \<exists>e. fst (AddDocument d w t c x) = Some e \<and> IsErrAlreadyExists (Some e)"
    and "DocIDString d c x \<noteq> []"
proof -
  have l: "stored (fst (NewTxn d w)) = stored w"
    "stored (fst (Commit d w t)) = stored w \<union> (if snd (Commit d w t) = None then set (txn_ids d t) else {})"
    "fst (AddDocument d w t c x) = None \<longrightarrow> snd (AddDocument d w t c x) = [cidOf c x]"
    "fst (AddManyDocuments d w c xs) = None \<longrightarrow> snd (AddManyDocuments d w c xs) = map (cidOf c) xs"
    "(c, DocIDString d c x) \<in> stored w \<longrightarrow> (\<exists>e. fst (AddDocument d w t c x) = Some e \<and> IsErrAlreadyExists (Some e))"
    "DocIDString d c x \<noteq> []"
    using assms unfolding db_laws_def by blast+
  show "NewTxn d w = (w', r) \<Longrightarrow> stored w' = stored w" using l(1) by simp
  show "Commit d w t = (w', None) \<Longrightarrow> stored w' = stored w \<union> set (txn_ids d t)" using l(2) by simp
  show "Commit d w t = (w', Some e) \<Longrightarrow> stored w' = stored w" using l(2) by simp
  show "AddDocument d w t c x = (None, added) \<Longrightarrow> added = [cidOf c x]" using l(3) by simp
  show "AddManyDocuments d w c xs = (None, added) \<Longrightarrow> added = map (cidOf c) xs" using l(4) by simp
  show "(c, DocIDString d c x) \<in> stored w \<Longrightarrow> \<exists>e. fst (AddDocument d w t c x) = Some e \<and> IsErrAlreadyExists (Some e)"
    using l(5) by blast
  show "DocIDString d c x \<noteq> []" by (rule l(6))
qed

section \<open>The error of a partial batch is no conflict\<close>

definition adjacent :: "'a list \<Rightarrow> ('a \<times> 'a) set" where
  "adjacent xs = set (zip xs (tl xs))"

lemma adjacent_Nil [simp]: "adjacent [] = {}" and adjacent_single [simp]: "adjacent [x] = {}"
  and adjacent_Cons [simp]: "adjacent (x # y # ys) = insert (x, y) (adjacent (y # ys))"
  by (simp_all add: adjacent_def)

lemma adjacent_append:
  "xs \<noteq> [] \<Longrightarrow> ys \<noteq> [] \<Longrightarrow> adjacent (xs @ ys) = insert (last xs, hd ys) (adjacent xs \<union> adjacent ys)"
proof (induction xs rule: induct_list012)
  case (2 x)
  then show ?case by (cases ys) auto
qed auto

lemma adjacent_append_subset: "adjacent xs \<union> adjacent ys \<subseteq> adjacent (xs @ ys)"
  using adjacent_append [of xs ys] by (cases "xs = []"; cases "ys = []") auto

lemma adjacent_elems: "p \<in> adjacent xs \<Longrightarrow> fst p \<in> set xs \<and> snd p \<in> set xs"
  by (induction xs rule: induct_list012) auto

lemma contains_adjacent: "contains s sub \<Longrightarrow> adjacent sub \<subseteq> adjacent s"
  unfolding contains_def sublist_def using adjacent_append_subset by blast

lemma itoa_nat_chars: "c \<in> set (itoa (int n)) \<Longrightarrow> c \<noteq> CHR '' '' \<and> c \<noteq> CHR ''c''"
proof -
  assume "c \<in> set (itoa (int n))"
  then have "\<exists>d < 10. c = digit_char d" using nat_text_chars [of 10 c n] by (simp add: itoa_def)
  then obtain d where d: "d < 10" "c = digit_char d" by blast
  then have "d < 16" by simp
  from less_16_cases [OF this] show ?thesis using d by (elim disjE; simp add: digit_char_def)
qed

lemma itoa_nat_not_Nil [simp]: "itoa (int n) \<noteq> []"
  by (simp add: itoa_def)

lemma previously_stored_no_conflict:
  assumes "CHR '' '' \<notin> set col"
  shows "\<not> IsErrTransactionConflict (Some (err_previously_stored col k n))"
proof
  let ?p = "(CHR '' '', CHR ''c'')"
  let ?a = "itoa (int k)" let ?b = "itoa (int n)"
  let ?u = "'' batch: ''" let ?v = "'' of ''" let ?z = "'' documents were previously stored''"
  assume "IsErrTransactionConflict (Some (err_previously_stored col k n))"
  then have "contains (col @ ?u @ ?a @ ?v @ ?b @ ?z) ErrStrTransactionConflict"
    by (simp only: IsErrTransactionConflict_def err_previously_stored_def option.case error_text.simps)
  from contains_adjacent [OF this] have p: "?p \<in> adjacent (col @ ?u @ ?a @ ?v @ ?b @ ?z)" by (rule subsetD) simp
  have no: "?p \<notin> adjacent col" "?p \<notin> adjacent ?a" "?p \<notin> adjacent ?b"
    using assms adjacent_elems [of ?p] itoa_nat_chars by auto
  have hd: "hd ?a \<noteq> CHR ''c''" "hd ?b \<noteq> CHR ''c''" using itoa_nat_chars list.set_sel(1) itoa_nat_not_Nil by blast+
  have "?p \<notin> adjacent (?b @ ?z)" using no by (simp add: adjacent_append)
  then have "?p \<notin> adjacent (?v @ ?b @ ?z)" using hd by (subst adjacent_append) auto
  then have "?p \<notin> adjacent (?a @ ?v @ ?b @ ?z)" using no by (subst adjacent_append) auto
  then have "?p \<notin> adjacent (?u @ ?a @ ?v @ ?b @ ?z)" using hd by (subst adjacent_append) auto
  then have "?p \<notin> adjacent (col @ ?u @ ?a @ ?v @ ?b @ ?z)"
    using no by (cases "col = []") (simp_all add: adjacent_append)
  with p show False by contradiction
qed

section \<open>Batches\<close>

text \<open>The contract of every operation that writes documents \<open>xs\<close> to one collection: what it reports is
  what it added to the store, the collector only grows, and without an error all of \<open>xs\<close> were written.\<close>

definition batch_ok ::
  "'w blockDB \<Rightarrow> ('w \<Rightarrow> (string \<times> docID) set) \<Rightarrow> (string \<Rightarrow> doc \<Rightarrow> cid) \<Rightarrow> string \<Rightarrow> doc list \<Rightarrow> 'w \<Rightarrow> cid list \<Rightarrow>
   'w \<times> cid list \<times> docID list \<times> goerror option \<Rightarrow> bool" where
  "batch_ok d stored cidOf col xs w cs res \<longleftrightarrow> (case res of (w', cs', ids, err) \<Rightarrow>
     stored w' = stored w \<union> Pair col ` set ids
   \<and> (\<exists>r. cs' = cs @ r \<and> (err = None \<longrightarrow> ids = map (DocIDString d col) xs \<and> subseq (map (cidOf col) xs) r)))"

lemma add_each_ok:
  assumes "db_laws d stored cidOf" and "add_each d w col xs t cs k = (cs', r)"
  shows "(\<exists>q. cs' = cs @ q) \<and> (\<forall>t' k'. r = Inr (t', k') \<longrightarrow> k \<le> k' \<and> fst ` set t' \<subseteq> insert col (fst ` set t)
    \<and> (k' = k \<longrightarrow> t' = t @ map (Pair col) xs \<and> cs' = cs @ map (cidOf col) xs))"
  using assms(2)
proof (induction xs arbitrary: t cs k)
  case (Cons x xs)
  obtain e added where add: "AddDocument d w t col x = (e, added)" by fastforce
  consider (build) err where "NewDocFromMap d col x = Some err"
    | (added) "NewDocFromMap d col x = None" "e = None"
    | (skip) err where "NewDocFromMap d col x = None" "e = Some err" "IsErrAlreadyExists e"
    | (failed) err where "NewDocFromMap d col x = None" "e = Some err" "\<not> IsErrAlreadyExists e"
    by fastforce
  then show ?case
  proof cases
    case added
    then have "added = [cidOf col x]" using db_lawsD(4) [OF assms(1)] add by simp
    moreover have "add_each d w col xs (t @ [(col, x)]) (cs @ added) k = (cs', r)" using Cons.prems added add by simp
    ultimately show ?thesis using Cons.IH [of "t @ [(col, x)]" "cs @ added" k] by auto
  next
    case skip
    then have "add_each d w col xs t (cs @ added) (k + 1) = (cs', r)" using Cons.prems add by simp
    from Cons.IH [OF this] show ?thesis by (auto dest: Suc_leD)
  qed (use Cons.prems add in auto)
qed auto

lemma one_collection_ids:
  "fst ` set t \<subseteq> {col} \<Longrightarrow> set (txn_ids d t) = Pair col ` set (doc_ids d t)"
  by (induction t) auto

lemma doc_ids_Pair [simp]: "doc_ids d (map (Pair col) xs) = map (DocIDString d col) xs"
  by simp

lemma addDocs_ok:
  assumes "db_laws d stored cidOf" and "addDocsSkipExisting d col xs w cs = (w', cs', r)"
  shows "(\<exists>q. cs' = cs @ q) \<and> (case r of Inl e \<Rightarrow> stored w' = stored w
    | Inr (ids, k) \<Rightarrow> stored w' = stored w \<union> Pair col ` set ids
        \<and> (k = 0 \<longrightarrow> ids = map (DocIDString d col) xs \<and> cs' = cs @ map (cidOf col) xs))"
proof -
  note L = db_lawsD(1-3) [OF assms(1)]
  obtain w1 e where n: "NewTxn d w = (w1, e)" by fastforce
  obtain cs1 q where a: "add_each d w1 col xs [] cs 0 = (cs1, q)" by fastforce
  note A = add_each_ok [OF assms(1) a]
  have w1: "stored w1 = stored w" using L(1) n by simp
  show ?thesis
  proof (cases "e = None \<and> GetCollectionByName d w1 col = None \<and> (\<exists>p. q = Inr p)")
    case False
    then show ?thesis using assms(2) A w1
      by (auto simp: addDocsSkipExisting_def n a split: option.splits sum.splits)
  next
    case True
    then obtain t k where q: "q = Inr (t, k)" "e = None" "GetCollectionByName d w1 col = None" by auto
    have t: "k = 0 \<Longrightarrow> t = map (Pair col) xs \<and> cs1 = cs @ map (cidOf col) xs" "\<exists>r. cs1 = cs @ r"
      using A q by auto
    have one: "set (txn_ids d t) = Pair col ` set (doc_ids d t)" by (rule one_collection_ids) (use A q in auto)
    show ?thesis
    proof (cases "t = []")
      case True
      then show ?thesis using assms(2) w1 t by (auto simp: addDocsSkipExisting_def n a q)
    next
      case False
      obtain w2 c where c: "Commit d w1 t = (w2, c)" by fastforce
      show ?thesis
      proof (cases c)
        case None
        then have "stored w2 = stored w \<union> Pair col ` set (doc_ids d t)" using L(2) [OF c [unfolded None]] w1 one by simp
        moreover have "(w', cs', r) = (w2, cs1, Inr (doc_ids d t, k))"
          using assms(2) False None by (simp add: addDocsSkipExisting_def n a q c)
        ultimately show ?thesis using t by auto
      next
        case (Some err)
        then have "stored w2 = stored w" using L(3) [OF c [unfolded Some]] w1 by simp
        moreover have "w' = w2 \<and> cs' = cs1 \<and> (\<exists>e. r = Inl e)"
          using assms(2) False Some by (auto simp: addDocsSkipExisting_def n a q c)
        ultimately show ?thesis using t(2) by auto
      qed
    qed
  qed
qed

lemma skipExisting_ok:
  assumes "db_laws d stored cidOf"
  shows "batch_ok d stored cidOf col xs w cs (writeBatchSkipExisting d col xs w cs)"
proof -
  obtain w' cs' r where a: "addDocsSkipExisting d col xs w cs = (w', cs', r)" by (metis prod_cases3)
  from addDocs_ok [OF assms a] show ?thesis
    by (auto simp: batch_ok_def writeBatchSkipExisting_def a split: sum.splits prod.splits)
qed

lemma batch_ok_extend:
  "batch_ok d stored cidOf col xs w (cs @ q) res \<Longrightarrow> batch_ok d stored cidOf col xs w cs res"
  by (auto simp: batch_ok_def intro: list_emb_append2)

lemma batch_ok_world:
  "batch_ok d stored cidOf col xs w1 cs res \<Longrightarrow> stored w1 = stored w \<Longrightarrow> batch_ok d stored cidOf col xs w cs res"
  by (simp add: batch_ok_def)

lemma batch_ok_failed [simp]:
  "batch_ok d stored cidOf col xs w cs (w', cs @ q, [], Some e) \<longleftrightarrow> stored w' = stored w"
  by (simp add: batch_ok_def)

lemma batch_ok_failed0 [simp]:
  "batch_ok d stored cidOf col xs w cs (w', cs, [], Some e) \<longleftrightarrow> stored w' = stored w"
  by (simp add: batch_ok_def)

lemma createDocs_ok:
  assumes "db_laws d stored cidOf"
  shows "batch_ok d stored cidOf col xs w cs (createDocsInTxn d col xs w cs)"
proof -
  note L = db_lawsD(1-3,5) [OF assms]
  obtain w1 e where n: "NewTxn d w = (w1, e)" by fastforce
  have w1: "stored w1 = stored w" using L(1) n by simp
  obtain m added where m: "AddManyDocuments d w1 col xs = (m, added)" by fastforce
  obtain w2 c where c: "Commit d w1 (map (Pair col) xs) = (w2, c)" by fastforce
  have "batch_ok d stored cidOf col xs w1 cs (writeBatchSkipExisting d col xs w1 (cs @ added))"
    by (rule batch_ok_extend [OF skipExisting_ok [OF assms]])
  then have skip: "batch_ok d stored cidOf col xs w cs (writeBatchSkipExisting d col xs w1 (cs @ added))"
    using w1 by (rule batch_ok_world)
  have ids: "set (txn_ids d (map (Pair col) xs)) = Pair col ` set (map (DocIDString d col) xs)"
    using one_collection_ids [of "map (Pair col) xs" col d] by auto
  have failed: "stored w2 = stored w" if "c = Some e'" for e'
    using L(3) [of w1 "map (Pair col) xs" w2 e'] c w1 that by simp
  have done_: "batch_ok d stored cidOf col xs w cs (w2, cs @ added, map (DocIDString d col) xs, None)"
    if "c = None" "m = None"
  proof -
    have "stored w2 = stored w \<union> Pair col ` set (map (DocIDString d col) xs)" using L(2) [OF c [unfolded that(1)]] w1 ids by simp
    moreover have "added = map (cidOf col) xs" using L(4) m that(2) by simp
    ultimately show ?thesis by (simp add: batch_ok_def)
  qed
  have empty: "batch_ok d stored cidOf col [] w cs (w1, cs, [], None)"
    using w1 by (simp add: batch_ok_def)
  show ?thesis unfolding createDocsInTxn_def n prod.case
    by (simp add: m c w1 skip failed done_ empty split: option.splits)
qed

lemma createDocs_conflict:
  assumes "CHR '' '' \<notin> set col" and "createDocsInTxn d col xs w cs = (w', cs', ids, Some e)"
    and "IsErrTransactionConflict (Some e)"
  shows "ids = []"
  using assms(2,3) previously_stored_no_conflict [OF assms(1)]
  by (auto simp: createDocsInTxn_def writeBatchSkipExisting_def split: option.splits prod.splits sum.splits if_splits)

text \<open>Retrying keeps the contract: only an attempt that left nothing behind is retried.\<close>

lemma batch_attempts_ok:
  assumes writes: "\<And>w cs. batch_ok d stored cidOf col xs w cs (write w cs)"
    and clean: "\<And>w cs w' cs' ids e. write w cs = (w', cs', ids, Some e) \<Longrightarrow> IsErrTransactionConflict (Some e) \<Longrightarrow> ids = []"
  shows "attempt + left = maxBatchRetries \<Longrightarrow> 0 < left \<Longrightarrow>
    batch_ok d stored cidOf col xs w cs (batch_attempts delay write attempt left ids0 w cs)"
proof (induction left arbitrary: attempt w ids0)
  case (Suc left)
  obtain w' cs' ids err where eq: "write w cs = (w', cs', ids, err)" by (metis prod_cases4)
  have ok: "batch_ok d stored cidOf col xs w cs (w', cs', ids, err)" using writes [of w cs] eq by simp
  then obtain q where q: "cs' = cs @ q" by (auto simp: batch_ok_def)
  show ?case
  proof (cases "\<exists>e. err = Some e \<and> IsErrTransactionConflict err \<and> attempt \<noteq> maxBatchRetries - 1 \<and> delay attempt = None")
    case True
    then have "ids = []" using clean eq by auto
    then have "stored w' = stored w" using ok by (simp add: batch_ok_def)
    moreover have "batch_ok d stored cidOf col xs w' cs (batch_attempts delay write (attempt + 1) left ids w' cs)"
      by (rule Suc.IH) (use Suc.prems True in auto)
    ultimately have "batch_ok d stored cidOf col xs w cs (batch_attempts delay write (attempt + 1) left ids w' cs)"
      by (simp add: batch_ok_def)
    then show ?thesis using True by (auto simp: eq q Let_def)
  next
    case False
    then show ?thesis using ok by (auto simp: eq q Let_def batch_ok_def split: option.splits)
  qed
qed simp

lemma write_batches_ok:
  assumes laws: "db_laws d stored cidOf" and name: "CHR '' '' \<notin> set col"
  shows "\<exists>ids' r. (case write_batches h d col bs ids w cs of (w', cs', ids'', err) \<Rightarrow>
     ids'' = ids @ ids' \<and> cs' = cs @ r \<and> stored w' = stored w \<union> Pair col ` set ids'
   \<and> (err = None \<longrightarrow> ids' = map (DocIDString d col) (concat bs) \<and> subseq (map (cidOf col) (concat bs)) r))"
proof (induction bs arbitrary: ids w cs)
  case (Cons b bs)
  obtain w1 cs1 ids1 err where eq: "writeBatchWithRetry h (createDocsInTxn d col b) w cs = (w1, cs1, ids1, err)"
    by (metis prod_cases4)
  have "batch_ok d stored cidOf col b w cs (w1, cs1, ids1, err)"
    unfolding eq [symmetric] writeBatchWithRetry_def
    by (rule batch_attempts_ok) (use createDocs_ok [OF laws] createDocs_conflict [OF name] in auto)
  then obtain r1 where b: "stored w1 = stored w \<union> Pair col ` set ids1" "cs1 = cs @ r1"
    "err = None \<Longrightarrow> ids1 = map (DocIDString d col) b \<and> subseq (map (cidOf col) b) r1" by (auto simp: batch_ok_def)
  show ?case
  proof (cases err)
    case None
    obtain w2 cs2 ids2 err2 where eq2: "write_batches h d col bs (ids @ ids1) w1 cs1 = (w2, cs2, ids2, err2)"
      by (metis prod_cases4)
    obtain ids' r where IH: "ids2 = (ids @ ids1) @ ids'" "cs2 = cs1 @ r" "stored w2 = stored w1 \<union> Pair col ` set ids'"
      "err2 = None \<Longrightarrow> ids' = map (DocIDString d col) (concat bs) \<and> subseq (map (cidOf col) (concat bs)) r"
      using Cons.IH [where ids = "ids @ ids1" and w = w1 and cs = cs1] unfolding eq2 by auto
    have whole: "write_batches h d col (b # bs) ids w cs = (w2, cs2, ids2, err2)" by (simp add: eq eq2 None)
    have "subseq (map (cidOf col) (concat (b # bs))) (r1 @ r)" if "err2 = None"
      using b(3) [OF None] IH(4) [OF that] by (simp add: list_emb_append_mono)
    moreover have "stored w2 = stored w \<union> Pair col ` set (ids1 @ ids')" by (simp add: IH(3) b(1) image_Un Un_assoc)
    ultimately show ?thesis unfolding whole prod.case using IH(1,2,4) b(2) b(3) [OF None]
      by (intro exI [of _ "ids1 @ ids'"] exI [of _ "r1 @ r"]) simp
  next
    case (Some e)
    then show ?thesis using b by (auto simp: eq)
  qed
qed simp

lemma writeGroup_ok:
  assumes "db_laws d stored cidOf" and "CHR '' '' \<notin> set (Collection g)" and "0 < bh_maxDocsPerTxn h"
  shows "batch_ok d stored cidOf (Collection g) ds w cs (writeGroup h d g ds w cs)"
proof -
  let ?k = "nat (if BatchSize g \<le> 0 then bh_maxDocsPerTxn h else BatchSize g)"
  have "concat (chunks ?k ds) = ds" using assms(3) by (intro concat_chunks) auto
  then show ?thesis
    using write_batches_ok [OF assms(1,2), where h = h and bs = "chunks ?k ds" and ids = "[]" and w = w and cs = cs]
    by (auto simp: batch_ok_def writeGroup_def createDocBatch_def)
qed

section \<open>Signatures\<close>

text \<open>\<open>attests\<close>: the docID is that of a self-verified signature over the given CIDs.\<close>

definition attests :: "'w BlockHandler \<Rightarrow> 'w blockDB \<Rightarrow> string \<Rightarrow> height \<Rightarrow> hash \<Rightarrow> string \<Rightarrow> cid list \<Rightarrow> docID \<Rightarrow> bool" where
  "attests h d createdAt n hsh sc cids i \<longleftrightarrow> (\<exists>sig. signBatchFn h cids = Inr (Some sig) \<and> verifyBatchSigFn h sig cids = Inr True
     \<and> i = DocIDString d sc (buildBlockSignatureDocument createdAt sig hsh n (sortedCIDStrings cids)))"

lemma signBlock_ok:
  assumes "db_laws d stored cidOf" and "signBlockOverCIDs h d createdAt n hsh cids sc w = (w', r)"
  shows "case r of Inl e \<Rightarrow> stored w' = stored w
    | Inr i \<Rightarrow> stored w' = insert (sc, i) (stored w) \<and> attests h d createdAt n hsh sc cids i"
proof -
  note L = db_lawsD(1-3) [OF assms(1)]
  obtain w1 e where n: "NewTxn d w = (w1, e)" by fastforce
  have w1: "stored w1 = stored w" using L(1) n by simp
  show ?thesis
  proof (cases r)
    case (Inr i)
    then obtain sig where sig: "signBatchFn h cids = Inr (Some sig)" "verifyBatchSigFn h sig cids = Inr True"
      using assms(2) by (auto simp: signBlockOverCIDs_def split: sum.splits option.splits bool.splits)
    let ?x = "buildBlockSignatureDocument createdAt sig hsh n (sortedCIDStrings cids)"
    obtain w2 c where c: "Commit d w1 [(sc, ?x)] = (w2, c)" by fastforce
    have "c = None \<and> w' = w2 \<and> i = DocIDString d sc ?x"
      using assms(2) Inr sig by (auto simp: signBlockOverCIDs_def n c Let_def split: option.splits prod.splits)
    then have "c = None" "w' = w2" "i = DocIDString d sc ?x" by auto
    with L(2) [OF c [unfolded \<open>c = None\<close>]] w1 Inr sig show ?thesis by (auto simp: attests_def)
  next
    case (Inl err)
    have "Commit d w1 t = (w2, Some e') \<Longrightarrow> stored w2 = stored w" for t w2 e' using L(3) w1 by blast
    then show ?thesis using assms(2) Inl w1
      by (auto simp: signBlockOverCIDs_def n Let_def split: sum.splits option.splits bool.splits prod.splits)
  qed
qed

lemma signStored_ok:
  assumes "db_laws d stored cidOf" and "signStoredBlock h d createdAt n hsh ids errs sc cids w = (w', i)"
  shows "stored w' = stored w \<union> (if i = [] then {} else {(sc, i)})"
    and "i \<noteq> [] \<Longrightarrow> errs = [] \<and> length cids = length ids \<and> attests h d createdAt n hsh sc cids i"
proof -
  obtain w1 r where s: "signBlockOverCIDs h d createdAt n hsh cids sc w = (w1, r)" by fastforce
  note S = signBlock_ok [OF assms(1) s]
  have "i \<noteq> []" if "r = Inr i" for i
    using S that db_lawsD(7) [OF assms(1)] by (auto simp: attests_def)
  then show "stored w' = stored w \<union> (if i = [] then {} else {(sc, i)})"
    using assms(2) S by (auto simp: signStoredBlock_def s split: if_splits sum.splits)
  show "errs = [] \<and> length cids = length ids \<and> attests h d createdAt n hsh sc cids i" if "i \<noteq> []"
    using assms(2) S that by (auto simp: signStoredBlock_def s split: if_splits sum.splits)
qed

section \<open>The block document\<close>

lemma storeBlockDoc_ok:
  assumes "db_laws d stored cidOf" and "storeBlockDoc d x col w cs = (w', cs', r)"
  shows "case r of Inl e \<Rightarrow> stored w' = stored w
    | Inr i \<Rightarrow> i = DocIDString d col x \<and> stored w' = insert (col, i) (stored w) \<and> cs' = cs @ [cidOf col x]
        \<and> (col, i) \<notin> stored w"
proof -
  note L = db_lawsD(1-3) [OF assms(1)]
  obtain w1 e where n: "NewTxn d w = (w1, e)" by fastforce
  have w1: "stored w1 = stored w" using L(1) n by simp
  obtain a added where a: "AddDocument d w1 [] col x = (a, added)" by fastforce
  obtain w2 c where c: "Commit d w1 [(col, x)] = (w2, c)" by fastforce
  show ?thesis
  proof (cases r)
    case (Inr i)
    then have r: "a = None" "c = None" "w' = w2" "cs' = cs @ added" "i = DocIDString d col x"
      using assms(2) by (auto simp: storeBlockDoc_def n a c split: option.splits if_splits)
    have "stored w2 = insert (col, i) (stored w)" using L(2) [OF c [unfolded r(2)]] w1 r(5) by simp
    moreover have "(col, i) \<notin> stored w" using db_lawsD(6) [OF assms(1), of col x w1 "[]"] a r(1,5) w1 by auto
    moreover have "added = [cidOf col x]" using db_lawsD(4) [OF assms(1) a [unfolded r(1)]] .
    ultimately show ?thesis using Inr r by simp
  next
    case (Inl err)
    have "c = Some e' \<Longrightarrow> stored w2 = stored w" for e' using L(3) [of w1 "[(col, x)]" w2 e'] c w1 by simp
    then show ?thesis using assms(2) Inl w1
      by (auto simp: storeBlockDoc_def n a c split: option.splits if_splits)
  qed
qed

section \<open>Groups\<close>

text \<open>The documents of the groups as they are written: \<open>dss\<close> are the stamped documents.\<close>

definition written_docs :: "DocumentGroup list \<Rightarrow> doc list list \<Rightarrow> txn" where
  "written_docs gs dss = concat (map2 (\<lambda>g ds. map (Pair (Collection g)) ds) gs dss)"

abbreviation txn_cids :: "(string \<Rightarrow> doc \<Rightarrow> cid) \<Rightarrow> txn \<Rightarrow> cid list" where
  "txn_cids cidOf t \<equiv> map (\<lambda>(c, x). cidOf c x) t"

definition stamped :: "DocumentGroup list \<Rightarrow> doc list list \<Rightarrow> bool" where
  "stamped gs dss \<longleftrightarrow> list_all2 (\<lambda>g ds. list_all2 same_but_links (Docs g) ds) gs dss"

definition ids_of :: "(string \<times> docID) list \<Rightarrow> string \<Rightarrow> docID list" where
  "ids_of new c = map snd (filter (\<lambda>p. fst p = c) new)"

lemma ids_of_simps [simp]:
  "ids_of [] c = []" "ids_of (a @ b) c = ids_of a c @ ids_of b c"
  "ids_of (map (Pair k) ids) c = (if c = k then ids else [])"
  by (auto simp: ids_of_def o_def filter_map)

lemma set_ids_of: "i \<in> set (ids_of new c) \<longleftrightarrow> (c, i) \<in> set new"
  by (force simp: ids_of_def)

lemma written_docs_simps [simp]:
  "written_docs [] dss = []"
  "written_docs (g # gs) (ds # dss) = map (Pair (Collection g)) ds @ written_docs gs dss"
  by (simp_all add: written_docs_def)

text \<open>The documents a result of \<open>Store\<close> reports, per collection.\<close>

definition tracked :: "string \<Rightarrow> BlockCreationResult \<Rightarrow> (string \<times> docID) set" where
  "tracked col cr = insert (col, bc_BlockID cr) {(c, i). i \<in> set (bc_OtherDocIDs cr c)}
     \<union> (if bc_BlockSignatureID cr = [] then {} else {(bc_BlockSignatureCollection cr, bc_BlockSignatureID cr)})"

context link_stamper
begin

lemma stampGroup_frame: "stampGroup stamp st g = Inr ds \<Longrightarrow> list_all2 same_but_links (Docs g) ds"
proof (cases st)
  case (Some s)
  assume "stampGroup stamp st g = Inr ds"
  with Some have "ds = snd (stamp s (Collection g) (Docs g))" by (auto simp: stampGroup_def split: option.splits prod.splits)
  then show ?thesis using stamp_frame by simp
qed (simp add: stampGroup_def)

lemma store_groups_ok:
  assumes laws: "db_laws d stored cidOf" and size: "0 < bh_maxDocsPerTxn h"
  shows "\<forall>g \<in> set gs. CHR '' '' \<notin> set (Collection g) \<Longrightarrow>
    store_groups stamp record_ids h d gs st other ids errs w cs = (w', cs', other', ids', errs') \<Longrightarrow>
    \<exists>new r es. stored w' = stored w \<union> set new \<and> other' = (\<lambda>c. other c @ ids_of new c) \<and> ids' = ids @ map snd new
      \<and> cs' = cs @ r \<and> errs' = errs @ es \<and> (es = [] \<longrightarrow> (\<exists>dss. stamped gs dss
          \<and> new = txn_ids d (written_docs gs dss) \<and> subseq (txn_cids cidOf (written_docs gs dss)) r))"
proof (induction gs arbitrary: st other ids w cs)
  case Nil
  then show ?case by (intro exI [of _ "[]"]) (auto simp: stamped_def)
next
  case (Cons g gs)
  show ?case
  proof (cases "stampGroup stamp st g")
    case (Inl e)
    then show ?thesis using Cons.prems by (intro exI [of _ "[]"] exI [of _ "[e]"]) auto
  next
    case (Inr ds)
    let ?c = "Collection g"
    obtain w1 cs1 ids1 err where eq: "writeGroup h d g ds w cs = (w1, cs1, ids1, err)" by (metis prod_cases4)
    have "batch_ok d stored cidOf ?c ds w cs (w1, cs1, ids1, err)"
      unfolding eq [symmetric] by (rule writeGroup_ok) (use laws size Cons.prems in auto)
    then obtain r1 where b: "stored w1 = stored w \<union> Pair ?c ` set ids1" "cs1 = cs @ r1"
      "err = None \<Longrightarrow> ids1 = map (DocIDString d ?c) ds \<and> subseq (map (cidOf ?c) ds) r1" by (auto simp: batch_ok_def)
    let ?other = "other(?c := other ?c @ ids1)" and ?new = "map (Pair ?c) ids1"
    have o: "?other = (\<lambda>c. other c @ ids_of ?new c)" by auto
    obtain es st' where rec: "recordGroup record_ids st g ds ids1 = (es, st')" by fastforce
    show ?thesis
    proof (cases "err = None \<and> es = []")
      case False
      then obtain e es' where "(w', cs', other', ids', errs') = (w1, cs1, ?other, ids @ ids1, errs @ e # es')"
        using Cons.prems(2) by (cases es) (auto simp: Inr eq rec Let_def split: option.splits)
      then show ?thesis using b o
        by (intro exI [of _ ?new] exI [of _ r1] exI [of _ "e # es'"]) (auto simp: o_def)
    next
      case True
      then have run: "store_groups stamp record_ids h d gs st' ?other (ids @ ids1) errs w1 cs1 = (w', cs', other', ids', errs')"
        using Cons.prems(2) by (simp add: Inr eq rec)
      have "\<forall>g \<in> set gs. CHR '' '' \<notin> set (Collection g)" using Cons.prems(1) by simp
      from Cons.IH [OF this run] obtain new r es2 where IH:
        "stored w' = stored w1 \<union> set new" "other' = (\<lambda>c. ?other c @ ids_of new c)" "ids' = (ids @ ids1) @ map snd new"
        "cs' = cs1 @ r" "errs' = errs @ es2" "es2 = [] \<longrightarrow> (\<exists>dss. stamped gs dss
          \<and> new = txn_ids d (written_docs gs dss) \<and> subseq (txn_cids cidOf (written_docs gs dss)) r)"
        by (elim exE conjE)
      have "\<exists>dss. stamped (g # gs) dss \<and> ?new @ new = txn_ids d (written_docs (g # gs) dss)
        \<and> subseq (txn_cids cidOf (written_docs (g # gs) dss)) (r1 @ r)" if none: "es2 = []"
      proof -
        obtain dss where dss: "stamped gs dss" "new = txn_ids d (written_docs gs dss)"
          "subseq (txn_cids cidOf (written_docs gs dss)) r" using IH(6) none by blast
        have "ids1 = map (DocIDString d ?c) ds" "subseq (map (cidOf ?c) ds) r1" using b(3) True by auto
        moreover have "list_all2 same_but_links (Docs g) ds" using stampGroup_frame [OF Inr] .
        ultimately show ?thesis using dss
          by (intro exI [of _ "ds # dss"]) (auto simp: stamped_def o_def list_emb_append_mono)
      qed
      moreover have "stored w' = stored w \<union> set (?new @ new)" using IH(1) b(1) by auto
      moreover have "other' = (\<lambda>c. other c @ ids_of (?new @ new) c)" using IH(2) by auto
      ultimately show ?thesis using IH(3,4,5) b(2)
        by (intro exI [of _ "?new @ new"] exI [of _ "r1 @ r"] exI [of _ es2]) (auto simp: o_def)
    qed
  qed
qed

lemma stampBlockGroup_frame: "stampBlockGroup stamp st g = Inr ds \<Longrightarrow> list_all2 same_but_links (Docs g) ds"
  using stampGroup_frame [of st g ds] by (auto simp: stampBlockGroup_def stampGroup_def split: option.splits prod.splits)

text \<open>The outcome of \<open>Store\<close> in all cases.\<close>

lemma Store_ok:
  assumes laws: "db_laws d stored cidOf" and h: "bh_db h = Some d" "0 < bh_maxDocsPerTxn h"
    and track: "\<forall>tr w n cr. docIDTracker h = Some tr \<longrightarrow> stored (fst (tr w n cr)) = stored w"
    and names: "\<forall>g \<in> set groups. CHR '' '' \<notin> set (Collection g)"
    and run: "Store stamp record_ids h now createdAt groups sc st w = (w', res, err)"
  shows "(res = None \<longrightarrow> stored w' = stored w \<and> err \<noteq> None)
    \<and> (\<forall>cr. res = Some cr \<longrightarrow> (\<exists>g rest x xs new. groups = g # rest \<and> Docs g = x # xs
        \<and> stored w' = stored w \<union> tracked (Collection g) cr \<and> (Collection g, bc_BlockID cr) \<notin> stored w
        \<and> bc_OtherDocIDs cr = ids_of new \<and> bc_BlockSignatureCollection cr = sc
        \<and> (err \<noteq> None \<longrightarrow> bc_BlockSignatureID cr = [])
        \<and> (err = None \<longrightarrow> (\<exists>x' dss. same_but_links x x' \<and> stamped rest dss
            \<and> bc_BlockID cr = DocIDString d (Collection g) x' \<and> new = txn_ids d (written_docs rest dss)
            \<and> (bc_BlockSignatureID cr \<noteq> [] \<longrightarrow> attests h d createdAt (bc_BlockNumber cr)
                  (string_or_empty (mget x (BlockHashField g))) sc
                  (txn_cids cidOf ((Collection g, x') # written_docs rest dss)) (bc_BlockSignatureID cr))))))"
proof (cases res)
  case None
  then show ?thesis using run laws
    by (auto simp: Store_def h Let_def split: list.splits sum.splits prod.splits
        dest!: storeBlockDoc_ok [OF laws])
next
  case (Some cr)
  from run Some obtain g rest x xs n where g: "groups = g # rest" "Docs g = x # xs"
    "toInt64 (mget x (BlockNumField g)) = Inr n"
    by (auto simp: Store_def h Let_def split: list.splits sum.splits prod.splits)
  from run Some obtain ds where ds: "stampBlockGroup stamp st g = Inr ds"
    by (auto simp: Store_def h g Let_def split: sum.splits prod.splits)
  obtain w1 cs1 r where b: "storeBlockDoc d (hd ds) (Collection g) w [] = (w1, cs1, r)" by (metis prod_cases3)
  from run Some obtain i where r: "r = Inr i"
    by (auto simp: Store_def h g ds b Let_def split: sum.splits prod.splits)
  obtain errs1 st1 where rc: "recordGroup record_ids st g ds [i] = (errs1, st1)" by fastforce
  obtain w2 cs2 other ids errs where sg:
    "store_groups stamp record_ids h d rest st1 (\<lambda>_. []) [i] errs1 w1 cs1 = (w2, cs2, other, ids, errs)" by (metis prod_cases5)
  let ?hash = "string_or_empty (mget x (BlockHashField g))"
  obtain w3 sid where si: "signStoredBlock h d createdAt n ?hash ids errs sc cs2 w2 = (w3, sid)" by fastforce
  have cr: "cr = \<lparr>bc_BlockNumber = n, bc_BlockID = i, bc_BlockSignatureID = sid,
      bc_BlockSignatureCollection = sc, bc_OtherDocIDs = other\<rparr>"
    and err: "err = (if errs \<noteq> [] then Some (err_partial n errs) else None)"
    and w': "w' = (case docIDTracker h of None \<Rightarrow> w3 | Some tr \<Rightarrow> fst (tr w3 n cr))"
    using run Some by (auto simp: Store_def h g ds b r rc sg si Let_def)
  have B: "i = DocIDString d (Collection g) (hd ds)" "stored w1 = insert (Collection g, i) (stored w)"
    "cs1 = [cidOf (Collection g) (hd ds)]" "(Collection g, i) \<notin> stored w"
    using storeBlockDoc_ok [OF laws b] r by auto
  have "\<forall>g \<in> set rest. CHR '' '' \<notin> set (Collection g)" using names g by simp
  from store_groups_ok [OF laws h(2) this sg] obtain new q es where G: "stored w2 = stored w1 \<union> set new"
    "other = (\<lambda>c. [] @ ids_of new c)" "ids = [i] @ map snd new" "cs2 = cs1 @ q" "errs = errs1 @ es"
    "es = [] \<longrightarrow> (\<exists>dss. stamped rest dss \<and> new = txn_ids d (written_docs rest dss)
        \<and> subseq (txn_cids cidOf (written_docs rest dss)) q)" by (elim exE conjE)
  note S = signStored_ok [OF laws si]
  have "stored w' = stored w3" using track w' by (auto split: option.splits)
  then have "stored w' = stored w \<union> tracked (Collection g) cr"
    using S(1) G(1,2) B(2) by (auto simp: tracked_def cr set_ids_of)
  moreover have "bc_BlockSignatureID cr = []" if "err \<noteq> None" using that S(2) err by (auto simp: cr split: if_splits)
  moreover have "\<exists>x' dss. same_but_links x x' \<and> stamped rest dss
      \<and> bc_BlockID cr = DocIDString d (Collection g) x' \<and> new = txn_ids d (written_docs rest dss)
      \<and> (bc_BlockSignatureID cr \<noteq> [] \<longrightarrow> attests h d createdAt (bc_BlockNumber cr) ?hash sc
            (txn_cids cidOf ((Collection g, x') # written_docs rest dss)) (bc_BlockSignatureID cr))" if "err = None"
  proof -
    have none: "errs = []" using \<open>err = None\<close> err by (auto split: if_splits)
    then obtain dss where dss: "stamped rest dss" "new = txn_ids d (written_docs rest dss)"
      "subseq (txn_cids cidOf (written_docs rest dss)) q" using G(5,6) by auto
    have fr: "same_but_links x (hd ds)" using stampBlockGroup_frame [OF ds] g(2) by (auto simp: list_all2_Cons1)
    have at: "attests h d createdAt n ?hash sc (txn_cids cidOf ((Collection g, hd ds) # written_docs rest dss)) sid"
      if "sid \<noteq> []"
    proof -
      have "length cs2 = length ids" "attests h d createdAt n ?hash sc cs2 sid" using S(2) [OF that] by auto
      moreover have "length q = length (txn_cids cidOf (written_docs rest dss))"
        using \<open>length cs2 = length ids\<close> G(3,4) B(3) dss(2) by simp
      ultimately show ?thesis using subseq_same_length [OF dss(3)] G(4) B(3) by simp
    qed
    show ?thesis by (rule exI [of _ "hd ds"], rule exI [of _ dss]) (use fr dss at B(1) in \<open>simp add: cr\<close>)
  qed
  moreover have "bc_OtherDocIDs cr = ids_of new" "bc_BlockSignatureCollection cr = sc" using G(2) by (simp_all add: cr)
  moreover have "(Collection g, bc_BlockID cr) \<notin> stored w" using B(4) by (simp add: cr)
  ultimately show ?thesis using Some g(1,2) by blast
qed

end

end
