(* ===== verification/Block_Props.thy ===== *)
theory Block_Props
  imports Block_Store
begin

text \<open>
  Properties of storing and signing blocks, for the EVM link stamper (through its interpretation of
  \<open>link_stamper\<close>), and of \<open>storeWithRetry\<close> on top of \<open>Store\<close>.
\<close>

section \<open>Setting\<close>

text \<open>A handler on a lawful database, with a positive batch size and a tracker that does not touch the
  documents; collection names are GraphQL names, without spaces.\<close>

definition handler_ok :: "'w BlockHandler \<Rightarrow> 'w blockDB \<Rightarrow> ('w \<Rightarrow> (string \<times> docID) set) \<Rightarrow> (string \<Rightarrow> doc \<Rightarrow> cid) \<Rightarrow> bool" where
  "handler_ok h d stored cidOf \<longleftrightarrow> bh_db h = Some d \<and> db_laws d stored cidOf \<and> 0 < bh_maxDocsPerTxn h
     \<and> (\<forall>tr w n cr. docIDTracker h = Some tr \<longrightarrow> stored (fst (tr w n cr)) = stored w)"

definition plain_names :: "DocumentGroup list \<Rightarrow> bool" where
  "plain_names gs \<longleftrightarrow> (\<forall>g \<in> set gs. CHR '' '' \<notin> set (Collection g))"

lemma evm_store_ok:
  assumes "handler_ok h d stored cidOf" and "plain_names (Groups r)" and "evm_store h now createdAt r w = (w', res, err)"
  shows "(res = None \<longrightarrow> stored w' = stored w \<and> err \<noteq> None)
    \<and> (\<forall>cr. res = Some cr \<longrightarrow> (\<exists>g rest x xs new. Groups r = g # rest \<and> Docs g = x # xs
        \<and> stored w' = stored w \<union> tracked (Collection g) cr \<and> (Collection g, bc_BlockID cr) \<notin> stored w
        \<and> bc_OtherDocIDs cr = ids_of new \<and> bc_BlockSignatureCollection cr = SignatureCollection r
        \<and> (err \<noteq> None \<longrightarrow> bc_BlockSignatureID cr = [])
        \<and> (err = None \<longrightarrow> (\<exists>x' dss. same_but_links x x' \<and> stamped rest dss
            \<and> bc_BlockID cr = DocIDString d (Collection g) x' \<and> new = txn_ids d (written_docs rest dss)
            \<and> (bc_BlockSignatureID cr \<noteq> [] \<longrightarrow> attests h d createdAt (bc_BlockNumber cr)
                  (string_or_empty (mget x (BlockHashField g))) (SignatureCollection r)
                  (txn_cids cidOf ((Collection g, x') # written_docs rest dss)) (bc_BlockSignatureID cr))))))"
  by (rule els.Store_ok) (use assms in \<open>auto simp: handler_ok_def plain_names_def evm_store_def\<close>)

lemma evm_store_None:
  assumes "handler_ok h d stored cidOf" and "plain_names (Groups r)" and "evm_store h now createdAt r w = (w', None, err)"
  shows "stored w' = stored w \<and> err \<noteq> None"
  using evm_store_ok [OF assms, THEN conjunct1] by simp

lemma evm_store_Some:
  assumes "handler_ok h d stored cidOf" and "plain_names (Groups r)" and "evm_store h now createdAt r w = (w', Some cr, err)"
  obtains g rest x xs new where "Groups r = g # rest" "Docs g = x # xs"
    "stored w' = stored w \<union> tracked (Collection g) cr" "(Collection g, bc_BlockID cr) \<notin> stored w" "bc_OtherDocIDs cr = ids_of new"
    "bc_BlockSignatureCollection cr = SignatureCollection r" "err \<noteq> None \<longrightarrow> bc_BlockSignatureID cr = []"
    "err = None \<longrightarrow> (\<exists>x' dss. same_but_links x x' \<and> stamped rest dss
            \<and> bc_BlockID cr = DocIDString d (Collection g) x' \<and> new = txn_ids d (written_docs rest dss)
            \<and> (bc_BlockSignatureID cr \<noteq> [] \<longrightarrow> attests h d createdAt (bc_BlockNumber cr)
                  (string_or_empty (mget x (BlockHashField g))) (SignatureCollection r)
                  (txn_cids cidOf ((Collection g, x') # written_docs rest dss)) (bc_BlockSignatureID cr)))"
  using evm_store_ok [OF assms, THEN conjunct2, THEN spec, THEN mp, OF refl] by (elim exE conjE) (rule that)

text \<open>A small database over the list of stored docIDs. \<open>bad\<close> names a collection whose commits always
  conflict.\<close>

definition demo_id :: "string \<Rightarrow> doc \<Rightarrow> docID" where
  "demo_id c x = ''bae-'' @ string_or_empty (mget x ''hash'')"

definition demo_add :: "(string \<times> docID) list \<Rightarrow> txn \<Rightarrow> string \<Rightarrow> doc \<Rightarrow> goerror option \<times> cid list" where
  "demo_add w t c x = (if (c, demo_id c x) \<in> set w \<or> (c, demo_id c x) \<in> set (map (\<lambda>(c, x). (c, demo_id c x)) t)
     then (Some (ErrMsg ''a document with the given ID already exists''), []) else (None, [demo_id c x]))"

definition demo_db :: "string \<Rightarrow> (string \<times> docID) list blockDB" where
  "demo_db bad = \<lparr>NewTxn = (\<lambda>w. (w, None)), GetCollectionByName = (\<lambda>w c. None), NewDocFromMap = (\<lambda>c x. None),
     AddDocument = demo_add,
     AddManyDocuments = (\<lambda>w c xs. if \<exists>x \<in> set xs. (c, demo_id c x) \<in> set w
       then (Some (ErrMsg ''a document with the given ID already exists''), []) else (None, map (demo_id c) xs)),
     Commit = (\<lambda>w t. if \<exists>p \<in> set t. fst p = bad then (w, Some (ErrMsg ''transaction conflict. Please retry''))
       else (w @ map (\<lambda>(c, x). (c, demo_id c x)) t, None)),
     DocIDString = demo_id, ExecRequest = (\<lambda>w q. \<lparr>gql_Errors = [], gql_Data = ANil\<rparr>)\<rparr>"

definition demo_sig :: "cid list \<Rightarrow> BatchSignature" where
  "demo_sig cids = \<lparr>sig_Type = ''ES256K'', sig_Identity = ''key'', sig_Value = [], sig_MerkleRoot = [], sig_CIDCount = length cids\<rparr>"

definition demo_handler :: "string \<Rightarrow> (string \<times> docID) list BlockHandler" where
  "demo_handler bad = \<lparr>bh_db = Some (demo_db bad), bh_maxDocsPerTxn = 1000, docIDTracker = None,
     signBatchFn = (\<lambda>cids. Inr (Some (demo_sig cids))), verifyBatchSigFn = (\<lambda>sig cids. Inr (sig_CIDCount sig = length cids)),
     collectDocCIDsFn = (\<lambda>w k ids names. Inr ids), maxCIDRetries = 15,
     batchWait = (\<lambda>_. None), ctxErrAt = (\<lambda>_. None), cidWait = (\<lambda>_. None)\<rparr>"

definition demo_block_group :: DocumentGroup where
  "demo_block_group = \<lparr>Collection = ''E__Block'', Docs = [[''number'' \<mapsto> AInt64 7, ''hash'' \<mapsto> AString ''0xb7'']],
     BatchSize = 100, BlockNumField = ''number'', BlockHashField = ''hash'', ParentHashField = ''parentHash''\<rparr>"

definition demo_tx_group :: DocumentGroup where
  "demo_tx_group = \<lparr>Collection = ''E__Transaction'', Docs = [[''hash'' \<mapsto> AString ''0xt1''], [''hash'' \<mapsto> AString ''0xt2'']],
     BatchSize = 100, BlockNumField = ''blockNumber'', BlockHashField = [], ParentHashField = []\<rparr>"

definition demo_stamper :: evmLinkStamper where
  "demo_stamper = newEvmLinkStamper (NewCollectionNames ''E'') []"

definition demo_conversion :: ConversionResult where
  "demo_conversion = \<lparr>Groups = [demo_block_group, demo_tx_group], SignatureCollection = ''E__BlockSignature'',
     LinkStamper = demo_stamper\<rparr>"

lemma already_exists_text [simp]:
  "IsErrAlreadyExists (Some (ErrMsg ''a document with the given ID already exists''))"
  "IsErrAlreadyExists (Some (ErrMsg ''block already exists''))"
  by (simp_all add: IsErrAlreadyExists_def contains_def sublist_code)

lemma demo_db_laws: "db_laws (demo_db bad) set demo_id"
  by (auto simp: db_laws_def demo_db_def demo_add_def demo_id_def)

lemma demo_handler_ok: "handler_ok (demo_handler bad) (demo_db bad) set demo_id"
  using demo_db_laws by (simp add: handler_ok_def demo_handler_def)

lemma demo_names: "plain_names (Groups demo_conversion)"
  by (simp add: plain_names_def demo_conversion_def demo_block_group_def demo_tx_group_def)

lemma demo_db_ops [simp]:
  "NewTxn (demo_db b) w = (w, None)" "GetCollectionByName (demo_db b) w c = None" "NewDocFromMap (demo_db b) c x = None"
  "AddDocument (demo_db b) = demo_add" "DocIDString (demo_db b) = demo_id"
  "AddManyDocuments (demo_db b) w c xs = (if \<exists>x \<in> set xs. (c, demo_id c x) \<in> set w
     then (Some (ErrMsg ''a document with the given ID already exists''), []) else (None, map (demo_id c) xs))"
  "Commit (demo_db b) w t = (if \<exists>p \<in> set t. fst p = b then (w, Some (ErrMsg ''transaction conflict. Please retry''))
     else (w @ map (\<lambda>(c, x). (c, demo_id c x)) t, None))"
  by (simp_all add: demo_db_def)

lemma first_error_None [simp]: "first_error (\<lambda>x. None) xs = None"
  by (induction xs) auto

definition demo_txs :: "doc list" where
  "demo_txs = [[''hash'' \<mapsto> AString ''0xt1'', ''_blockID'' \<mapsto> AString ''bae-0xb7''],
     [''hash'' \<mapsto> AString ''0xt2'', ''_blockID'' \<mapsto> AString ''bae-0xb7'']]"

lemma demo_txs_ids: "map (demo_id c) demo_txs = [''bae-0xt1'', ''bae-0xt2'']"
  by (simp add: demo_txs_def demo_id_def string_or_empty_def)

definition demo_conflict :: goerror where
  "demo_conflict = ErrMsg ''transaction conflict. Please retry''"

lemma demo_conflict_text: "IsErrTransactionConflict (Some demo_conflict)"
  by (simp add: demo_conflict_def IsErrTransactionConflict_def contains_def sublist_code)

lemma demo_batch:
  assumes "(''E__Transaction'', ''bae-0xt1'') \<notin> set w" "(''E__Transaction'', ''bae-0xt2'') \<notin> set w"
  shows "createDocsInTxn (demo_db b) ''E__Transaction'' demo_txs w cs =
    (if b = ''E__Transaction'' then (w, cs @ [''bae-0xt1'', ''bae-0xt2''], [], Some (Wrapped ''commit E__Transaction batch: '' demo_conflict []))
     else (w @ [(''E__Transaction'', ''bae-0xt1''), (''E__Transaction'', ''bae-0xt2'')], cs @ [''bae-0xt1'', ''bae-0xt2''],
       [''bae-0xt1'', ''bae-0xt2''], None))"
  using assms by (auto simp: createDocsInTxn_def demo_txs_def demo_id_def string_or_empty_def demo_conflict_def)

lemma demo_group_write:
  assumes "(''E__Transaction'', ''bae-0xt1'') \<notin> set w" "(''E__Transaction'', ''bae-0xt2'') \<notin> set w"
  shows "writeGroup (demo_handler b) (demo_db b) demo_tx_group demo_txs w cs =
    (if b = ''E__Transaction'' then (w, cs, [], Some (Wrapped ''commit E__Transaction batch: '' demo_conflict []))
     else (w @ [(''E__Transaction'', ''bae-0xt1''), (''E__Transaction'', ''bae-0xt2'')], cs @ [''bae-0xt1'', ''bae-0xt2''],
       [''bae-0xt1'', ''bae-0xt2''], None))"
proof -
  have one: "chunks 100 demo_txs = [demo_txs]" by (simp add: chunks.simps demo_txs_def)
  have c: "IsErrTransactionConflict (Some (Wrapped ''commit E__Transaction batch: '' demo_conflict []))"
    using demo_conflict_text by (rule IsErrTransactionConflict_Wrapped)
  show ?thesis using assms c
    by (simp add: writeGroup_def createDocBatch_def demo_tx_group_def one writeBatchWithRetry_def numeral_3_eq_3
        demo_batch demo_handler_def Let_def)
qed

lemma demo_block_write:
  "storeBlockDoc (demo_db b) [''number'' \<mapsto> AInt64 7, ''hash'' \<mapsto> AString ''0xb7''] ''E__Block'' w cs =
    (if (''E__Block'', ''bae-0xb7'') \<in> set w then (w, cs, Inl (ErrMsg ''block already exists''))
     else if b = ''E__Block'' then (w, cs @ [''bae-0xb7''], Inl (Wrapped ''commit block: '' demo_conflict []))
     else (w @ [(''E__Block'', ''bae-0xb7'')], cs @ [''bae-0xb7''], Inr ''bae-0xb7''))"
  by (auto simp: storeBlockDoc_def demo_add_def demo_id_def string_or_empty_def demo_conflict_def)

lemma demo_stamps:
  "stampBlockGroup StampBeforeWrite (Some demo_stamper) demo_block_group = Inr (Docs demo_block_group)"
  "recordGroup RecordDocIDs (Some demo_stamper) demo_block_group (Docs demo_block_group) [''bae-0xb7''] =
     ([], Some (demo_stamper\<lparr>blockID := ''bae-0xb7''\<rparr>))"
  "stampGroup StampBeforeWrite (Some (demo_stamper\<lparr>blockID := ''bae-0xb7''\<rparr>)) demo_tx_group = Inr demo_txs"
  "fst (recordGroup RecordDocIDs (Some (demo_stamper\<lparr>blockID := ''bae-0xb7''\<rparr>)) demo_tx_group demo_txs ids) = []"
  by (simp_all add: stampBlockGroup_def recordGroup_def stampGroup_def StampBeforeWrite_def RecordDocIDs_def demo_stamper_def
      newEvmLinkStamper_def NewCollectionNames_def demo_block_group_def demo_tx_group_def demo_txs_def
      string_or_empty_def Let_def)

lemma demo_signing:
  "signStoredBlock (demo_handler []) (demo_db []) ''t'' 7 ''0xb7'' ids [] ''E__BlockSignature'' cids w =
    (if length cids = length ids \<and> (''E__BlockSignature'', ''bae-'') \<notin> set w
     then (w @ [(''E__BlockSignature'', ''bae-'')], ''bae-'') else (w, []))"
  by (simp add: signStoredBlock_def signBlockOverCIDs_def demo_handler_def demo_sig_def buildBlockSignatureDocument_def
      demo_add_def demo_id_def string_or_empty_def Let_def mget_def)

lemma demo_store:
  "\<exists>cr. evm_store (demo_handler []) 0 ''t'' demo_conversion [] =
     ([(''E__Block'', ''bae-0xb7''), (''E__Transaction'', ''bae-0xt1''), (''E__Transaction'', ''bae-0xt2''),
       (''E__BlockSignature'', ''bae-'')], Some cr, None) \<and> bc_BlockSignatureID cr = ''bae-'' \<and> bc_BlockID cr = ''bae-0xb7''"
proof -
  have h: "bh_db (demo_handler []) = Some (demo_db [])" "docIDTracker (demo_handler []) = None" by (simp_all add: demo_handler_def)
  have g: "Docs demo_block_group = [[''number'' \<mapsto> AInt64 7, ''hash'' \<mapsto> AString ''0xb7'']]" "Collection demo_block_group = ''E__Block''"
    "BlockNumField demo_block_group = ''number''" "BlockHashField demo_block_group = ''hash''" "Collection demo_tx_group = ''E__Transaction''"
    by (simp_all add: demo_block_group_def demo_tx_group_def)
  obtain es st where r: "recordGroup RecordDocIDs (Some (demo_stamper\<lparr>blockID := ''bae-0xb7''\<rparr>)) demo_tx_group demo_txs
    [''bae-0xt1'', ''bae-0xt2''] = (es, st)" by fastforce
  have es: "es = []" using demo_stamps(4) [of "[''bae-0xt1'', ''bae-0xt2'']"] r by simp
  show ?thesis
    using demo_stamps(1-3) [unfolded g] r es
    by (simp add: evm_store_def Store_def h demo_conversion_def g toInt64_def demo_block_write demo_group_write
        demo_signing string_or_empty_def Let_def)
qed

section \<open>Properties\<close>

text \<open>C13: nothing is stored untracked. Whatever fails on the way, the documents \<open>Store\<close> leaves in the database
  are exactly the ones its result reports to the docID tracker; without a result it leaves none.\<close>

theorem Store_accounts:
  assumes "handler_ok h d stored cidOf" and "plain_names (Groups r)" and "evm_store h now createdAt r w = (w', res, err)"
  shows "stored w' = stored w \<union> (case res of None \<Rightarrow> {} | Some cr \<Rightarrow> tracked (Collection (hd (Groups r))) cr)"
proof (cases res)
  case None
  with evm_store_None [OF assms(1,2)] assms(3) show ?thesis by simp
next
  case (Some cr)
  obtain g rest where "Groups r = g # rest" "stored w' = stored w \<union> tracked (Collection g) cr"
    by (rule evm_store_Some [OF assms(1,2) assms(3) [unfolded Some]])
  with Some show ?thesis by simp
qed

theorem Store_accounts_witness:
  "\<exists>cr. set [(''E__Block'', ''bae-0xb7''), (''E__Transaction'', ''bae-0xt1''), (''E__Transaction'', ''bae-0xt2''),
     (''E__BlockSignature'', ''bae-'')] = set [] \<union> tracked (Collection (hd (Groups demo_conversion))) cr"
proof -
  obtain cr where "evm_store (demo_handler []) 0 ''t'' demo_conversion [] =
     ([(''E__Block'', ''bae-0xb7''), (''E__Transaction'', ''bae-0xt1''), (''E__Transaction'', ''bae-0xt2''),
       (''E__BlockSignature'', ''bae-'')], Some cr, None)" using demo_store by blast
  from Store_accounts [OF demo_handler_ok demo_names this] show ?thesis by (simp only: option.case) blast
qed

text \<open>C12: success means complete. When \<open>Store\<close> reports no error, the block document and every document of
  every group are stored, changed in their link fields at most, and the docIDs it returns are theirs, in
  order.\<close>

theorem Store_complete:
  assumes "handler_ok h d stored cidOf" and "plain_names (Groups r)" and "evm_store h now createdAt r w = (w', res, None)"
  shows "\<exists>cr g rest x' dss. res = Some cr \<and> Groups r = g # rest \<and> same_but_links (hd (Docs g)) x' \<and> stamped rest dss
    \<and> set (txn_ids d ((Collection g, x') # written_docs rest dss)) \<subseteq> stored w'
    \<and> bc_BlockID cr = DocIDString d (Collection g) x' \<and> bc_OtherDocIDs cr = ids_of (txn_ids d (written_docs rest dss))"
proof -
  obtain cr where cr: "res = Some cr" using evm_store_None [OF assms(1,2), of now createdAt w w' None] assms(3) by (cases res) auto
  obtain g rest x xs new where g: "Groups r = g # rest" "Docs g = x # xs" "stored w' = stored w \<union> tracked (Collection g) cr"
    and new: "bc_OtherDocIDs cr = ids_of new" "\<exists>x' dss. same_but_links x x' \<and> stamped rest dss
      \<and> bc_BlockID cr = DocIDString d (Collection g) x' \<and> new = txn_ids d (written_docs rest dss)"
    by (rule evm_store_Some [OF assms(1,2) assms(3) [unfolded cr]]) blast
  then obtain x' dss where w: "same_but_links x x'" "stamped rest dss" "bc_BlockID cr = DocIDString d (Collection g) x'"
    "bc_OtherDocIDs cr = ids_of (txn_ids d (written_docs rest dss))" by blast
  have "set (txn_ids d ((Collection g, x') # written_docs rest dss)) \<subseteq> tracked (Collection g) cr"
    unfolding tracked_def w(3,4) set_ids_of by auto
  then have "set (txn_ids d ((Collection g, x') # written_docs rest dss)) \<subseteq> stored w'" using g(3) by blast
  moreover have "same_but_links (hd (Docs g)) x'" using g(2) w(1) by simp
  ultimately show ?thesis using cr g(1) w(2-4) by blast
qed

theorem Store_complete_witness:
  "\<exists>g rest x' dss. Groups demo_conversion = g # rest \<and> same_but_links (hd (Docs g)) x' \<and> stamped rest dss
    \<and> set (txn_ids (demo_db []) ((Collection g, x') # written_docs rest dss)) \<subseteq> set [(''E__Block'', ''bae-0xb7''),
       (''E__Transaction'', ''bae-0xt1''), (''E__Transaction'', ''bae-0xt2''), (''E__BlockSignature'', ''bae-'')]"
proof -
  obtain cr where "evm_store (demo_handler []) 0 ''t'' demo_conversion [] =
     ([(''E__Block'', ''bae-0xb7''), (''E__Transaction'', ''bae-0xt1''), (''E__Transaction'', ''bae-0xt2''),
       (''E__BlockSignature'', ''bae-'')], Some cr, None)" using demo_store by blast
  from Store_complete [OF demo_handler_ok demo_names this] show ?thesis by blast
qed

text \<open>C14: only complete blocks are signed. A block signature returned by \<open>Store\<close> means that no error
  occurred, and it is a self-verified signature over exactly the CIDs of the documents written by this
  call: no more, no fewer, each once.\<close>

theorem Store_signs_complete:
  assumes "handler_ok h d stored cidOf" and "plain_names (Groups r)" and "evm_store h now createdAt r w = (w', Some cr, err)"
    and "bc_BlockSignatureID cr \<noteq> []"
  shows "err = None \<and> (\<exists>g rest x' dss. Groups r = g # rest \<and> stamped rest dss
    \<and> tracked (Collection g) cr = insert (SignatureCollection r, bc_BlockSignatureID cr)
        (set (txn_ids d ((Collection g, x') # written_docs rest dss)))
    \<and> attests h d createdAt (bc_BlockNumber cr) (string_or_empty (mget (hd (Docs g)) (BlockHashField g)))
        (SignatureCollection r) (txn_cids cidOf ((Collection g, x') # written_docs rest dss)) (bc_BlockSignatureID cr))"
proof -
  obtain g rest x xs new where g: "Groups r = g # rest" "Docs g = x # xs" "bc_OtherDocIDs cr = ids_of new" "err = None"
    "bc_BlockSignatureCollection cr = SignatureCollection r"
    "\<exists>x' dss. stamped rest dss \<and> bc_BlockID cr = DocIDString d (Collection g) x' \<and> new = txn_ids d (written_docs rest dss)
      \<and> attests h d createdAt (bc_BlockNumber cr) (string_or_empty (mget x (BlockHashField g))) (SignatureCollection r)
          (txn_cids cidOf ((Collection g, x') # written_docs rest dss)) (bc_BlockSignatureID cr)"
    by (rule evm_store_Some [OF assms(1-3)]) (use assms(4) in blast)
  then obtain x' dss where w: "stamped rest dss" "bc_BlockID cr = DocIDString d (Collection g) x'"
    "bc_OtherDocIDs cr = ids_of (txn_ids d (written_docs rest dss))"
    "attests h d createdAt (bc_BlockNumber cr) (string_or_empty (mget x (BlockHashField g))) (SignatureCollection r)
          (txn_cids cidOf ((Collection g, x') # written_docs rest dss)) (bc_BlockSignatureID cr)" by blast
  have "tracked (Collection g) cr = insert (SignatureCollection r, bc_BlockSignatureID cr)
      (set (txn_ids d ((Collection g, x') # written_docs rest dss)))"
    using assms(4) unfolding tracked_def w(2,3) g(5) set_ids_of by auto
  then show ?thesis using g(1,4) w(1,4)
    by (intro conjI exI [of _ g] exI [of _ rest] exI [of _ x'] exI [of _ dss]) (simp_all only: g(2) list.sel)
qed

theorem Store_signs_complete_witness:
  "\<exists>(cr :: BlockCreationResult) g rest x' dss. Groups demo_conversion = g # rest \<and> stamped rest dss
    \<and> attests (demo_handler []) (demo_db []) ''t'' (bc_BlockNumber cr) (string_or_empty (mget (hd (Docs g)) (BlockHashField g)))
        (SignatureCollection demo_conversion) (txn_cids demo_id ((Collection g, x') # written_docs rest dss)) (bc_BlockSignatureID cr)"
proof -
  obtain cr where cr: "evm_store (demo_handler []) 0 ''t'' demo_conversion [] =
     ([(''E__Block'', ''bae-0xb7''), (''E__Transaction'', ''bae-0xt1''), (''E__Transaction'', ''bae-0xt2''),
       (''E__BlockSignature'', ''bae-'')], Some cr, None)" "bc_BlockSignatureID cr = ''bae-''" using demo_store by blast
  then have "bc_BlockSignatureID cr \<noteq> []" by simp
  from Store_signs_complete [OF demo_handler_ok demo_names cr(1) this] obtain g rest x' dss where
    "Groups demo_conversion = g # rest" "stamped rest dss"
    "attests (demo_handler []) (demo_db []) ''t'' (bc_BlockNumber cr) (string_or_empty (mget (hd (Docs g)) (BlockHashField g)))
        (SignatureCollection demo_conversion) (txn_cids demo_id ((Collection g, x') # written_docs rest dss)) (bc_BlockSignatureID cr)"
    by (elim conjE exE)
  then show ?thesis by (intro exI [of _ cr] exI [of _ g] exI [of _ rest] exI [of _ x'] exI [of _ dss] conjI)
qed

text \<open>What \<open>storeWithRetry\<close> sees of a call of \<open>Store\<close>: the block's docID, or the error.\<close>

definition store_call :: "'w BlockHandler \<Rightarrow> int \<Rightarrow> string \<Rightarrow> ConversionResult \<Rightarrow> 'w \<Rightarrow> 'w \<times> docID result" where
  "store_call h now createdAt r w = (case evm_store h now createdAt r w of
     (w', _, Some e) \<Rightarrow> (w', Inl e) | (w', Some cr, None) \<Rightarrow> (w', Inr (bc_BlockID cr))
   | (w', None, None) \<Rightarrow> (w', Inr []))"

text \<open>C16: storing is idempotent. When the block document is already stored and the database is reachable,
  storing the block again changes nothing, is reported as a success, and asks for the signature of the
  existing block instead.\<close>

theorem Store_idempotent:
  assumes "handler_ok h d stored cidOf" and "Groups r = g # rest" and "Docs g = x # xs"
    and "Collection g = Block (cols (LinkStamper r))" and "toInt64 (mget x (BlockNumField g)) = Inr k"
    and "(Collection g, DocIDString d (Collection g) x) \<in> stored w" and "pre env 0 = None"
    and "snd (NewTxn d w) = None" and "GetCollectionByName d (fst (NewTxn d w)) (Collection g) = None"
    and "NewDocFromMap d (Collection g) x = None"
  shows "\<exists>w' res. storeWithRetry env (store_call h now createdAt) n r w = (w', res, True)
    \<and> br_Success res \<and> stored w' = stored w"
proof -
  have laws: "db_laws d stored cidOf" and h: "bh_db h = Some d" using assms(1) by (auto simp: handler_ok_def)
  obtain w1 where t: "NewTxn d w = (w1, None)" using assms(8) by (cases "NewTxn d w") auto
  then have w1: "stored w1 = stored w" using db_lawsD(1) [OF laws] by simp
  obtain e added where "AddDocument d w1 [] (Collection g) x = (Some e, added)" "IsErrAlreadyExists (Some e)"
    using db_lawsD(6) [OF laws, of "Collection g" x w1 "[]"] assms(6) w1
    by (cases "AddDocument d w1 [] (Collection g) x") auto
  then have "storeBlockDoc d x (Collection g) w [] = (w1, added, Inl (ErrMsg ''block already exists''))"
    using assms(9,10) by (simp add: storeBlockDoc_def t)
  moreover have "stampBlockGroup StampBeforeWrite (Some (LinkStamper r)) g = Inr (x # xs)"
    using assms(3,4) by (simp add: stampBlockGroup_def StampBeforeWrite_def)
  ultimately have "store_call h now createdAt r w = (w1, Inl (ErrMsg ''block already exists''))"
    using assms(2,3,5) by (simp add: store_call_def evm_store_def Store_def h Let_def)
  then show ?thesis using assms(7) w1 by (simp add: storeWithRetry_def numeral_3_eq_3)
qed

theorem Store_idempotent_witness:
  "\<exists>w' res. storeWithRetry quiet_env (store_call (demo_handler []) 0 ''t'') 7 demo_conversion [(''E__Block'', ''bae-0xb7'')] = (w', res, True)
    \<and> br_Success res \<and> set w' = set [(''E__Block'', ''bae-0xb7'')]"
  by (rule Store_idempotent [OF demo_handler_ok [of "[]"], of demo_conversion demo_block_group "[demo_tx_group]"
      "[''number'' \<mapsto> AInt64 7, ''hash'' \<mapsto> AString ''0xb7'']" "[]" 7])
    (simp_all add: demo_conversion_def demo_block_group_def demo_stamper_def newEvmLinkStamper_def NewCollectionNames_def
      toInt64_def quiet_env_def demo_id_def string_or_empty_def)

text \<open>A handler whose transaction batch keeps conflicting: the first call leaves the block document only.\<close>

lemma demo_conflict_store:
  "evm_store (demo_handler ''E__Transaction'') 0 ''t'' demo_conversion [] =
    ([(''E__Block'', ''bae-0xb7'')], Some \<lparr>bc_BlockNumber = 7, bc_BlockID = ''bae-0xb7'', bc_BlockSignatureID = [],
       bc_BlockSignatureCollection = ''E__BlockSignature'', bc_OtherDocIDs = (\<lambda>_. [])\<rparr>,
     Some (err_partial 7 [Wrapped ''commit E__Transaction batch: '' demo_conflict []]))"
proof -
  let ?h = "demo_handler ''E__Transaction''"
  have h: "bh_db ?h = Some (demo_db ''E__Transaction'')" "docIDTracker ?h = None" by (simp_all add: demo_handler_def)
  have g: "Docs demo_block_group = [[''number'' \<mapsto> AInt64 7, ''hash'' \<mapsto> AString ''0xb7'']]" "Collection demo_block_group = ''E__Block''"
    "BlockNumField demo_block_group = ''number''" "BlockHashField demo_block_group = ''hash''" "Collection demo_tx_group = ''E__Transaction''"
    by (simp_all add: demo_block_group_def demo_tx_group_def)
  show ?thesis
    using demo_stamps(1-3) [unfolded g]
    by (auto simp: evm_store_def Store_def h demo_conversion_def g toInt64_def demo_block_write demo_group_write
        signStoredBlock_def string_or_empty_def Let_def)
qed

lemma demo_exists_store:
  "evm_store (demo_handler b) 0 ''t'' demo_conversion [(''E__Block'', ''bae-0xb7'')] =
    ([(''E__Block'', ''bae-0xb7'')], None, Some (ErrMsg ''block already exists''))"
proof -
  have h: "bh_db (demo_handler b) = Some (demo_db b)" by (simp add: demo_handler_def)
  have g: "Docs demo_block_group = [[''number'' \<mapsto> AInt64 7, ''hash'' \<mapsto> AString ''0xb7'']]" "Collection demo_block_group = ''E__Block''"
    "BlockNumField demo_block_group = ''number''" by (simp_all add: demo_block_group_def)
  show ?thesis using demo_stamps(1) [unfolded g]
    by (simp add: evm_store_def Store_def h demo_conversion_def g toInt64_def demo_block_write Let_def)
qed

lemma demo_partial_text:
  "\<not> IsErrAlreadyExists (Some (err_partial 7 [Wrapped ''commit E__Transaction batch: '' demo_conflict []]))"
  "IsErrTransactionConflict (Some (err_partial 7 [Wrapped ''commit E__Transaction batch: '' demo_conflict []]))"
proof -
  show "IsErrTransactionConflict (Some (err_partial 7 [Wrapped ''commit E__Transaction batch: '' demo_conflict []]))"
    unfolding err_partial_def using demo_conflict_text by (auto intro!: IsErrTransactionConflict_Wrapped)
  have "itoa 7 = ''7''" "itoa 1 = ''1''" by (simp_all add: itoa_def nat_text.simps digit_char_def)
  then show "\<not> IsErrAlreadyExists (Some (err_partial 7 [Wrapped ''commit E__Transaction batch: '' demo_conflict []]))"
    by (simp add: IsErrAlreadyExists_def err_partial_def demo_conflict_def contains_def sublist_code)
qed


section \<open>Signing existing blocks\<close>

lemma existing_ids_ok:
  "existing_ids exec n gs ids names = Inr (ids', names') \<Longrightarrow>
   \<exists>idss. list_all2 (\<lambda>g js. handlerDocIDs exec (Collection g) (BlockNumField g) n n = Inr js \<and> length (Docs g) \<le> length js) gs idss
     \<and> ids' = ids @ concat idss \<and> names' = names @ map Collection gs"
proof (induction gs arbitrary: ids names)
  case (Cons g gs)
  then obtain js where js: "handlerDocIDs exec (Collection g) (BlockNumField g) n n = Inr js" "length (Docs g) \<le> length js"
    and rest: "existing_ids exec n gs (ids @ js) (names @ [Collection g]) = Inr (ids', names')"
    by (auto split: if_splits sum.splits)
  from Cons.IH [OF rest] obtain idss where
    "list_all2 (\<lambda>g js. handlerDocIDs exec (Collection g) (BlockNumField g) n n = Inr js \<and> length (Docs g) \<le> length js) gs idss"
    "ids' = (ids @ js) @ concat idss" "names' = (names @ [Collection g]) @ map Collection gs" by blast
  with js show ?case by (intro exI [of _ "js # idss"]) simp
qed simp

lemma cid_attempts_ok:
  "cid_attempts h w n ids names k left c a e = Inr cids \<Longrightarrow>
   \<exists>j < k + left. collectDocCIDsFn h w j ids names = Inr cids \<and> length ids \<le> length cids"
proof (induction left arbitrary: k c a e)
  case (Suc left)
  show ?case
  proof (cases "collectDocCIDsFn h w k ids names")
    case (Inl err)
    then have "cid_attempts h w n ids names (k + 1) left c a err = Inr cids"
      using Suc.prems by (auto simp: Let_def split: option.splits if_splits)
    from Suc.IH [OF this] show ?thesis by auto
  next
    case (Inr cs)
    show ?thesis
    proof (cases "length ids \<le> length cs")
      case True
      then show ?thesis using Suc.prems Inr by (intro exI [of _ k]) (auto simp: Let_def split: option.splits)
    next
      case False
      then obtain c' a' e' where "cid_attempts h w n ids names (k + 1) left c' a' e' = Inr cids"
        using Suc.prems Inr by (auto simp: Let_def split: option.splits if_splits)
      from Suc.IH [OF this] show ?thesis by auto
    qed
  qed
qed simp



end
