(* ===== verification/Config.thy ===== *)
theory Config
  imports Hex_Codec
begin

text \<open>
  File \<open>config/config.go\<close>: the configuration records, their defaults, the environment overrides and the
  validation. The process environment is a function from names to values, empty where unset (after
  \<open>godotenv.Load\<close>); reading the file (at the cleaned path) and the YAML decoder are arguments of \<open>LoadConfig\<close>. Integer fields
  hold \<open>int\<close> and \<open>int64\<close> values, and their arithmetic wraps at 64 bits.
\<close>

section \<open>Records\<close>

record DefraDBP2PConfig =
  BootstrapPeers :: "string list"
  ListenAddr :: string
  p2p_Enabled :: bool
  AcceptIncoming :: bool
  MaxRetries :: int
  RetryBaseDelayMs :: int
  ReconnectIntervalMs :: int
  EnableAutoReconnect :: bool
  ResourceMemoryMiB :: int
  ResourceFileDescriptors :: int
  MaxStreamsPerPeer :: int

record DefraDBStoreConfig =
  store_Path :: string
  BlockCacheMB :: int
  MemTableMB :: int
  IndexCacheMB :: int
  NumCompactors :: int
  NumLevelZeroTables :: int
  NumLevelZeroTablesStall :: int
  ValueLogFileSizeMB :: int

record DefraDBConfig =
  URL :: string
  KeyringSecret :: string
  Embedded :: bool
  P2P :: DefraDBP2PConfig
  DefraStore :: DefraDBStoreConfig

record GethConfig =
  NodeURL :: string
  WsURL :: string
  APIKey :: string
  APIKeyType :: string
  DialTimeoutSeconds :: int

record IndexerConfig =
  StartHeight :: int
  ConcurrentBlocks :: int
  ReceiptWorkers :: int
  ix_MaxDocsPerTxn :: int
  ix_MaxTxDocsPerBatch :: int
  ix_MaxLogDocsPerBatch :: int
  ix_MaxALEDocsPerBatch :: int
  BlocksPerMinute :: int
  HealthServerPort :: int
  OpenBrowserOnStart :: bool
  StartBuffer :: int
  SchemaAuthMode :: string
  SchemaAPIKeys :: "string list"

record PrunerConfig =
  pc_Enabled :: bool
  MaxBlocks :: int
  DocsPerBlock :: int
  PruneThreshold :: int
  pc_IntervalSeconds :: int
  PruneHistory :: bool
  MaxBlocksPerCycle :: int

record SnapshotConfig =
  sc_Enabled :: bool
  sc_Dir :: string
  BlocksPerFile :: int
  sc_IntervalSeconds :: int
  MaxSnapshots :: int

record Config =
  cfg_Chain :: ChainConfig
  cfg_DefraDB :: DefraDBConfig
  cfg_Geth :: GethConfig
  cfg_Indexer :: IndexerConfig
  cfg_Pruner :: PrunerConfig
  cfg_Snapshot :: SnapshotConfig
  cfg_LowestBlockQueryLimit :: int
  cfg_Development :: bool

section \<open>Integers and booleans from text\<close>

text \<open>\<open>strconv.Atoi\<close> on a 64-bit platform accepts what \<open>ParseInt\<close> accepts in base 10; \<open>strconv.ParseBool\<close>.\<close>

definition wrap_int64 :: "int \<Rightarrow> int" where
  "wrap_int64 x = (x + 2 ^ 63) mod 2 ^ 64 - 2 ^ 63"

definition Atoi :: "string \<Rightarrow> int result" where
  "Atoi s = (case ParseInt s 10 of (n, None) \<Rightarrow> Inr n
     | (_, Some (Wrapped _ f _)) \<Rightarrow> Inl (Wrapped (''strconv.Atoi: parsing '' @ quoted s @ '': '') f [])
     | (_, Some e) \<Rightarrow> Inl e)"

definition ParseBool :: "string \<Rightarrow> bool option" where
  "ParseBool s = (if s \<in> {''1'', ''t'', ''T'', ''TRUE'', ''true'', ''True''} then Some True
     else if s \<in> {''0'', ''f'', ''F'', ''FALSE'', ''false'', ''False''} then Some False else None)"

section \<open>Defaults\<close>

definition MaxDocs :: "PrunerConfig \<Rightarrow> int" where
  "MaxDocs c = wrap_int64 (MaxBlocks c * DocsPerBlock c)"

abbreviation (input) default_to :: "int \<Rightarrow> int \<Rightarrow> int" where
  "default_to d n \<equiv> (if n \<le> 0 then d else n)"

definition Pruner_SetDefaults :: "PrunerConfig \<Rightarrow> PrunerConfig" where
  "Pruner_SetDefaults c = c\<lparr>MaxBlocks := default_to 10000 (MaxBlocks c), DocsPerBlock := default_to 1000 (DocsPerBlock c),
     pc_IntervalSeconds := default_to 60 (pc_IntervalSeconds c)\<rparr>"

abbreviation (input) DefaultMaxSnapshots :: int where "DefaultMaxSnapshots \<equiv> 100"
abbreviation (input) DefaultLowestBlockQueryLimit :: int where "DefaultLowestBlockQueryLimit \<equiv> 1"

definition Snapshot_SetDefaults :: "SnapshotConfig \<Rightarrow> SnapshotConfig" where
  "Snapshot_SetDefaults c = c\<lparr>sc_Dir := (if sc_Dir c = [] then ''./snapshots'' else sc_Dir c),
     BlocksPerFile := default_to 1000 (BlocksPerFile c), sc_IntervalSeconds := default_to 60 (sc_IntervalSeconds c),
     MaxSnapshots := (if MaxSnapshots c = 0 then DefaultMaxSnapshots else MaxSnapshots c)\<rparr>"

definition Converter_SetDefaults :: "int \<Rightarrow> int" where
  "Converter_SetDefaults limit = default_to DefaultLowestBlockQueryLimit limit"

definition or_else :: "string \<Rightarrow> string \<Rightarrow> string" where
  "or_else s d = (if s = [] then d else s)"

definition applyDefaults :: "Config \<Rightarrow> Config" where
  "applyDefaults c = c\<lparr>
     cfg_Chain := (cfg_Chain c)\<lparr>ChainName := or_else (ChainName (cfg_Chain c)) ''Ethereum'',
       Network := or_else (Network (cfg_Chain c)) ''Mainnet'', Adapter := or_else (Adapter (cfg_Chain c)) DefaultAdapterName\<rparr>,
     cfg_Indexer := (cfg_Indexer c)\<lparr>ConcurrentBlocks := default_to 8 (ConcurrentBlocks (cfg_Indexer c)),
       ReceiptWorkers := default_to 16 (ReceiptWorkers (cfg_Indexer c)),
       ix_MaxDocsPerTxn := default_to 1000 (ix_MaxDocsPerTxn (cfg_Indexer c)),
       HealthServerPort := (if HealthServerPort (cfg_Indexer c) = 0 then 8080 else HealthServerPort (cfg_Indexer c)),
       StartBuffer := default_to 100 (StartBuffer (cfg_Indexer c)),
       SchemaAuthMode := or_else (SchemaAuthMode (cfg_Indexer c)) ''token''\<rparr>,
     cfg_Pruner := Pruner_SetDefaults (cfg_Pruner c), cfg_Snapshot := Snapshot_SetDefaults (cfg_Snapshot c),
     cfg_LowestBlockQueryLimit := Converter_SetDefaults (cfg_LowestBlockQueryLimit c)\<rparr>"

section \<open>Validation\<close>

definition err_coverage :: "int \<Rightarrow> int \<Rightarrow> int \<Rightarrow> int \<Rightarrow> goerror" where
  "err_coverage ms bpf cov mb = ErrMsg (''snapshot coverage (max_snapshots='' @ itoa ms @ '' * blocks_per_file='' @ itoa bpf
     @ '' = '' @ itoa cov @ '') must be >= pruner max_blocks='' @ itoa mb
     @ '': increase max_snapshots or blocks_per_file, lower max_blocks, or set max_snapshots: -1'')"

definition validateConfig :: "Config \<Rightarrow> goerror option" where
  "validateConfig c =
     (if Adapter (cfg_Chain c) \<noteq> DefaultAdapterName then Some (ErrMsg (''chain adapter '' @ quoted (Adapter (cfg_Chain c))
        @ '' not yet implemented: only '' @ quoted DefaultAdapterName @ '' is supported''))
      else if StartHeight (cfg_Indexer c) < 0 then Some (ErrMsg ''start_height must be >= 0'')
      else if SchemaAuthMode (cfg_Indexer c) \<notin> {''none'', ''token'', ''mtls''} then Some (ErrMsg (''invalid SCHEMA_AUTH_MODE ''
        @ quoted (SchemaAuthMode (cfg_Indexer c)) @ '': must be one of none, token, mtls''))
      else if \<not> Embedded (cfg_DefraDB c) \<and> trim_space (URL (cfg_DefraDB c)) = []
        then Some (ErrMsg ''external DefraDB requires a non-empty url'')
      else if MaxSnapshots (cfg_Snapshot c) < -1 then Some (ErrMsg (''max_snapshots must be >= -1 (0 = default ''
        @ itoa DefaultMaxSnapshots @ '', -1 = unlimited)''))
      else if sc_Enabled (cfg_Snapshot c) \<and> pc_Enabled (cfg_Pruner c) \<and> MaxSnapshots (cfg_Snapshot c) > 0
      then (let coverage = wrap_int64 (MaxSnapshots (cfg_Snapshot c) * BlocksPerFile (cfg_Snapshot c)) in
        if coverage < MaxBlocks (cfg_Pruner c)
        then Some (err_coverage (MaxSnapshots (cfg_Snapshot c)) (BlocksPerFile (cfg_Snapshot c)) coverage (MaxBlocks (cfg_Pruner c)))
        else None)
      else None)"

section \<open>Environment overrides\<close>

type_synonym environment = "string \<Rightarrow> string"

text \<open>An override is applied when the variable is set and, for the typed ones, parses; a value that does
  not parse is ignored. \<open>upd\<close> is the update of the field.\<close>

definition env_string :: "environment \<Rightarrow> string \<Rightarrow> (string \<Rightarrow> 'c \<Rightarrow> 'c) \<Rightarrow> 'c \<Rightarrow> 'c" where
  "env_string env name upd c = (if env name = [] then c else upd (env name) c)"

definition env_int :: "environment \<Rightarrow> string \<Rightarrow> (int \<Rightarrow> 'c \<Rightarrow> 'c) \<Rightarrow> 'c \<Rightarrow> 'c" where
  "env_int env name upd c = (if env name = [] then c
     else case Atoi (env name) of Inr n \<Rightarrow> upd n c | Inl _ \<Rightarrow> c)"

definition env_bool :: "environment \<Rightarrow> string \<Rightarrow> (bool \<Rightarrow> 'c \<Rightarrow> 'c) \<Rightarrow> 'c \<Rightarrow> 'c" where
  "env_bool env name upd c = (if env name = [] then c else case ParseBool (env name) of Some b \<Rightarrow> upd b c | None \<Rightarrow> c)"

definition envPositiveInt :: "environment \<Rightarrow> string \<Rightarrow> int option result" where
  "envPositiveInt env name = (let raw = env name in
     if raw = [] then Inr None
     else case Atoi raw of
       Inl e \<Rightarrow> Inl (Wrapped (''invalid '' @ name @ '' value '' @ quoted raw @ '': '') e [])
     | Inr n \<Rightarrow> if n \<le> 0 then Inl (ErrMsg (''invalid '' @ name @ '' value '' @ quoted raw @ '': must be positive'')) else Inr (Some n))"

abbreviation (input) on_defra where "on_defra f \<equiv> cfg_DefraDB_update f"
abbreviation (input) on_p2p where "on_p2p f \<equiv> cfg_DefraDB_update (P2P_update f)"
abbreviation (input) on_store where "on_store f \<equiv> cfg_DefraDB_update (DefraStore_update f)"
abbreviation (input) on_chain where "on_chain f \<equiv> cfg_Chain_update f"
abbreviation (input) on_geth where "on_geth f \<equiv> cfg_Geth_update f"
abbreviation (input) on_indexer where "on_indexer f \<equiv> cfg_Indexer_update f"
abbreviation (input) on_pruner where "on_pruner f \<equiv> cfg_Pruner_update f"
abbreviation (input) on_snapshot where "on_snapshot f \<equiv> cfg_Snapshot_update f"

definition defra_url :: "environment \<Rightarrow> Config \<Rightarrow> Config" where
  "defra_url env c =
     (if env ''DEFRADB_URL'' \<noteq> [] then on_defra (URL_update (\<lambda>_. env ''DEFRADB_URL'')) c
      else if env ''DEFRADB_HOST'' \<noteq> [] then
        (if env ''DEFRADB_PORT'' \<noteq> []
         then on_defra (URL_update (\<lambda>_. ''http://'' @ env ''DEFRADB_HOST'' @ '':'' @ env ''DEFRADB_PORT'')) c
         else on_defra (URL_update (\<lambda>_. ''http://'' @ env ''DEFRADB_HOST'' @ '':9181'')) c)
      else c)"

definition positive_override :: "environment \<Rightarrow> string \<Rightarrow> (int \<Rightarrow> Config \<Rightarrow> Config) \<Rightarrow> Config \<Rightarrow> Config result" where
  "positive_override env name upd c = (case envPositiveInt env name of
     Inl e \<Rightarrow> Inl e | Inr None \<Rightarrow> Inr c | Inr (Some n) \<Rightarrow> Inr (upd n c))"

definition then_apply :: "Config result \<Rightarrow> (Config \<Rightarrow> Config result) \<Rightarrow> Config result" where
  "then_apply r f = (case r of Inl e \<Rightarrow> Inl e | Inr c \<Rightarrow> f c)"

definition defra_plain :: "environment \<Rightarrow> Config \<Rightarrow> Config" where
  "defra_plain env c =
     env_bool env ''DEFRADB_P2P_ACCEPT_INCOMING'' (\<lambda>b. on_p2p (AcceptIncoming_update (\<lambda>_. b)))
     (env_string env ''DEFRADB_P2P_LISTEN_ADDR'' (\<lambda>s. on_p2p (ListenAddr_update (\<lambda>_. s)))
     (env_bool env ''DEFRADB_P2P_ENABLED'' (\<lambda>b. on_p2p (p2p_Enabled_update (\<lambda>_. b)))
     (env_string env ''DEFRADB_KEYRING_SECRET'' (\<lambda>s. on_defra (KeyringSecret_update (\<lambda>_. s)))
     (defra_url env c))))"

definition defra_store :: "environment \<Rightarrow> Config \<Rightarrow> Config" where
  "defra_store env c =
     env_int env ''DEFRADB_NUM_LEVEL_ZERO_TABLES_STALL'' (\<lambda>n. on_store (NumLevelZeroTablesStall_update (\<lambda>_. n)))
     (env_int env ''DEFRADB_NUM_LEVEL_ZERO_TABLES'' (\<lambda>n. on_store (NumLevelZeroTables_update (\<lambda>_. n)))
     (env_int env ''DEFRADB_NUM_COMPACTORS'' (\<lambda>n. on_store (NumCompactors_update (\<lambda>_. n)))
     (env_int env ''DEFRADB_INDEX_CACHE_MB'' (\<lambda>n. on_store (IndexCacheMB_update (\<lambda>_. n)))
     (env_int env ''DEFRADB_MEMTABLE_MB'' (\<lambda>n. on_store (MemTableMB_update (\<lambda>_. n)))
     (env_int env ''DEFRADB_BLOCK_CACHE_MB'' (\<lambda>n. on_store (BlockCacheMB_update (\<lambda>_. n)))
     (env_string env ''DEFRADB_STORE_PATH'' (\<lambda>s. on_store (store_Path_update (\<lambda>_. s))) c))))))"

definition applyDefraEnvOverrides :: "environment \<Rightarrow> Config \<Rightarrow> Config result" where
  "applyDefraEnvOverrides env c =
     then_apply (then_apply (then_apply
       (positive_override env ''DEFRADB_P2P_RESOURCE_MEMORY_MIB'' (\<lambda>n. on_p2p (ResourceMemoryMiB_update (\<lambda>_. n))) (defra_plain env c))
       (positive_override env ''DEFRADB_P2P_RESOURCE_FILE_DESCRIPTORS'' (\<lambda>n. on_p2p (ResourceFileDescriptors_update (\<lambda>_. n)))))
       (positive_override env ''DEFRADB_P2P_MAX_STREAMS_PER_PEER'' (\<lambda>n. on_p2p (MaxStreamsPerPeer_update (\<lambda>_. n)))))
       (\<lambda>c. Inr (defra_store env c))"

definition applyChainEnvOverrides :: "environment \<Rightarrow> Config \<Rightarrow> Config" where
  "applyChainEnvOverrides env c =
     env_int env ''GETH_DIAL_TIMEOUT_SECONDS'' (\<lambda>n. on_geth (DialTimeoutSeconds_update (\<lambda>_. n)))
     (env_string env ''GETH_API_KEY_TYPE'' (\<lambda>s. on_geth (APIKeyType_update (\<lambda>_. s)))
     (env_string env ''GETH_API_KEY'' (\<lambda>s. on_geth (APIKey_update (\<lambda>_. s)))
     (env_string env ''GETH_WS_URL'' (\<lambda>s. on_geth (WsURL_update (\<lambda>_. s)))
     (env_string env ''GETH_RPC_URL'' (\<lambda>s. on_geth (NodeURL_update (\<lambda>_. s)))
     (env_string env ''CHAIN_ADAPTER'' (\<lambda>s. on_chain (Adapter_update (\<lambda>_. s)))
     (env_string env ''SHINZOHUB_REST_BASE'' (\<lambda>s. on_chain (Hub_update (\<lambda>_. s)))
     (env_string env ''CHAIN_NETWORK'' (\<lambda>s. on_chain (Network_update (\<lambda>_. s)))
     (env_string env ''CHAIN_NAME'' (\<lambda>s. on_chain (ChainName_update (\<lambda>_. s))) c))))))))"

definition applyIndexerEnvOverrides :: "environment \<Rightarrow> Config \<Rightarrow> Config" where
  "applyIndexerEnvOverrides env c =
     env_int env ''INDEXER_START_BUFFER'' (\<lambda>n. on_indexer (StartBuffer_update (\<lambda>_. n)))
     (env_int env ''INDEXER_HEALTH_SERVER_PORT'' (\<lambda>n. on_indexer (HealthServerPort_update (\<lambda>_. n)))
     (env_int env ''INDEXER_BLOCKS_PER_MINUTE'' (\<lambda>n. on_indexer (BlocksPerMinute_update (\<lambda>_. n)))
     (env_int env ''INDEXER_MAX_ALE_DOCS'' (\<lambda>n. on_indexer (ix_MaxALEDocsPerBatch_update (\<lambda>_. n)))
     (env_int env ''INDEXER_MAX_LOG_DOCS'' (\<lambda>n. on_indexer (ix_MaxLogDocsPerBatch_update (\<lambda>_. n)))
     (env_int env ''INDEXER_MAX_TX_DOCS'' (\<lambda>n. on_indexer (ix_MaxTxDocsPerBatch_update (\<lambda>_. n)))
     (env_int env ''INDEXER_MAX_DOCS_PER_TXN'' (\<lambda>n. on_indexer (ix_MaxDocsPerTxn_update (\<lambda>_. n)))
     (env_int env ''INDEXER_RECEIPT_WORKERS'' (\<lambda>n. on_indexer (ReceiptWorkers_update (\<lambda>_. n)))
     (env_int env ''INDEXER_CONCURRENT_BLOCKS'' (\<lambda>n. on_indexer (ConcurrentBlocks_update (\<lambda>_. n)))
     (env_int env ''INDEXER_START_HEIGHT'' (\<lambda>n. on_indexer (StartHeight_update (\<lambda>_. n))) c)))))))))"

text \<open>\<open>strings.Split\<close> at a comma.\<close>

fun split_commas :: "string \<Rightarrow> string list" where
  "split_commas [] = [[]]"
| "split_commas (c # cs) = (case split_commas cs of
     [] \<Rightarrow> [[c]] | p # ps \<Rightarrow> if c = CHR '','' then [] # p # ps else (c # p) # ps)"

definition schema_keys :: "string \<Rightarrow> string list" where
  "schema_keys keys = filter (\<lambda>k. k \<noteq> []) (map trim_space (split_commas keys))"

definition applySchemaEnvOverrides :: "environment \<Rightarrow> Config \<Rightarrow> Config" where
  "applySchemaEnvOverrides env c =
     env_string env ''SCHEMA_API_KEYS'' (\<lambda>s. on_indexer (SchemaAPIKeys_update (\<lambda>_. schema_keys s)))
     (env_string env ''SCHEMA_AUTH_MODE'' (\<lambda>s. on_indexer (SchemaAuthMode_update (\<lambda>_. s))) c)"

definition applyPrunerEnvOverrides :: "environment \<Rightarrow> Config \<Rightarrow> Config" where
  "applyPrunerEnvOverrides env c =
     env_int env ''PRUNER_INTERVAL_SECONDS'' (\<lambda>n. on_pruner (pc_IntervalSeconds_update (\<lambda>_. n)))
     (env_int env ''PRUNER_PRUNE_THRESHOLD'' (\<lambda>n. on_pruner (PruneThreshold_update (\<lambda>_. n)))
     (env_int env ''PRUNER_MAX_BLOCKS'' (\<lambda>n. on_pruner (MaxBlocks_update (\<lambda>_. n)))
     (env_bool env ''PRUNER_ENABLED'' (\<lambda>b. on_pruner (pc_Enabled_update (\<lambda>_. b))) c)))"

definition applySnapshotEnvOverrides :: "environment \<Rightarrow> Config \<Rightarrow> Config" where
  "applySnapshotEnvOverrides env c =
     env_int env ''SNAPSHOT_MAX_SNAPSHOTS'' (\<lambda>n. on_snapshot (MaxSnapshots_update (\<lambda>_. n)))
     (env_int env ''SNAPSHOT_INTERVAL_SECONDS'' (\<lambda>n. on_snapshot (sc_IntervalSeconds_update (\<lambda>_. n)))
     (env_int env ''SNAPSHOT_BLOCKS_PER_FILE'' (\<lambda>n. on_snapshot (BlocksPerFile_update (\<lambda>_. n)))
     (env_string env ''SNAPSHOT_DIR'' (\<lambda>s. on_snapshot (sc_Dir_update (\<lambda>_. s)))
     (env_bool env ''SNAPSHOT_ENABLED'' (\<lambda>b. on_snapshot (sc_Enabled_update (\<lambda>_. b))) c))))"

definition applyConverterEnvOverrides :: "environment \<Rightarrow> Config \<Rightarrow> Config" where
  "applyConverterEnvOverrides env c =
     env_int env ''CONVERTER_LOWEST_BLOCK_QUERY_LIMIT'' (\<lambda>n. cfg_LowestBlockQueryLimit_update (\<lambda>_. n)) c"

definition applyEnvOverrides :: "environment \<Rightarrow> Config \<Rightarrow> Config result" where
  "applyEnvOverrides env c = (case applyDefraEnvOverrides env c of Inl e \<Rightarrow> Inl e
     | Inr c \<Rightarrow> Inr (env_bool env ''LOGGER_DEBUG'' (\<lambda>b. cfg_Development_update (\<lambda>_. b))
         (applyConverterEnvOverrides env (applySnapshotEnvOverrides env (applyPrunerEnvOverrides env
           (applySchemaEnvOverrides env (applyIndexerEnvOverrides env (applyChainEnvOverrides env c))))))))"

section \<open>LoadConfig\<close>

definition LoadConfig :: "(string \<Rightarrow> string result) \<Rightarrow> (string \<Rightarrow> Config result) \<Rightarrow> environment \<Rightarrow> string \<Rightarrow> Config result" where
  "LoadConfig ReadFile Unmarshal env path = (case ReadFile path of
     Inl e \<Rightarrow> Inl (Wrapped ''failed to read config file: '' e [])
   | Inr data \<Rightarrow> (case Unmarshal data of
       Inl e \<Rightarrow> Inl (Wrapped ''failed to parse config file: '' e [])
     | Inr c \<Rightarrow> (case applyEnvOverrides env c of
         Inl e \<Rightarrow> Inl e
       | Inr c \<Rightarrow> (let c = applyDefaults c in
           case validateConfig c of Some e \<Rightarrow> Inl (Wrapped ''invalid configuration: '' e []) | None \<Rightarrow> Inr c))))"

section \<open>Well-formed configurations\<close>

text \<open>What the other components rely on.\<close>

definition config_ok :: "Config \<Rightarrow> bool" where
  "config_ok c \<longleftrightarrow> Adapter (cfg_Chain c) = DefaultAdapterName \<and> ChainName (cfg_Chain c) \<noteq> [] \<and> Network (cfg_Chain c) \<noteq> []
     \<and> 0 \<le> StartHeight (cfg_Indexer c) \<and> 0 < ConcurrentBlocks (cfg_Indexer c) \<and> 0 < ReceiptWorkers (cfg_Indexer c)
     \<and> 0 < ix_MaxDocsPerTxn (cfg_Indexer c) \<and> HealthServerPort (cfg_Indexer c) \<noteq> 0 \<and> 0 < StartBuffer (cfg_Indexer c)
     \<and> SchemaAuthMode (cfg_Indexer c) \<in> {''none'', ''token'', ''mtls''}
     \<and> 0 < MaxBlocks (cfg_Pruner c) \<and> 0 < DocsPerBlock (cfg_Pruner c) \<and> 0 < pc_IntervalSeconds (cfg_Pruner c)
     \<and> sc_Dir (cfg_Snapshot c) \<noteq> [] \<and> 0 < BlocksPerFile (cfg_Snapshot c) \<and> 0 < sc_IntervalSeconds (cfg_Snapshot c)
     \<and> (MaxSnapshots (cfg_Snapshot c) = -1 \<or> 0 < MaxSnapshots (cfg_Snapshot c))
     \<and> 0 < cfg_LowestBlockQueryLimit c
     \<and> (Embedded (cfg_DefraDB c) \<or> trim_space (URL (cfg_DefraDB c)) \<noteq> [])"

text \<open>On-disk snapshots cover the retention window of the pruner.\<close>

definition covers_retention :: "Config \<Rightarrow> bool" where
  "covers_retention c \<longleftrightarrow> \<not> sc_Enabled (cfg_Snapshot c) \<or> \<not> pc_Enabled (cfg_Pruner c) \<or> MaxSnapshots (cfg_Snapshot c) = -1
     \<or> MaxBlocks (cfg_Pruner c) \<le> MaxSnapshots (cfg_Snapshot c) * BlocksPerFile (cfg_Snapshot c)"

lemma wrap_int64_id: "- (2 ^ 63) \<le> x \<Longrightarrow> x < 2 ^ 63 \<Longrightarrow> wrap_int64 x = x"
  by (simp add: wrap_int64_def)

text \<open>A wrapped product of two positive values is never above the product.\<close>

lemma wrap_int64_le: "0 \<le> x \<Longrightarrow> wrap_int64 x \<le> x"
proof -
  assume x: "0 \<le> x"
  have "(x + 2 ^ 63) mod 2 ^ 64 \<le> x + 2 ^ 63" by (rule zmod_le_nonneg_dividend) (use x in simp)
  then show ?thesis by (simp add: wrap_int64_def)
qed

lemma defaults_ok:
  assumes "validateConfig (applyDefaults c) = None"
  shows "config_ok (applyDefaults c) \<and> covers_retention (applyDefaults c)"
proof -
  let ?c = "applyDefaults c"
  have v: "Adapter (cfg_Chain ?c) = DefaultAdapterName" "0 \<le> StartHeight (cfg_Indexer ?c)"
    "SchemaAuthMode (cfg_Indexer ?c) \<in> {''none'', ''token'', ''mtls''}" "-1 \<le> MaxSnapshots (cfg_Snapshot ?c)"
    "Embedded (cfg_DefraDB ?c) \<or> trim_space (URL (cfg_DefraDB ?c)) \<noteq> []"
    "sc_Enabled (cfg_Snapshot ?c) \<and> pc_Enabled (cfg_Pruner ?c) \<and> MaxSnapshots (cfg_Snapshot ?c) > 0 \<longrightarrow>
      MaxBlocks (cfg_Pruner ?c) \<le> wrap_int64 (MaxSnapshots (cfg_Snapshot ?c) * BlocksPerFile (cfg_Snapshot ?c))"
    using assms unfolding validateConfig_def by (auto simp: Let_def split: if_splits)
  have d: "ChainName (cfg_Chain ?c) \<noteq> []" "Network (cfg_Chain ?c) \<noteq> []" "0 < ConcurrentBlocks (cfg_Indexer ?c)"
    "0 < ReceiptWorkers (cfg_Indexer ?c)" "0 < ix_MaxDocsPerTxn (cfg_Indexer ?c)" "HealthServerPort (cfg_Indexer ?c) \<noteq> 0"
    "0 < StartBuffer (cfg_Indexer ?c)" "0 < MaxBlocks (cfg_Pruner ?c)" "0 < DocsPerBlock (cfg_Pruner ?c)"
    "0 < pc_IntervalSeconds (cfg_Pruner ?c)" "sc_Dir (cfg_Snapshot ?c) \<noteq> []" "0 < BlocksPerFile (cfg_Snapshot ?c)"
    "0 < sc_IntervalSeconds (cfg_Snapshot ?c)" "MaxSnapshots (cfg_Snapshot ?c) \<noteq> 0" "0 < cfg_LowestBlockQueryLimit ?c"
    by (simp_all add: applyDefaults_def Pruner_SetDefaults_def Snapshot_SetDefaults_def Converter_SetDefaults_def or_else_def)
  have "config_ok ?c" unfolding config_ok_def using v(1-5) d by auto
  moreover have "covers_retention ?c"
  proof (cases "sc_Enabled (cfg_Snapshot ?c) \<and> pc_Enabled (cfg_Pruner ?c) \<and> MaxSnapshots (cfg_Snapshot ?c) > 0")
    case True
    then have "0 \<le> MaxSnapshots (cfg_Snapshot ?c) * BlocksPerFile (cfg_Snapshot ?c)" using d(12) by simp
    from wrap_int64_le [OF this] v(6) True show ?thesis by (auto simp: covers_retention_def)
  next
    case False
    then show ?thesis using v(4) d(14) by (auto simp: covers_retention_def)
  qed
  ultimately show ?thesis by simp
qed

text \<open>The three resource limits of the peer-to-peer stack, the only variables whose bad values are errors.\<close>

definition p2p_limits :: "(string \<times> (DefraDBP2PConfig \<Rightarrow> int)) list" where
  "p2p_limits = [(''DEFRADB_P2P_RESOURCE_MEMORY_MIB'', ResourceMemoryMiB),
     (''DEFRADB_P2P_RESOURCE_FILE_DESCRIPTORS'', ResourceFileDescriptors),
     (''DEFRADB_P2P_MAX_STREAMS_PER_PEER'', MaxStreamsPerPeer)]"

abbreviation p2p_of :: "Config \<Rightarrow> DefraDBP2PConfig" where "p2p_of c \<equiv> P2P (cfg_DefraDB c)"

lemma p2p_override [simp]:
  "(\<And>n c. p2p_of (ui n c) = p2p_of c) \<Longrightarrow> p2p_of (env_int env name ui c) = p2p_of c"
  "(\<And>s c. p2p_of (us s c) = p2p_of c) \<Longrightarrow> p2p_of (env_string env name us c) = p2p_of c"
  "(\<And>b c. p2p_of (ub b c) = p2p_of c) \<Longrightarrow> p2p_of (env_bool env name ub c) = p2p_of c"
  by (simp_all add: env_int_def env_string_def env_bool_def split: sum.split option.split)

lemma p2p_later [simp]:
  "p2p_of (applyDefaults c) = p2p_of c" "p2p_of (defra_store env c) = p2p_of c"
  "p2p_of (applyChainEnvOverrides env c) = p2p_of c" "p2p_of (applyIndexerEnvOverrides env c) = p2p_of c"
  "p2p_of (applySchemaEnvOverrides env c) = p2p_of c" "p2p_of (applyPrunerEnvOverrides env c) = p2p_of c"
  "p2p_of (applySnapshotEnvOverrides env c) = p2p_of c" "p2p_of (applyConverterEnvOverrides env c) = p2p_of c"
  by (simp_all add: applyDefaults_def defra_store_def applyChainEnvOverrides_def applyIndexerEnvOverrides_def
      applySchemaEnvOverrides_def applyPrunerEnvOverrides_def applySnapshotEnvOverrides_def applyConverterEnvOverrides_def)

lemma positive_override_ok:
  assumes "positive_override env name upd c = Inr c'"
  obtains "env name = []" "c' = c" | n where "env name \<noteq> []" "0 < n" "Atoi (env name) = Inr n" "c' = upd n c"
  using assms by (auto simp: positive_override_def envPositiveInt_def Let_def split: if_splits sum.splits)

lemma limits_taken:
  assumes "applyDefraEnvOverrides env c0 = Inr c" "(name, get) \<in> set p2p_limits" "env name \<noteq> []"
  shows "\<exists>n>0. Atoi (env name) = Inr n \<and> get (p2p_of c) = n"
proof -
  obtain c1 c2 c3 where
    1: "positive_override env ''DEFRADB_P2P_RESOURCE_MEMORY_MIB'' (\<lambda>n. on_p2p (ResourceMemoryMiB_update (\<lambda>_. n))) (defra_plain env c0) = Inr c1" and
    2: "positive_override env ''DEFRADB_P2P_RESOURCE_FILE_DESCRIPTORS'' (\<lambda>n. on_p2p (ResourceFileDescriptors_update (\<lambda>_. n))) c1 = Inr c2" and
    3: "positive_override env ''DEFRADB_P2P_MAX_STREAMS_PER_PEER'' (\<lambda>n. on_p2p (MaxStreamsPerPeer_update (\<lambda>_. n))) c2 = Inr c3" and
    c: "c = defra_store env c3"
    using assms(1) by (auto simp: applyDefraEnvOverrides_def then_apply_def split: sum.splits)
  have later: "ResourceMemoryMiB (p2p_of c3) = ResourceMemoryMiB (p2p_of c1)"
    "ResourceFileDescriptors (p2p_of c3) = ResourceFileDescriptors (p2p_of c2)"
    by (rule positive_override_ok [OF 2]; rule positive_override_ok [OF 3]; simp)+
  from assms(2) consider "name = ''DEFRADB_P2P_RESOURCE_MEMORY_MIB''" "get = ResourceMemoryMiB"
    | "name = ''DEFRADB_P2P_RESOURCE_FILE_DESCRIPTORS''" "get = ResourceFileDescriptors"
    | "name = ''DEFRADB_P2P_MAX_STREAMS_PER_PEER''" "get = MaxStreamsPerPeer"
    by (auto simp: p2p_limits_def)
  then show ?thesis
  proof cases
    case 1
    then show ?thesis using assms(3) later c by (auto intro: positive_override_ok [OF \<open>positive_override _ _ _ _ = Inr c1\<close>])
  next
    case 2
    then show ?thesis using assms(3) later c by (auto intro: positive_override_ok [OF \<open>positive_override _ _ _ _ = Inr c2\<close>])
  next
    case 3
    then show ?thesis using assms(3) c by (auto intro: positive_override_ok [OF \<open>positive_override _ _ _ _ = Inr c3\<close>])
  qed
qed

section \<open>Properties\<close>

text \<open>C32: a loaded configuration is well formed. Whatever the file and the environment contain, a
  configuration that \<open>LoadConfig\<close> returns has positive worker counts, batch sizes, intervals and retention,
  a known adapter and authentication mode, a database to talk to, and snapshots that cover the retention
  window of the pruner, also when the multiplication of the check wraps around.\<close>

theorem LoadConfig_ok:
  assumes "LoadConfig ReadFile Unmarshal env path = Inr c"
  shows "config_ok c \<and> covers_retention c"
proof -
  obtain c0 where "c = applyDefaults c0" "validateConfig (applyDefaults c0) = None"
    using assms by (auto simp: LoadConfig_def Let_def split: sum.splits option.splits)
  then show ?thesis using defaults_ok by blast
qed

text \<open>A resource limit given by the environment is never dropped. If one of the three limits is set, a
  load either fails or returns a configuration with exactly that value, which is then positive: a value
  that is not a number, is out of range or is not positive makes the load fail.\<close>

theorem LoadConfig_limits:
  assumes "(name, get) \<in> set p2p_limits" "env name \<noteq> []"
  shows "(\<exists>e. LoadConfig ReadFile Unmarshal env path = Inl e)
    \<or> (\<exists>c n. LoadConfig ReadFile Unmarshal env path = Inr c \<and> 0 < n \<and> Atoi (env name) = Inr n \<and> get (p2p_of c) = n)"
proof (cases "LoadConfig ReadFile Unmarshal env path")
  case (Inr c)
  then obtain c0 c1 where "applyDefraEnvOverrides env c0 = Inr c1" "p2p_of c = p2p_of c1"
    by (auto simp: LoadConfig_def applyEnvOverrides_def Let_def split: sum.splits option.splits)
  with limits_taken [OF this(1) assms] Inr show ?thesis by auto
qed simp

definition empty_config :: Config where
  "empty_config = \<lparr>cfg_Chain = \<lparr>ChainName = [], Network = [], Hub = [], Adapter = []\<rparr>,
     cfg_DefraDB = \<lparr>URL = [], KeyringSecret = [], Embedded = False,
       P2P = \<lparr>BootstrapPeers = [], ListenAddr = [], p2p_Enabled = False, AcceptIncoming = False, MaxRetries = 0,
         RetryBaseDelayMs = 0, ReconnectIntervalMs = 0, EnableAutoReconnect = False, ResourceMemoryMiB = 0,
         ResourceFileDescriptors = 0, MaxStreamsPerPeer = 0\<rparr>,
       DefraStore = \<lparr>store_Path = [], BlockCacheMB = 0, MemTableMB = 0, IndexCacheMB = 0, NumCompactors = 0,
         NumLevelZeroTables = 0, NumLevelZeroTablesStall = 0, ValueLogFileSizeMB = 0\<rparr>\<rparr>,
     cfg_Geth = \<lparr>NodeURL = [], WsURL = [], APIKey = [], APIKeyType = [], DialTimeoutSeconds = 0\<rparr>,
     cfg_Indexer = \<lparr>StartHeight = 0, ConcurrentBlocks = 0, ReceiptWorkers = 0, ix_MaxDocsPerTxn = 0, ix_MaxTxDocsPerBatch = 0,
       ix_MaxLogDocsPerBatch = 0, ix_MaxALEDocsPerBatch = 0, BlocksPerMinute = 0, HealthServerPort = 0,
       OpenBrowserOnStart = False, StartBuffer = 0, SchemaAuthMode = [], SchemaAPIKeys = []\<rparr>,
     cfg_Pruner = \<lparr>pc_Enabled = True, MaxBlocks = 0, DocsPerBlock = 0, PruneThreshold = 0, pc_IntervalSeconds = 0,
       PruneHistory = False, MaxBlocksPerCycle = 0\<rparr>,
     cfg_Snapshot = \<lparr>sc_Enabled = True, sc_Dir = [], BlocksPerFile = 0, sc_IntervalSeconds = 0, MaxSnapshots = 0\<rparr>,
     cfg_LowestBlockQueryLimit = 0, cfg_Development = False\<rparr>"

definition demo_env :: environment where
  "demo_env name = (if name = ''DEFRADB_HOST'' then ''db'' else if name = ''PRUNER_MAX_BLOCKS'' then ''9'' else [])"

lemmas override_defs = env_string_def env_int_def env_bool_def envPositiveInt_def positive_override_def then_apply_def

theorem LoadConfig_ok_witness:
  "\<exists>c. LoadConfig (\<lambda>_. Inr []) (\<lambda>_. Inr empty_config) demo_env ''config.yaml'' = Inr c
    \<and> URL (cfg_DefraDB c) = ''http://db:9181'' \<and> MaxBlocks (cfg_Pruner c) = 9 \<and> config_ok c \<and> covers_retention c"
proof -
  have nine: "Atoi ''9'' = Inr 9"
    by (simp add: Atoi_def ParseInt_def parse_uint_def digit_value_def lower_char_def maxUint64_def Let_def)
  obtain c where c: "LoadConfig (\<lambda>_. Inr []) (\<lambda>_. Inr empty_config) demo_env ''config.yaml'' = Inr c"
    "URL (cfg_DefraDB c) = ''http://db:9181''" "MaxBlocks (cfg_Pruner c) = 9"
    by (simp add: LoadConfig_def applyEnvOverrides_def applyDefraEnvOverrides_def defra_plain_def defra_url_def defra_store_def
        applyChainEnvOverrides_def applyIndexerEnvOverrides_def applySchemaEnvOverrides_def applyPrunerEnvOverrides_def
        applySnapshotEnvOverrides_def applyConverterEnvOverrides_def override_defs demo_env_def nine applyDefaults_def
        Pruner_SetDefaults_def Snapshot_SetDefaults_def Converter_SetDefaults_def or_else_def empty_config_def
        validateConfig_def trim_space_def is_space_def wrap_int64_def Let_def)
  with LoadConfig_ok [OF c(1)] show ?thesis by blast
qed

definition limit_env :: environment where
  "limit_env name = (if name = ''DEFRADB_P2P_MAX_STREAMS_PER_PEER'' then ''0'' else [])"

theorem LoadConfig_limits_witness:
  "(''DEFRADB_P2P_MAX_STREAMS_PER_PEER'', MaxStreamsPerPeer) \<in> set p2p_limits
    \<and> limit_env ''DEFRADB_P2P_MAX_STREAMS_PER_PEER'' \<noteq> []
    \<and> (\<exists>e. LoadConfig (\<lambda>_. Inr []) (\<lambda>_. Inr empty_config) limit_env ''config.yaml'' = Inl e)"
proof -
  let ?n = "''DEFRADB_P2P_MAX_STREAMS_PER_PEER''"
  have limit: "(?n, MaxStreamsPerPeer) \<in> set p2p_limits" "limit_env ?n = ''0''"
    by (simp_all add: p2p_limits_def limit_env_def)
  have "Atoi ''0'' = Inr 0"
    by (simp add: Atoi_def ParseInt_def parse_uint_def digit_value_def lower_char_def maxUint64_def Let_def)
  with LoadConfig_limits [OF limit(1), of limit_env "\<lambda>_. Inr []" "\<lambda>_. Inr empty_config" "''config.yaml''"] limit
  show ?thesis by simp
qed

end
