(* ===== verification/Reorg_Roller.thy ===== *)
theory Reorg_Roller
  imports Evm_Converter "HOL-Library.List_Lexorder" "HOL-Library.Char_ord"
begin

text \<open>
  File \<open>pkg/defra/reorg_roller.go\<close>: the stored hash of a height and the rollback of orphaned heights.

  The database is the record \<open>rollerDB\<close> of the calls the roller makes. What the roller uses of the
  \<open>chains.Converter\<close> interface is the locale \<open>range_source\<close>; the EVM converter interprets it.
\<close>

section \<open>Model\<close>

record 'w rollerDB =
  rl_Exec :: "'w \<Rightarrow> exec_request"
  rl_GetCollection :: "'w \<Rightarrow> string \<Rightarrow> goerror option"
  DeleteDocumentsWithFilter :: "'w \<Rightarrow> string \<Rightarrow> docID list \<Rightarrow> 'w \<times> goerror option"

definition NewReorgRoller :: "int \<Rightarrow> 'w rollerDB option \<Rightarrow> 'c option \<Rightarrow> ('w rollerDB \<times> 'c) result" where
  "NewReorgRoller now defraNode conv = (case defraNode of
     None \<Rightarrow> Inl (NewConfigurationError now ''defra'' ''NewReorgRoller'' ''defraNode is nil'' [] None [])
   | Some d \<Rightarrow> (case conv of
       None \<Rightarrow> Inl (NewConfigurationError now ''defra'' ''NewReorgRoller'' ''converter is nil'' [] None [])
     | Some c \<Rightarrow> Inr (d, c)))"

fun append_new :: "string \<Rightarrow> string list \<Rightarrow> string list \<Rightarrow> string list" where
  "append_new blockCol ordered [] = ordered"
| "append_new blockCol ordered (col # rest) =
     append_new blockCol (if col = blockCol \<or> col \<in> set ordered then ordered else ordered @ [col]) rest"

definition deleteOrder :: "string list \<Rightarrow> string \<Rightarrow> string list \<Rightarrow> string list" where
  "deleteOrder known blockCol names =
     append_new blockCol (filter (\<lambda>k. k \<noteq> blockCol \<and> k \<in> set names) (rev known)) names
     @ (if blockCol \<in> set names then [blockCol] else [])"

definition gqlRows :: "any \<Rightarrow> doc list" where
  "gqlRows raw = (case rows_of raw of None \<Rightarrow> [] | Some rs \<Rightarrow> List.map_filter as_map rs)"

definition hash_query :: "string \<Rightarrow> height \<Rightarrow> string" where
  "hash_query blockCol blockNumber = ''query { '' @ blockCol @ ''(filter: {number: {_eq: '' @ itoa blockNumber @ ''}}) { hash _docID } }''"

definition GetStoredBlockHash :: "exec_request \<Rightarrow> string \<Rightarrow> height \<Rightarrow> hash result" where
  "GetStoredBlockHash exec blockCol blockNumber = (let res = exec (hash_query blockCol blockNumber) in
     case gql_Errors res of
       e # _ \<Rightarrow> Inl (Wrapped (''query stored block '' @ itoa blockNumber @ '': '') e [])
     | [] \<Rightarrow> (case as_map (gql_Data res) of None \<Rightarrow> Inr []
       | Some data \<Rightarrow> (case gqlRows (mget data blockCol) of
           [] \<Rightarrow> Inr []
         | [row] \<Rightarrow> Inr (string_or_empty (mget row ''hash''))
         | rows \<Rightarrow> Inl (ErrMsg (''query stored block '' @ itoa blockNumber @ '': '' @ itoa (int (length rows))
             @ '' visible block documents share the height; the store state is inconsistent'')))))"

fun delete_chunks :: "'w rollerDB \<Rightarrow> string \<Rightarrow> docID list list \<Rightarrow> 'w \<Rightarrow> 'w \<times> goerror option" where
  "delete_chunks d colName [] w = (w, None)"
| "delete_chunks d colName (chunk # rest) w = (case DeleteDocumentsWithFilter d w colName chunk of
     (w, Some e) \<Rightarrow> (w, Some (Wrapped (''soft-delete documents from '' @ colName @ '': '') e []))
   | (w, None) \<Rightarrow> delete_chunks d colName rest w)"

definition softDeleteCollectionDocs :: "'w rollerDB \<Rightarrow> string \<Rightarrow> docID list \<Rightarrow> 'w \<Rightarrow> 'w \<times> goerror option" where
  "softDeleteCollectionDocs d colName docIDs w =
     (if docIDs = [] then (w, None)
      else case rl_GetCollection d w colName of
        Some e \<Rightarrow> (w, Some (Wrapped (''get collection '' @ colName @ '': '') e []))
      | None \<Rightarrow> delete_chunks d colName (chunks 100 docIDs) w)"

text \<open>A \<open>map[string][]string\<close> result as an association list with distinct keys.\<close>

definition ids_in :: "(string \<times> docID list) list \<Rightarrow> string \<Rightarrow> docID list" where
  "ids_in m c = (case map_of m c of None \<Rightarrow> [] | Some ids \<Rightarrow> ids)"

fun delete_collections :: "'w rollerDB \<Rightarrow> (string \<times> docID list) list \<Rightarrow> string list \<Rightarrow> 'w \<Rightarrow> 'w \<times> goerror option" where
  "delete_collections d m [] w = (w, None)"
| "delete_collections d m (colName # rest) w = (case softDeleteCollectionDocs d colName (ids_in m colName) w of
     (w, Some e) \<Rightarrow> (w, Some e) | (w, None) \<Rightarrow> delete_collections d m rest w)"

type_synonym range_docs = "exec_request \<Rightarrow> height \<Rightarrow> height \<Rightarrow> (string \<times> docID list) list result"

text \<open>One height of the loop of \<open>RollbackBlocks\<close>.\<close>

definition rollback_height ::
  "string list \<Rightarrow> string \<Rightarrow> range_docs \<Rightarrow> 'w rollerDB \<Rightarrow> height \<Rightarrow> height \<Rightarrow> (height \<Rightarrow> hash option) \<Rightarrow> height \<Rightarrow> 'w \<Rightarrow> 'w \<times> goerror option" where
  "rollback_height known blockCol rangeDocs d from to chainHashes n w =
     (let ctxt = ''rollback blocks ['' @ itoa from @ '', '' @ itoa to @ '']: '' in
      case chainHashes n of None \<Rightarrow> (w, None)
      | Some chainHash \<Rightarrow> if chainHash = [] then (w, None)
        else (case GetStoredBlockHash (rl_Exec d w) blockCol n of
          Inl e \<Rightarrow> (w, Some (Wrapped ctxt e []))
        | Inr stored \<Rightarrow> if stored = [] \<or> stored = chainHash then (w, None)
          else (case rangeDocs (rl_Exec d w) n n of
            Inl e \<Rightarrow> (w, Some (Wrapped (ctxt @ ''query docIDs at height '' @ itoa n @ '': '') e []))
          | Inr m \<Rightarrow> (case delete_collections d m (deleteOrder known blockCol (sort (map fst m))) w of
              (w, Some e) \<Rightarrow> (w, Some (Wrapped ctxt e [])) | (w, None) \<Rightarrow> (w, None)))))"

function rollback_down ::
  "string list \<Rightarrow> string \<Rightarrow> range_docs \<Rightarrow> 'w rollerDB \<Rightarrow> height \<Rightarrow> height \<Rightarrow> (height \<Rightarrow> hash option) \<Rightarrow> height \<Rightarrow> 'w \<Rightarrow> 'w \<times> goerror option" where
  "rollback_down known blockCol rangeDocs d from to chainHashes n w =
     (if n < from then (w, None)
      else case rollback_height known blockCol rangeDocs d from to chainHashes n w of
        (w, Some e) \<Rightarrow> (w, Some e)
      | (w, None) \<Rightarrow> rollback_down known blockCol rangeDocs d from to chainHashes (n - 1) w)"
  by pat_completeness auto
termination
  by (relation "measure (\<lambda>(_, _, _, _, from, _, _, n, _). nat (n - from + 1))") auto

declare rollback_down.simps [simp del]

definition RollbackBlocks ::
  "string list \<Rightarrow> string \<Rightarrow> range_docs \<Rightarrow> 'w rollerDB \<Rightarrow> height \<Rightarrow> height \<Rightarrow> (height \<Rightarrow> hash option) \<Rightarrow> 'w \<Rightarrow> 'w \<times> goerror option" where
  "RollbackBlocks known blockCol rangeDocs d from to chainHashes w =
     rollback_down known blockCol rangeDocs d from to chainHashes to w"

text \<open>The roller of an EVM converter.\<close>

definition evm_rollback ::
  "Converter \<Rightarrow> 'w rollerDB \<Rightarrow> height \<Rightarrow> height \<Rightarrow> (height \<Rightarrow> hash option) \<Rightarrow> 'w \<Rightarrow> 'w \<times> goerror option" where
  "evm_rollback c = RollbackBlocks (AllCollections (collections c)) (Block (collections c)) (\<lambda>exec. GetDocIDsByBlockRange exec c)"

section \<open>Delete order\<close>

lemma append_new_facts:
  "set (append_new b ordered names) = set ordered \<union> (set names - {b})"
  "distinct ordered \<Longrightarrow> distinct (append_new b ordered names)"
  by (induction b ordered names rule: append_new.induct) auto

lemma deleteOrder_facts:
  assumes "distinct known"
  shows "set (deleteOrder known b names) = set names" and "distinct (deleteOrder known b names)"
    and "b \<in> set names \<Longrightarrow> \<exists>pre. deleteOrder known b names = pre @ [b] \<and> b \<notin> set pre"
proof -
  let ?pre = "append_new b (filter (\<lambda>k. k \<noteq> b \<and> k \<in> set names) (rev known)) names"
  have pre: "set ?pre = set names - {b}" "distinct ?pre" using assms by (auto simp: append_new_facts)
  then show "set (deleteOrder known b names) = set names" "distinct (deleteOrder known b names)"
    by (auto simp: deleteOrder_def)
  show "b \<in> set names \<Longrightarrow> \<exists>pre. deleteOrder known b names = pre @ [b] \<and> b \<notin> set pre"
    using pre(1) by (intro exI [of _ ?pre]) (simp add: deleteOrder_def)
qed

section \<open>The database contract\<close>

text \<open>The visible documents of the world: collection, docID, height and, for a block document, its hash.
  Queries answer with the visible documents or fail; a delete removes exactly the documents it names
  or fails and removes nothing.\<close>

record stored_doc =
  sd_col :: string
  sd_id :: docID
  sd_num :: height
  sd_hash :: hash

definition at_height :: "string \<Rightarrow> height \<Rightarrow> stored_doc list \<Rightarrow> stored_doc list" where
  "at_height c n docs = filter (\<lambda>s. sd_col s = c \<and> sd_num s = n) docs"

definition serves_ids :: "exec_request \<Rightarrow> stored_doc list \<Rightarrow> string \<Rightarrow> string \<Rightarrow> bool" where
  "serves_ids exec docs c field \<longleftrightarrow> (\<forall>n. gql_Errors (exec (range_query c field n n)) \<noteq> []
     \<or> exec (range_query c field n n) = \<lparr>gql_Errors = [],
         gql_Data = AMap [c \<mapsto> AMaps (map (\<lambda>s. [''_docID'' \<mapsto> AString (sd_id s)]) (at_height c n docs))]\<rparr>)"

definition serves_hash :: "exec_request \<Rightarrow> stored_doc list \<Rightarrow> string \<Rightarrow> bool" where
  "serves_hash exec docs blockCol \<longleftrightarrow> (\<forall>n. gql_Errors (exec (hash_query blockCol n)) \<noteq> []
     \<or> exec (hash_query blockCol n) = \<lparr>gql_Errors = [], gql_Data = AMap [blockCol \<mapsto>
         AMaps (map (\<lambda>s. [''hash'' \<mapsto> AString (sd_hash s), ''_docID'' \<mapsto> AString (sd_id s)]) (at_height blockCol n docs))]\<rparr>)"

definition roller_laws :: "'w rollerDB \<Rightarrow> ('w \<Rightarrow> stored_doc list) \<Rightarrow> string \<Rightarrow> (string \<times> string) list \<Rightarrow> bool" where
  "roller_laws d vis blockCol queries \<longleftrightarrow>
     (\<forall>w. serves_hash (rl_Exec d w) (vis w) blockCol \<and> (\<forall>(c, field) \<in> set queries. serves_ids (rl_Exec d w) (vis w) c field)
        \<and> inj_on (\<lambda>s. (sd_col s, sd_id s)) (set (vis w)))
   \<and> (\<forall>w c ids. vis (fst (DeleteDocumentsWithFilter d w c ids)) =
        (if snd (DeleteDocumentsWithFilter d w c ids) = None
         then filter (\<lambda>s. \<not> (sd_col s = c \<and> sd_id s \<in> set ids)) (vis w) else vis w))"

lemma roller_lawsD:
  assumes "roller_laws d vis blockCol queries"
  shows "serves_hash (rl_Exec d w) (vis w) blockCol"
    and "(c, field) \<in> set queries \<Longrightarrow> serves_ids (rl_Exec d w) (vis w) c field"
    and "inj_on (\<lambda>s. (sd_col s, sd_id s)) (set (vis w))"
    and "DeleteDocumentsWithFilter d w c ids = (w', None) \<Longrightarrow> vis w' = filter (\<lambda>s. \<not> (sd_col s = c \<and> sd_id s \<in> set ids)) (vis w)"
    and "DeleteDocumentsWithFilter d w c ids = (w', Some e) \<Longrightarrow> vis w' = vis w"
proof -
  note L = assms [unfolded roller_laws_def]
  show "serves_hash (rl_Exec d w) (vis w) blockCol" "inj_on (\<lambda>s. (sd_col s, sd_id s)) (set (vis w))" using L by blast+
  show "(c, field) \<in> set queries \<Longrightarrow> serves_ids (rl_Exec d w) (vis w) c field" using L by blast
  have del: "vis (fst (DeleteDocumentsWithFilter d w c ids)) = (if snd (DeleteDocumentsWithFilter d w c ids) = None
      then filter (\<lambda>s. \<not> (sd_col s = c \<and> sd_id s \<in> set ids)) (vis w) else vis w)" using L by blast
  show "DeleteDocumentsWithFilter d w c ids = (w', None) \<Longrightarrow> vis w' = filter (\<lambda>s. \<not> (sd_col s = c \<and> sd_id s \<in> set ids)) (vis w)"
    "DeleteDocumentsWithFilter d w c ids = (w', Some e) \<Longrightarrow> vis w' = vis w" using del by simp_all
qed

lemma gqlRows_maps [simp]: "gqlRows (AMaps ms) = ms"
proof -
  have "List.map_filter as_map (map AMap ms) = ms" by (induction ms) (auto simp: List.map_filter_simps)
  then show ?thesis by (simp add: gqlRows_def)
qed

text \<open>The query answers with the only block document of the height, or with nothing, or fails.\<close>

lemma GetStoredBlockHash_sound:
  assumes "serves_hash exec docs blockCol" and "GetStoredBlockHash exec blockCol n = Inr hsh"
  shows "(at_height blockCol n docs = [] \<and> hsh = []) \<or> (\<exists>s. at_height blockCol n docs = [s] \<and> hsh = sd_hash s)"
proof -
  have "gql_Errors (exec (hash_query blockCol n)) = []"
    using assms(2) by (auto simp: GetStoredBlockHash_def Let_def split: list.splits)
  then have "exec (hash_query blockCol n) = \<lparr>gql_Errors = [], gql_Data = AMap [blockCol \<mapsto>
         AMaps (map (\<lambda>s. [''hash'' \<mapsto> AString (sd_hash s), ''_docID'' \<mapsto> AString (sd_id s)]) (at_height blockCol n docs))]\<rparr>"
    using assms(1) unfolding serves_hash_def by blast
  then show ?thesis using assms(2)
    by (cases "at_height blockCol n docs") (auto simp: GetStoredBlockHash_def mget_def string_or_empty_def split: list.splits)
qed

section \<open>Deleting\<close>

lemma delete_chunks_ok:
  assumes laws: "roller_laws d vis blockCol queries"
  shows "delete_chunks d c css w = (w', r) \<Longrightarrow> \<exists>I \<subseteq> set (concat css).
    vis w' = filter (\<lambda>s. \<not> (sd_col s = c \<and> sd_id s \<in> I)) (vis w) \<and> (r = None \<longrightarrow> I = set (concat css))
    \<and> (length css \<le> 1 \<and> r \<noteq> None \<longrightarrow> I = {})"
proof (induction css arbitrary: w)
  case (Cons ids css)
  obtain w1 e where del: "DeleteDocumentsWithFilter d w c ids = (w1, e)" by fastforce
  show ?case
  proof (cases e)
    case None
    then have w1: "vis w1 = filter (\<lambda>s. \<not> (sd_col s = c \<and> sd_id s \<in> set ids)) (vis w)"
      using roller_lawsD(4) [OF laws] del by blast
    have run: "delete_chunks d c css w1 = (w', r)" using Cons.prems del None by simp
    from Cons.IH [OF run] obtain I where I: "I \<subseteq> set (concat css)"
      "vis w' = filter (\<lambda>s. \<not> (sd_col s = c \<and> sd_id s \<in> I)) (vis w1)" "r = None \<longrightarrow> I = set (concat css)" by blast
    have "vis w' = filter (\<lambda>s. \<not> (sd_col s = c \<and> sd_id s \<in> set ids \<union> I)) (vis w)"
      unfolding I(2) w1 filter_filter by (rule filter_cong) auto
    moreover have "length (ids # css) \<le> 1 \<longrightarrow> r = None" using run by auto
    ultimately show ?thesis using I(1,3) by (intro exI [of _ "set ids \<union> I"]) auto
  next
    case (Some err)
    then have "vis w1 = vis w" using roller_lawsD(5) [OF laws] del by blast
    then show ?thesis using Cons.prems del Some by (intro exI [of _ "{}"]) auto
  qed
qed auto

lemma softDelete_ok:
  assumes "roller_laws d vis blockCol queries" and "softDeleteCollectionDocs d c ids w = (w', r)"
  shows "\<exists>I \<subseteq> set ids. vis w' = filter (\<lambda>s. \<not> (sd_col s = c \<and> sd_id s \<in> I)) (vis w) \<and> (r = None \<longrightarrow> I = set ids)
    \<and> (length ids \<le> 100 \<and> r \<noteq> None \<longrightarrow> I = {})"
proof (cases "ids = [] \<or> rl_GetCollection d w c \<noteq> None")
  case True
  then show ?thesis using assms(2) by (intro exI [of _ "{}"]) (auto simp: softDeleteCollectionDocs_def split: if_splits)
next
  case False
  then have run: "delete_chunks d c (chunks 100 ids) w = (w', r)" using assms(2) by (auto simp: softDeleteCollectionDocs_def)
  have "length (chunks 100 ids) \<le> 1" if "length ids \<le> 100" using that by (simp add: chunks.simps [of 100])
  then show ?thesis using delete_chunks_ok [OF assms(1) run] concat_chunks [of 100 ids] by auto
qed

lemma delete_collections_append:
  "delete_collections d m (xs @ ys) w = (case delete_collections d m xs w of
     (w1, Some e) \<Rightarrow> (w1, Some e) | (w1, None) \<Rightarrow> delete_collections d m ys w1)"
  by (induction d m xs w rule: delete_collections.induct) (auto split: prod.splits option.splits)

lemma delete_collections_ok:
  assumes laws: "roller_laws d vis blockCol queries"
  shows "distinct cs \<Longrightarrow> delete_collections d m cs w = (w', r) \<Longrightarrow> \<exists>I. (\<forall>c. I c \<subseteq> set (ids_in m c))
    \<and> (\<forall>c. c \<notin> set cs \<longrightarrow> I c = {}) \<and> vis w' = filter (\<lambda>s. sd_id s \<notin> I (sd_col s)) (vis w)
    \<and> (r = None \<longrightarrow> (\<forall>c \<in> set cs. I c = set (ids_in m c)))"
proof (induction cs arbitrary: w)
  case Nil
  then show ?case by (intro exI [of _ "\<lambda>_. {}"]) auto
next
  case (Cons c cs)
  obtain w1 e where del: "softDeleteCollectionDocs d c (ids_in m c) w = (w1, e)" by fastforce
  obtain J where J: "J \<subseteq> set (ids_in m c)" "vis w1 = filter (\<lambda>s. \<not> (sd_col s = c \<and> sd_id s \<in> J)) (vis w)"
    "e = None \<longrightarrow> J = set (ids_in m c)" using softDelete_ok [OF laws del] by blast
  show ?case
  proof (cases e)
    case None
    then have run: "delete_collections d m cs w1 = (w', r)" using Cons.prems del by simp
    have "distinct cs" using Cons.prems by simp
    from Cons.IH [OF this run] obtain I where I: "\<forall>c. I c \<subseteq> set (ids_in m c)" "\<forall>c. c \<notin> set cs \<longrightarrow> I c = {}"
      "vis w' = filter (\<lambda>s. sd_id s \<notin> I (sd_col s)) (vis w1)" "r = None \<longrightarrow> (\<forall>c \<in> set cs. I c = set (ids_in m c))" by blast
    have "I c = {}" using I(2) Cons.prems by simp
    then have "vis w' = filter (\<lambda>s. sd_id s \<notin> (I(c := J)) (sd_col s)) (vis w)"
      unfolding I(3) J(2) filter_filter by (intro filter_cong) auto
    then show ?thesis using I J None Cons.prems(1) by (intro exI [of _ "I(c := J)"]) auto
  next
    case (Some err)
    then have "w' = w1" "r \<noteq> None" using Cons.prems del by auto
    moreover have "vis w1 = filter (\<lambda>s. sd_id s \<notin> (if sd_col s = c then J else {})) (vis w)"
      unfolding J(2) by (intro filter_cong) auto
    ultimately show ?thesis using J(1) by (intro exI [of _ "\<lambda>k. if k = c then J else {}"]) auto
  qed
qed

text \<open>The block collection goes last, so losing a block document means that everything else of the
  height is gone.\<close>

lemma delete_block_last:
  assumes laws: "roller_laws d vis blockCol queries" and "distinct (pre @ [b])" and "length (ids_in m b) \<le> 100"
    and "delete_collections d m (pre @ [b]) w = (w', r)"
  shows "\<exists>I. (\<forall>c. I c \<subseteq> set (ids_in m c)) \<and> vis w' = filter (\<lambda>s. sd_id s \<notin> I (sd_col s)) (vis w)
    \<and> (\<forall>c. c \<notin> set (pre @ [b]) \<longrightarrow> I c = {})
    \<and> (r = None \<or> I b \<noteq> {} \<longrightarrow> (\<forall>c \<in> set (pre @ [b]). I c = set (ids_in m c)))"
proof -
  obtain w1 e where run: "delete_collections d m pre w = (w1, e)" by fastforce
  have "distinct pre" using assms(2) by simp
  from delete_collections_ok [OF laws this run] obtain I where I: "\<forall>c. I c \<subseteq> set (ids_in m c)" "\<forall>c. c \<notin> set pre \<longrightarrow> I c = {}"
    "vis w1 = filter (\<lambda>s. sd_id s \<notin> I (sd_col s)) (vis w)" "e = None \<longrightarrow> (\<forall>c \<in> set pre. I c = set (ids_in m c))" by blast
  have Ib: "I b = {}" using I(2) assms(2) by simp
  show ?thesis
  proof (cases e)
    case None
    obtain w2 e2 where del: "softDeleteCollectionDocs d b (ids_in m b) w1 = (w2, e2)" by fastforce
    have "w' = w2 \<and> r = e2" using assms(4) run None del by (cases e2) (auto simp: delete_collections_append)
    moreover obtain J where J: "J \<subseteq> set (ids_in m b)" "vis w2 = filter (\<lambda>s. \<not> (sd_col s = b \<and> sd_id s \<in> J)) (vis w1)"
      "e2 = None \<longrightarrow> J = set (ids_in m b)" "e2 \<noteq> None \<longrightarrow> J = {}" using softDelete_ok [OF laws del] assms(3) by blast
    moreover have "vis w2 = filter (\<lambda>s. sd_id s \<notin> (I(b := J)) (sd_col s)) (vis w)"
      unfolding J(2) I(3) filter_filter using Ib by (intro filter_cong) auto
    ultimately show ?thesis using I None by (intro exI [of _ "I(b := J)"]) auto
  next
    case (Some err)
    then have "w' = w1" "r \<noteq> None" using assms(4) run by (auto simp: delete_collections_append)
    then show ?thesis using I Ib by (intro exI [of _ I]) auto
  qed
qed

section \<open>The converter interface\<close>

definition docs_at :: "string set \<Rightarrow> height \<Rightarrow> stored_doc list \<Rightarrow> stored_doc set" where
  "docs_at names n docs = {s \<in> set docs. sd_num s = n \<and> sd_col s \<in> names}"

text \<open>A height is a proven orphan when its only block document carries a hash that differs from the
  verified one.\<close>

definition orphan :: "string \<Rightarrow> (height \<Rightarrow> hash option) \<Rightarrow> stored_doc list \<Rightarrow> height \<Rightarrow> bool" where
  "orphan blockCol hashes docs n \<longleftrightarrow> (\<exists>ch s. hashes n = Some ch \<and> ch \<noteq> [] \<and> at_height blockCol n docs = [s]
     \<and> sd_hash s \<noteq> [] \<and> sd_hash s \<noteq> ch)"

lemma other_heights:
  assumes "D \<subseteq> docs_at names n docs" and "k \<noteq> n"
  shows "at_height c k (filter (\<lambda>s. s \<notin> D) docs) = at_height c k docs"
    and "docs_at names' k (filter (\<lambda>s. s \<notin> D) docs) = docs_at names' k docs"
    and "orphan b hashes (filter (\<lambda>s. s \<notin> D) docs) k = orphan b hashes docs k"
proof -
  show at: "at_height c k (filter (\<lambda>s. s \<notin> D) docs) = at_height c k docs" for c
    using assms by (auto simp: at_height_def docs_at_def intro!: filter_cong)
  show "docs_at names' k (filter (\<lambda>s. s \<notin> D) docs) = docs_at names' k docs" using assms by (auto simp: docs_at_def)
  show "orphan b hashes (filter (\<lambda>s. s \<notin> D) docs) k = orphan b hashes docs k" by (simp add: orphan_def at)
qed

text \<open>What a rollback may remove of the heights up to \<open>n\<close>, and what it must remove to succeed.\<close>

definition orphaned :: "string set \<Rightarrow> string \<Rightarrow> (height \<Rightarrow> hash option) \<Rightarrow> height \<Rightarrow> height \<Rightarrow> stored_doc list \<Rightarrow> stored_doc set" where
  "orphaned names b hashes from n docs = (\<Union>k \<in> {k. from \<le> k \<and> k \<le> n \<and> orphan b hashes docs k}. docs_at names k docs)"

lemma orphaned_below:
  assumes "D \<subseteq> docs_at names n docs"
  shows "orphaned names b hashes from (n - 1) (filter (\<lambda>s. s \<notin> D) docs) = orphaned names b hashes from (n - 1) docs"
proof -
  have "from \<le> k \<and> k \<le> n - 1 \<and> orphan b hashes (filter (\<lambda>s. s \<notin> D) docs) k \<longleftrightarrow> from \<le> k \<and> k \<le> n - 1 \<and> orphan b hashes docs k" for k
    using other_heights(3) [OF assms, of k] by auto
  moreover have "docs_at names k (filter (\<lambda>s. s \<notin> D) docs) = docs_at names k docs" if "k \<le> n - 1" for k
    using other_heights(2) [OF assms, of k] that by auto
  ultimately show ?thesis unfolding orphaned_def by auto
qed

lemma orphaned_split:
  "from \<le> n \<Longrightarrow> orphaned names b hashes from n docs =
     orphaned names b hashes from (n - 1) docs \<union> (if orphan b hashes docs n then docs_at names n docs else {})"
proof -
  assume "from \<le> n"
  then have "{k. from \<le> k \<and> k \<le> n \<and> orphan b hashes docs k} =
      {k. from \<le> k \<and> k \<le> n - 1 \<and> orphan b hashes docs k} \<union> (if orphan b hashes docs n then {n} else {})"
    by (auto simp: le_less)
  then show ?thesis by (auto simp: orphaned_def)
qed

text \<open>An interrupted rollback has removed documents from the top down, and at each height the block
  document after everything else.\<close>

definition top_down :: "string set \<Rightarrow> string \<Rightarrow> (height \<Rightarrow> hash option) \<Rightarrow> height \<Rightarrow> stored_doc list \<Rightarrow> stored_doc set \<Rightarrow> bool" where
  "top_down names b hashes n docs D \<longleftrightarrow>
     (\<forall>s \<in> D. \<forall>k. sd_num s < k \<and> k \<le> n \<and> orphan b hashes docs k \<longrightarrow> docs_at names k docs \<subseteq> D)
   \<and> (\<forall>s \<in> D. sd_col s = b \<longrightarrow> docs_at names (sd_num s) docs \<subseteq> D)"

lemma ids_in_key: "x \<in> set (ids_in m c) \<Longrightarrow> c \<in> fst ` set m"
  by (cases "map_of m c") (auto simp: ids_in_def map_of_eq_None_iff dest!: map_of_SomeD intro: rev_image_eqI)

locale range_source =
  fixes known :: "string list" and blockCol :: string and queries :: "(string \<times> string) list" and rangeDocs :: range_docs
  assumes known_distinct: "distinct known"
    and block_queried: "blockCol \<in> fst ` set queries"
    and range_keys: "rangeDocs exec a b = Inr m \<Longrightarrow> distinct (map fst m) \<and> fst ` set m \<subseteq> fst ` set queries"
    and range_exact: "rangeDocs exec n n = Inr m \<Longrightarrow> \<forall>(c, field) \<in> set queries. serves_ids exec docs c field \<Longrightarrow>
      c \<in> fst ` set queries \<Longrightarrow> ids_in m c = map sd_id (at_height c n docs)"
begin

abbreviation rolled_height where
  "rolled_height \<equiv> rollback_height known blockCol rangeDocs"

lemma height_deletes:
  assumes laws: "roller_laws d vis blockCol queries" and run: "rolled_height d from to hashes n w = (w', r)"
  shows "\<exists>D \<subseteq> docs_at (fst ` set queries) n (vis w). vis w' = filter (\<lambda>s. s \<notin> D) (vis w)
    \<and> (D \<noteq> {} \<longrightarrow> orphan blockCol hashes (vis w) n)
    \<and> (orphan blockCol hashes (vis w) n \<and> (r = None \<or> (\<exists>s \<in> D. sd_col s = blockCol)) \<longrightarrow> D = docs_at (fst ` set queries) n (vis w))"
proof (cases "\<exists>ch st m. hashes n = Some ch \<and> ch \<noteq> [] \<and> GetStoredBlockHash (rl_Exec d w) blockCol n = Inr st
    \<and> st \<noteq> [] \<and> st \<noteq> ch \<and> rangeDocs (rl_Exec d w) n n = Inr m")
  case False
  then have "vis w' = vis w" using run by (auto simp: rollback_height_def Let_def split: option.splits sum.splits if_splits)
  moreover have "r \<noteq> None" if o: "orphan blockCol hashes (vis w) n"
  proof -
    from o obtain ch s where ch: "hashes n = Some ch" "ch \<noteq> []" "at_height blockCol n (vis w) = [s]" "sd_hash s \<noteq> []" "sd_hash s \<noteq> ch"
      by (auto simp: orphan_def)
    then have "st = sd_hash s" if "GetStoredBlockHash (rl_Exec d w) blockCol n = Inr st" for st
      using GetStoredBlockHash_sound [OF roller_lawsD(1) [OF laws] that] by auto
    then show ?thesis using False run ch by (auto simp: rollback_height_def Let_def split: option.splits sum.splits if_splits)
  qed
  ultimately show ?thesis by (intro exI [of _ "{}"]) auto
next
  case True
  then obtain ch st m where c: "hashes n = Some ch" "ch \<noteq> []" "GetStoredBlockHash (rl_Exec d w) blockCol n = Inr st"
    "st \<noteq> []" "st \<noteq> ch" and m: "rangeDocs (rl_Exec d w) n n = Inr m" by blast
  then obtain s where s: "at_height blockCol n (vis w) = [s]" "st = sd_hash s"
    using GetStoredBlockHash_sound [OF roller_lawsD(1) [OF laws] c(3)] by auto
  have o: "orphan blockCol hashes (vis w) n" using c s by (auto simp: orphan_def)
  have ids: "ids_in m c = map sd_id (at_height c n (vis w))" if "c \<in> fst ` set queries" for c
    by (rule range_exact [OF m]) (use roller_lawsD(2) [OF laws] that in auto)
  have q: "c \<in> fst ` set queries" if "x \<in> set (ids_in m c)" for x c
    using range_keys [OF m] ids_in_key [OF that] by auto
  have "sd_id s \<in> set (ids_in m blockCol)" using ids [OF block_queried] s by simp
  from ids_in_key [OF this] have bm: "blockCol \<in> set (sort (map fst m))" by simp
  obtain pre where pre: "deleteOrder known blockCol (sort (map fst m)) = pre @ [blockCol]"
    using deleteOrder_facts(3) [OF known_distinct bm] by blast
  have cols: "set (pre @ [blockCol]) = fst ` set m" "distinct (pre @ [blockCol])"
    using deleteOrder_facts(1,2) [OF known_distinct, of blockCol "sort (map fst m)"] unfolding pre by simp_all
  obtain w1 e where del: "delete_collections d m (pre @ [blockCol]) w = (w1, e)" by fastforce
  have res: "w' = w1 \<and> (r = None \<longleftrightarrow> e = None)"
    using run c m del by (cases e) (auto simp: rollback_height_def pre)
  obtain I where I: "\<forall>c. I c \<subseteq> set (ids_in m c)" "vis w1 = filter (\<lambda>s. sd_id s \<notin> I (sd_col s)) (vis w)"
    "e = None \<or> I blockCol \<noteq> {} \<longrightarrow> (\<forall>c \<in> set (pre @ [blockCol]). I c = set (ids_in m c))"
    using delete_block_last [OF laws cols(2) _ del] ids [OF block_queried] s by auto
  let ?D = "{x \<in> set (vis w). sd_id x \<in> I (sd_col x)}"
  have sub: "?D \<subseteq> docs_at (fst ` set queries) n (vis w)"
  proof
    fix x assume x: "x \<in> ?D"
    then have i: "sd_id x \<in> set (ids_in m (sd_col x))" using I(1) by auto
    from q [OF i] obtain y where "y \<in> set (at_height (sd_col x) n (vis w))" "sd_id y = sd_id x" using i ids by auto
    then have "y \<in> set (vis w)" "sd_col y = sd_col x" "sd_num y = n" "sd_id y = sd_id x" by (auto simp: at_height_def)
    then have "y = x" using roller_lawsD(3) [OF laws, of w] x by (auto dest!: inj_onD)
    then show "x \<in> docs_at (fst ` set queries) n (vis w)" using x q [OF i] \<open>sd_num y = n\<close> by (auto simp: docs_at_def)
  qed
  have full: "?D = docs_at (fst ` set queries) n (vis w)" if "e = None \<or> I blockCol \<noteq> {}"
  proof (rule antisym [OF sub], rule subsetI)
    fix x assume x: "x \<in> docs_at (fst ` set queries) n (vis w)"
    then have "sd_id x \<in> set (ids_in m (sd_col x))" using ids by (auto simp: docs_at_def at_height_def)
    moreover from ids_in_key [OF this] have "sd_col x \<in> set (pre @ [blockCol])" unfolding cols(1) .
    ultimately show "x \<in> ?D" using I(3) that x by (auto simp: docs_at_def)
  qed
  have "vis w' = filter (\<lambda>s. s \<notin> ?D) (vis w)" using res I(2) by (auto intro!: filter_cong)
  then show ?thesis using sub full o res by (intro exI [of _ ?D]) auto
qed

lemma down_deletes:
  assumes laws: "roller_laws d vis blockCol queries"
  shows "rollback_down known blockCol rangeDocs d from to hashes n w = (w', r) \<Longrightarrow>
    \<exists>D. vis w' = filter (\<lambda>s. s \<notin> D) (vis w) \<and> D \<subseteq> orphaned (fst ` set queries) blockCol hashes from n (vis w)
      \<and> (r = None \<longrightarrow> D = orphaned (fst ` set queries) blockCol hashes from n (vis w))
      \<and> top_down (fst ` set queries) blockCol hashes n (vis w) D"
proof (induction "nat (n - from + 1)" arbitrary: n w)
  case 0
  then show ?case by (subst (asm) rollback_down.simps) (auto simp: orphaned_def top_down_def)
next
  case (Suc x)
  then have n: "from \<le> n" by simp
  let ?N = "fst ` set queries"
  obtain w1 e where h: "rolled_height d from to hashes n w = (w1, e)" by fastforce
  from height_deletes [OF laws h] obtain D1 where D1: "D1 \<subseteq> docs_at ?N n (vis w)" "vis w1 = filter (\<lambda>s. s \<notin> D1) (vis w)"
    "D1 \<noteq> {} \<longrightarrow> orphan blockCol hashes (vis w) n"
    "orphan blockCol hashes (vis w) n \<and> (e = None \<or> (\<exists>s \<in> D1. sd_col s = blockCol)) \<longrightarrow> D1 = docs_at ?N n (vis w)" by blast
  have num: "sd_num s = n" if "s \<in> D1" for s using D1(1) that by (auto simp: docs_at_def)
  show ?case
  proof (cases e)
    case None
    then have run: "rollback_down known blockCol rangeDocs d from to hashes (n - 1) w1 = (w', r)"
      using Suc.prems n h by (simp add: rollback_down.simps [of known blockCol rangeDocs d "from" to hashes n])
    have "x = nat (n - 1 - from + 1)" using Suc.hyps(2) by simp
    from Suc.hyps(1) [OF this run] obtain D where D: "vis w' = filter (\<lambda>s. s \<notin> D) (vis w1)"
      "D \<subseteq> orphaned ?N blockCol hashes from (n - 1) (vis w1)"
      "r = None \<longrightarrow> D = orphaned ?N blockCol hashes from (n - 1) (vis w1)"
      "top_down ?N blockCol hashes (n - 1) (vis w1) D" by blast
    have low: "sd_num s < n" if "s \<in> D" for s using D(2) that by (auto simp: orphaned_def docs_at_def)
    have D1': "D1 = (if orphan blockCol hashes (vis w) n then docs_at ?N n (vis w) else {})" using D1(3,4) None by auto
    have "vis w' = filter (\<lambda>s. s \<notin> D1 \<union> D) (vis w)" unfolding D(1) D1(2) filter_filter by (rule filter_cong) auto
    moreover have "D1 \<union> D \<subseteq> orphaned ?N blockCol hashes from n (vis w)"
      using D(2) D1' unfolding orphaned_split [OF n] D1(2) orphaned_below [OF D1(1)] by auto
    moreover have "r = None \<longrightarrow> D1 \<union> D = orphaned ?N blockCol hashes from n (vis w)"
      using D(3) D1' unfolding orphaned_split [OF n] D1(2) orphaned_below [OF D1(1)] by auto
    moreover have "top_down ?N blockCol hashes n (vis w) (D1 \<union> D)" unfolding top_down_def
    proof (intro conjI ballI allI impI)
      fix s k assume s: "s \<in> D1 \<union> D" and k: "sd_num s < k \<and> k \<le> n \<and> orphan blockCol hashes (vis w) k"
      show "docs_at ?N k (vis w) \<subseteq> D1 \<union> D"
      proof (cases "k = n")
        case False
        then have "s \<in> D" using s k num by auto
        moreover have o: "orphan blockCol hashes (vis w1) k" "docs_at ?N k (vis w1) = docs_at ?N k (vis w)"
          using other_heights(2,3) [OF D1(1) False] k unfolding D1(2) by auto
        moreover have "sd_num s < k \<and> k \<le> n - 1" using k False by simp
        ultimately have "docs_at ?N k (vis w1) \<subseteq> D" using D(4) unfolding top_down_def by blast
        then show ?thesis unfolding o(2) by blast
      qed (use D1' k in auto)
    next
      fix s assume s: "s \<in> D1 \<union> D" "sd_col s = blockCol"
      show "docs_at ?N (sd_num s) (vis w) \<subseteq> D1 \<union> D"
      proof (cases "s \<in> D1")
        case True
        then show ?thesis using D1' num by (auto split: if_splits)
      next
        case False
        then have "s \<in> D" using s by auto
        then have "docs_at ?N (sd_num s) (vis w1) \<subseteq> D" using D(4) s(2) unfolding top_down_def by blast
        then show ?thesis using other_heights(2) [OF D1(1), of "sd_num s"] low [OF \<open>s \<in> D\<close>] unfolding D1(2) by auto
      qed
    qed
    ultimately show ?thesis by blast
  next
    case (Some err)
    then have "w' = w1" "r \<noteq> None" using Suc.prems n h by (auto simp: rollback_down.simps [of known blockCol rangeDocs d "from" to hashes n])
    moreover have "D1 \<subseteq> orphaned ?N blockCol hashes from n (vis w)" using D1(1,3) unfolding orphaned_split [OF n] by auto
    moreover have "top_down ?N blockCol hashes n (vis w) D1"
      using D1(3,4) num unfolding top_down_def by auto
    ultimately show ?thesis using D1(2) by blast
  qed
qed

end

section \<open>The EVM converter provides the interface\<close>

definition evm_queries :: "CollectionNames \<Rightarrow> (string \<times> string) list" where
  "evm_queries c = [(Block c, ''number''), (Transaction c, ''blockNumber''), (Log c, ''blockNumber''),
     (AccessListEntry c, ''blockNumber''), (BlockSignature c, ''blockNumber'')]"

lemma range_collections_ids:
  "distinct (map fst qs) \<Longrightarrow> range_collections exec a b qs = Inr m \<Longrightarrow>
   distinct (map fst m) \<and> fst ` set m \<subseteq> fst ` set qs \<and> (\<forall>(c, f) \<in> set qs. queryCollectionDocIDs exec c f a b = Inr (ids_in m c))"
proof (induction qs arbitrary: m)
  case (Cons q qs)
  obtain c f where q: "q = (c, f)" by fastforce
  from Cons.prems(2) obtain ids m' where r: "queryCollectionDocIDs exec c f a b = Inr ids" "range_collections exec a b qs = Inr m'"
    "m = (if ids \<noteq> [] then (c, ids) # m' else m')" by (auto simp: q split: sum.splits)
  have IH: "distinct (map fst m')" "fst ` set m' \<subseteq> fst ` set qs"
    "\<forall>(c, f) \<in> set qs. queryCollectionDocIDs exec c f a b = Inr (ids_in m' c)" using Cons.IH [OF _ r(2)] Cons.prems(1) by auto
  have c: "c \<notin> fst ` set qs" using Cons.prems(1) q by auto
  then have "map_of m' c = None" using IH(2) by (auto simp: map_of_eq_None_iff)
  then have "ids_in m c = ids" by (simp add: r(3) ids_in_def)
  moreover have "ids_in m c' = ids_in m' c'" if "(c', f') \<in> set qs" for c' f'
    using c that by (force simp: r(3) ids_in_def)
  ultimately show ?case using IH c r(1) by (auto simp: q r(3))
qed simp

lemma one_height_query:
  assumes "serves_ids exec docs c f" and "queryCollectionDocIDs exec c f n n = Inr ids"
  shows "ids = map sd_id (at_height c n docs)"
proof -
  have nxt: "query_chunks exec c f (n + 100) n acc = Inr acc" for acc by (simp add: query_chunks.simps)
  have one: "queryCollectionDocIDs exec c f n n = (case gql_Errors (exec (range_query c f n n)) of
      e # _ \<Rightarrow> Inl (Wrapped (''query '' @ c @ '' ['' @ itoa n @ ''-'' @ itoa n @ '']: '') e [])
    | [] \<Rightarrow> Inr (case as_map (gql_Data (exec (range_query c f n n))) of None \<Rightarrow> []
      | Some data \<Rightarrow> (case rows_of (mget data c) of None \<Rightarrow> [] | Some rows \<Rightarrow> row_docIDs rows)))"
    by (simp add: queryCollectionDocIDs_def query_chunks.simps [of exec c f n] nxt Let_def min_def split: list.splits)
  then have "gql_Errors (exec (range_query c f n n)) = []" using assms(2) by (auto split: list.splits)
  then have "exec (range_query c f n n) = \<lparr>gql_Errors = [],
      gql_Data = AMap [c \<mapsto> AMaps (map (\<lambda>s. [''_docID'' \<mapsto> AString (sd_id s)]) (at_height c n docs))]\<rparr>"
    using assms(1) unfolding serves_ids_def by blast
  then show ?thesis using assms(2) row_docIDs_maps [of "map sd_id (at_height c n docs)"] unfolding one by (simp add: mget_def o_def)
qed

interpretation evm_ranges: range_source "AllCollections (collections (NewEvmConverter k))" "Block (collections (NewEvmConverter k))"
  "evm_queries (collections (NewEvmConverter k))" "\<lambda>exec. GetDocIDsByBlockRange exec (NewEvmConverter k)" for k
proof
  let ?c = "collections (NewEvmConverter k)"
  have c: "?c = NewCollectionNames (chainPrefixFromConfig k)" by (simp add: NewEvmConverter_def)
  have qs: "distinct (map fst (evm_queries ?c))" unfolding c by (simp add: evm_queries_def NewCollectionNames_def)
  have eq: "GetDocIDsByBlockRange exec (NewEvmConverter k) a b = range_collections exec a b (evm_queries ?c)" for exec a b
    by (simp add: GetDocIDsByBlockRange_def evm_queries_def)
  show "distinct (AllCollections ?c)" unfolding c by (simp add: AllCollections_def NewCollectionNames_def)
  show "Block ?c \<in> fst ` set (evm_queries ?c)" by (simp add: evm_queries_def)
  show "distinct (map fst m) \<and> fst ` set m \<subseteq> fst ` set (evm_queries ?c)" if "GetDocIDsByBlockRange exec (NewEvmConverter k) a b = Inr m"
    for exec a b m using range_collections_ids [OF qs] that unfolding eq by blast
  show "ids_in m c = map sd_id (at_height c n docs)"
    if "GetDocIDsByBlockRange exec (NewEvmConverter k) n n = Inr m" "\<forall>(c, field) \<in> set (evm_queries ?c). serves_ids exec docs c field"
      "c \<in> fst ` set (evm_queries ?c)" for exec n m docs c
  proof -
    from that(3) obtain f where f: "(c, f) \<in> set (evm_queries ?c)" by auto
    then have "queryCollectionDocIDs exec c f n n = Inr (ids_in m c)" using range_collections_ids [OF qs] that(1) unfolding eq by blast
    moreover have "serves_ids exec docs c f" using that(2) f by blast
    ultimately show ?thesis using one_height_query by blast
  qed
qed

abbreviation evm_block :: "ConverterConfig option \<Rightarrow> string" where
  "evm_block k \<equiv> Block (collections (NewEvmConverter k))"

abbreviation evm_names :: "ConverterConfig option \<Rightarrow> string set" where
  "evm_names k \<equiv> fst ` set (evm_queries (collections (NewEvmConverter k)))"

abbreviation evm_roller_laws :: "ConverterConfig option \<Rightarrow> 'w rollerDB \<Rightarrow> ('w \<Rightarrow> stored_doc list) \<Rightarrow> bool" where
  "evm_roller_laws k d vis \<equiv> roller_laws d vis (evm_block k) (evm_queries (collections (NewEvmConverter k)))"

lemma evm_rollback_deletes:
  assumes "evm_roller_laws k d vis" and "evm_rollback (NewEvmConverter k) d from to hashes w = (w', r)"
  obtains D where "vis w' = filter (\<lambda>s. s \<notin> D) (vis w)" "D \<subseteq> orphaned (evm_names k) (evm_block k) hashes from to (vis w)"
    "r = None \<longrightarrow> D = orphaned (evm_names k) (evm_block k) hashes from to (vis w)"
    "top_down (evm_names k) (evm_block k) hashes to (vis w) D"
  using evm_ranges.down_deletes [OF assms(1) assms(2) [unfolded evm_rollback_def RollbackBlocks_def]] by (elim exE conjE) (rule that)

text \<open>What an interrupted rollback left is found again, and nothing else.\<close>

lemma orphaned_resumed:
  assumes sub: "D \<subseteq> orphaned names b hashes from to docs" and td: "top_down names b hashes to docs D" and b: "b \<in> names"
  shows "D \<union> orphaned names b hashes from to (filter (\<lambda>s. s \<notin> D) docs) = orphaned names b hashes from to docs"
proof -
  let ?docs = "filter (\<lambda>s. s \<notin> D) docs"
  have at: "at_height b k ?docs = filter (\<lambda>s. s \<notin> D) (at_height b k docs)" for k
    by (auto simp: at_height_def conj_commute intro: filter_cong)
  have docs: "docs_at names k ?docs = docs_at names k docs - D" for k by (auto simp: docs_at_def)
  have still: "orphan b hashes docs k" if o: "orphan b hashes ?docs k" for k
  proof (rule ccontr)
    assume n: "\<not> orphan b hashes docs k"
    then have "s \<notin> D" if "s \<in> set docs" "sd_num s = k" for s using sub that by (auto simp: orphaned_def docs_at_def)
    then have "at_height b k ?docs = at_height b k docs" by (auto simp: at_height_def intro!: filter_cong)
    then show False using o n by (simp add: orphan_def)
  qed
  have again: "orphan b hashes ?docs k \<or> docs_at names k docs \<subseteq> D" if "orphan b hashes docs k" for k
  proof -
    from that obtain ch s where s: "hashes k = Some ch" "ch \<noteq> []" "at_height b k docs = [s]" "sd_hash s \<noteq> []" "sd_hash s \<noteq> ch"
      by (auto simp: orphan_def)
    have "s \<in> set (at_height b k docs)" using s(3) by simp
    then have "sd_col s = b" "sd_num s = k" by (auto simp: at_height_def)
    then show ?thesis using s td at [of k] by (cases "s \<in> D") (auto simp: orphan_def top_down_def)
  qed
  show ?thesis
  proof (rule antisym)
    show "D \<union> orphaned names b hashes from to ?docs \<subseteq> orphaned names b hashes from to docs"
      using sub still unfolding orphaned_def docs by blast
    show "orphaned names b hashes from to docs \<subseteq> D \<union> orphaned names b hashes from to ?docs"
      using again unfolding orphaned_def docs by blast
  qed
qed

section \<open>Properties\<close>

text \<open>C10: a rollback deletes only proven orphans and can be interrupted anywhere. Whatever the outcome,
  the documents removed belong to heights of the range whose stored block hash differs from the verified
  hash of the new chain; a height is touched only after all orphans above it are gone completely, and a
  block document only after everything else of its height.\<close>

theorem RollbackBlocks_safe:
  assumes "evm_roller_laws k d vis" and "evm_rollback (NewEvmConverter k) d from to hashes w = (w', r)"
  shows "set (vis w') \<subseteq> set (vis w)
    \<and> set (vis w) - set (vis w') \<subseteq> orphaned (evm_names k) (evm_block k) hashes from to (vis w)
    \<and> top_down (evm_names k) (evm_block k) hashes to (vis w) (set (vis w) - set (vis w'))"
proof -
  obtain D where D: "vis w' = filter (\<lambda>s. s \<notin> D) (vis w)" "D \<subseteq> orphaned (evm_names k) (evm_block k) hashes from to (vis w)"
    "top_down (evm_names k) (evm_block k) hashes to (vis w) D" by (rule evm_rollback_deletes [OF assms])
  have "D \<subseteq> set (vis w)" using D(2) by (auto simp: orphaned_def docs_at_def)
  then have "set (vis w) - set (vis w') = D" using D(1) by auto
  then show ?thesis using D by auto
qed

text \<open>A world that serves height 9 only, with an orphaned block and one of its transactions.\<close>

definition demo_cols :: CollectionNames where
  "demo_cols = collections (NewEvmConverter None)"

definition ok_rows :: "string \<Rightarrow> doc list \<Rightarrow> gql_result" where
  "ok_rows c rows = \<lparr>gql_Errors = [], gql_Data = AMap [c \<mapsto> AMaps rows]\<rparr>"

definition demo_answers :: "stored_doc list \<Rightarrow> (string \<times> gql_result) list" where
  "demo_answers docs = (hash_query (Block demo_cols) 9, ok_rows (Block demo_cols)
       (map (\<lambda>s. [''hash'' \<mapsto> AString (sd_hash s), ''_docID'' \<mapsto> AString (sd_id s)]) (at_height (Block demo_cols) 9 docs)))
     # map (\<lambda>(c, f). (range_query c f 9 9, ok_rows c (map (\<lambda>s. [''_docID'' \<mapsto> AString (sd_id s)]) (at_height c 9 docs))))
         (evm_queries demo_cols)"

definition demo_orphans :: "stored_doc list" where
  "demo_orphans = [\<lparr>sd_col = Block demo_cols, sd_id = ''bae-b9'', sd_num = 9, sd_hash = ''0xold''\<rparr>,
     \<lparr>sd_col = Transaction demo_cols, sd_id = ''bae-t1'', sd_num = 9, sd_hash = []\<rparr>]"

definition demo_vis :: "stored_doc list \<Rightarrow> stored_doc list" where
  "demo_vis docs = filter (\<lambda>s. s \<in> set demo_orphans) docs"

definition demo_roller :: "stored_doc list rollerDB" where
  "demo_roller = \<lparr>rl_Exec = (\<lambda>docs q. case map_of (demo_answers (demo_vis docs)) q of Some a \<Rightarrow> a
       | None \<Rightarrow> \<lparr>gql_Errors = [ErrMsg ''unavailable''], gql_Data = ANil\<rparr>),
     rl_GetCollection = (\<lambda>_ _. None),
     DeleteDocumentsWithFilter = (\<lambda>docs c ids. (filter (\<lambda>s. \<not> (sd_col s = c \<and> sd_id s \<in> set ids)) docs, None))\<rparr>"

lemma itoa_no_sep: "c \<in> set (itoa n) \<Longrightarrow> c \<noteq> CHR '','' \<and> c \<noteq> CHR ''}'' \<and> c \<noteq> CHR '')''"
proof -
  assume "c \<in> set (itoa n)"
  from itoa_chars [OF this] consider "c = CHR ''-''" | d where "d < 10" "c = digit_char d" by blast
  then show ?thesis
  proof cases
    case (2 d)
    then have "d < 16" by simp
    from less_16_cases [OF this] show ?thesis using 2 by (elim disjE; simp add: digit_char_def)
  qed simp
qed

definition gql_name :: "string \<Rightarrow> bool" where
  "gql_name c \<longleftrightarrow> CHR ''('' \<notin> set c \<and> CHR '':'' \<notin> set c"

text \<open>Queries are told apart by their texts.\<close>

lemma query_eq:
  assumes "gql_name b" and "gql_name c" and "gql_name f" and "gql_name f'"
  shows "hash_query b n = hash_query b m \<longleftrightarrow> n = m" and "hash_query b n \<noteq> range_query c f m m'"
    and "range_query b f n n' = range_query c f' m m' \<longleftrightarrow> b = c \<and> f = f' \<and> n = m \<and> n' = m'"
proof -
  note sep = append_sep_inject
  show "hash_query b n = hash_query b m \<longleftrightarrow> n = m"
    using sep [of "CHR ''}''" "itoa n" "itoa m" "''}) { hash _docID } }''" "''}) { hash _docID } }''"] itoa_no_sep
    by (auto simp: hash_query_def)
  show "hash_query b n \<noteq> range_query c f m m'"
  proof
    assume "hash_query b n = range_query c f m m'"
    then have "b @ CHR ''('' # ''filter: {number: {_eq: '' @ itoa n @ ''}}) { hash _docID } }''
      = c @ CHR ''('' # ''filter: {'' @ f @ '': {_geq: '' @ itoa m @ '', _leq: '' @ itoa m' @ ''}}) { _docID } }''"
      by (simp add: hash_query_def range_query_def)
    from sep [OF _ _ this] have "''number'' @ CHR '':'' # '' {_eq: '' @ itoa n @ ''}}) { hash _docID } }''
      = f @ CHR '':'' # '' {_geq: '' @ itoa m @ '', _leq: '' @ itoa m' @ ''}}) { _docID } }''"
      using assms by (auto simp: gql_name_def)
    from sep [OF _ _ this] show False using assms(3) by (auto simp: gql_name_def)
  qed
  show "range_query b f n n' = range_query c f' m m' \<longleftrightarrow> b = c \<and> f = f' \<and> n = m \<and> n' = m'"
  proof
    assume "range_query b f n n' = range_query c f' m m'"
    then have "b @ CHR ''('' # ''filter: {'' @ f @ '': {_geq: '' @ itoa n @ '', _leq: '' @ itoa n' @ ''}}) { _docID } }''
      = c @ CHR ''('' # ''filter: {'' @ f' @ '': {_geq: '' @ itoa m @ '', _leq: '' @ itoa m' @ ''}}) { _docID } }''"
      by (simp add: range_query_def)
    from sep [OF _ _ this] have bc: "b = c" and r: "f @ CHR '':'' # '' {_geq: '' @ itoa n @ '', _leq: '' @ itoa n' @ ''}}) { _docID } }''
      = f' @ CHR '':'' # '' {_geq: '' @ itoa m @ '', _leq: '' @ itoa m' @ ''}}) { _docID } }''"
      using assms by (auto simp: gql_name_def)
    from sep [OF _ _ r] have ff: "f = f'" and nm: "itoa n @ CHR '','' # '' _leq: '' @ itoa n' @ CHR ''}'' # ''}) { _docID } }''
      = itoa m @ CHR '','' # '' _leq: '' @ itoa m' @ CHR ''}'' # ''}) { _docID } }''" using assms by (auto simp: gql_name_def)
    from sep [OF _ _ nm] have "itoa n = itoa m"
      and nm': "itoa n' @ CHR ''}'' # ''}) { _docID } }'' = itoa m' @ CHR ''}'' # ''}) { _docID } }''" using itoa_no_sep by auto
    moreover from sep [OF _ _ nm'] have "itoa n' = itoa m'" using itoa_no_sep by blast
    ultimately show "b = c \<and> f = f' \<and> n = m \<and> n' = m'" using bc ff by simp
  qed simp
qed

lemma demo_cols_simps [simp]:
  "Block demo_cols = ''Ethereum__Mainnet__Block''" "Transaction demo_cols = ''Ethereum__Mainnet__Transaction''"
  "Log demo_cols = ''Ethereum__Mainnet__Log''" "AccessListEntry demo_cols = ''Ethereum__Mainnet__AccessListEntry''"
  "BlockSignature demo_cols = ''Ethereum__Mainnet__BlockSignature''"
  by (simp_all add: demo_cols_def NewEvmConverter_def chainPrefixFromConfig_def NewCollectionNames_def)

lemma demo_gql_names: "(c, f) \<in> set (evm_queries demo_cols) \<Longrightarrow> gql_name c \<and> gql_name f" "gql_name (Block demo_cols)"
  by (auto simp: evm_queries_def gql_name_def)

lemma map_of_queries:
  assumes "distinct (map fst qs)" and "\<forall>(c, f) \<in> set qs. gql_name c \<and> gql_name f" and "(c, f) \<in> set qs"
  shows "map_of (map (\<lambda>(c, f). (range_query c f k k', g c)) qs) (range_query c f n n') = (if n = k \<and> n' = k' then Some (g c) else None)"
  using assms
proof (induction qs)
  case (Cons q qs)
  obtain c' f' where q: "q = (c', f')" by fastforce
  have eq: "range_query c f n n' = range_query c' f' k k' \<longleftrightarrow> c = c' \<and> f = f' \<and> n = k \<and> n' = k'"
    by (rule query_eq(3)) (use Cons.prems q in auto)
  show ?case
  proof (cases "(c, f) \<in> set qs")
    case True
    then have "c \<noteq> c'" using Cons.prems(1) q by force
    then show ?thesis using Cons.IH Cons.prems True eq q by auto
  next
    case False
    then have cf: "c = c'" "f = f'" using Cons.prems(3) q by auto
    show ?thesis
    proof (cases "n = k \<and> n' = k'")
      case False
      have "range_query c f n n' \<noteq> range_query c'' f'' k k'" if "(c'', f'') \<in> set qs" for c'' f''
        using query_eq(3) [of c c'' f f'' n n' k k'] Cons.prems that False by fastforce
      then have "map_of (map (\<lambda>(c, f). (range_query c f k k', g c)) qs) (range_query c f n n') = None"
        by (force simp: map_of_eq_None_iff)
      then show ?thesis using eq False q by simp
    qed (simp add: q cf)
  qed
qed simp

lemma demo_exec:
  "map_of (demo_answers docs) (hash_query (Block demo_cols) n) = (if n = 9 then Some (ok_rows (Block demo_cols)
       (map (\<lambda>s. [''hash'' \<mapsto> AString (sd_hash s), ''_docID'' \<mapsto> AString (sd_id s)]) (at_height (Block demo_cols) 9 docs))) else None)"
  "(c, f) \<in> set (evm_queries demo_cols) \<Longrightarrow> map_of (demo_answers docs) (range_query c f n n) =
     (if n = 9 then Some (ok_rows c (map (\<lambda>s. [''_docID'' \<mapsto> AString (sd_id s)]) (at_height c 9 docs))) else None)"
proof -
  let ?b = "Block demo_cols"
  have "hash_query ?b n \<noteq> range_query c f 9 9" if "(c, f) \<in> set (evm_queries demo_cols)" for c f
    using query_eq(2) demo_gql_names that by blast
  then have "map_of (map (\<lambda>(c, f). (range_query c f 9 9, ok_rows c (map (\<lambda>s. [''_docID'' \<mapsto> AString (sd_id s)]) (at_height c 9 docs))))
      (evm_queries demo_cols)) (hash_query ?b n) = None" by (force simp: map_of_eq_None_iff)
  moreover have "hash_query ?b n = hash_query ?b 9 \<longleftrightarrow> n = 9" using query_eq(1) demo_gql_names(2) by blast
  ultimately show "map_of (demo_answers docs) (hash_query ?b n) = (if n = 9 then Some (ok_rows ?b
      (map (\<lambda>s. [''hash'' \<mapsto> AString (sd_hash s), ''_docID'' \<mapsto> AString (sd_id s)]) (at_height ?b 9 docs))) else None)"
    unfolding demo_answers_def by (simp del: demo_cols_simps)
  show "map_of (demo_answers docs) (range_query c f n n) =
     (if n = 9 then Some (ok_rows c (map (\<lambda>s. [''_docID'' \<mapsto> AString (sd_id s)]) (at_height c 9 docs))) else None)"
    if cf: "(c, f) \<in> set (evm_queries demo_cols)"
  proof -
    have ne: "range_query c f n n \<noteq> hash_query ?b 9" using query_eq(2) [of ?b c f f 9 n n] demo_gql_names cf by metis
    have "distinct (map fst (evm_queries demo_cols))" by (simp add: evm_queries_def)
    moreover have "\<forall>(c, f) \<in> set (evm_queries demo_cols). gql_name c \<and> gql_name f" using demo_gql_names(1) by blast
    ultimately have "map_of (map (\<lambda>(c, f). (range_query c f 9 9, ok_rows c (map (\<lambda>s. [''_docID'' \<mapsto> AString (sd_id s)]) (at_height c 9 docs))))
        (evm_queries demo_cols)) (range_query c f n n)
      = (if n = 9 then Some (ok_rows c (map (\<lambda>s. [''_docID'' \<mapsto> AString (sd_id s)]) (at_height c 9 docs))) else None)"
      using map_of_queries [OF _ _ cf, of 9 9 "\<lambda>c. ok_rows c (map (\<lambda>s. [''_docID'' \<mapsto> AString (sd_id s)]) (at_height c 9 docs))" n n] by simp
    then show ?thesis using ne unfolding demo_answers_def by (simp del: demo_cols_simps)
  qed
qed

lemma demo_roller_laws: "evm_roller_laws None demo_roller demo_vis"
proof -
  have "inj_on (\<lambda>s. (sd_col s, sd_id s)) (set (demo_vis docs))" for docs
    by (rule inj_on_subset [of _ "set demo_orphans"]) (auto simp: demo_vis_def demo_orphans_def inj_on_def)
  then show ?thesis unfolding demo_cols_def [symmetric] roller_laws_def serves_hash_def serves_ids_def
    by (auto simp: demo_roller_def demo_exec ok_rows_def demo_vis_def conj_commute simp del: demo_cols_simps split: if_splits intro: filter_cong)
qed

lemma demo_deletes: "snd (delete_collections demo_roller m cs docs) = None"
proof -
  have "snd (delete_chunks demo_roller c css docs) = None" for c css docs
    by (induction css arbitrary: docs) (auto simp: demo_roller_def)
  then have soft: "snd (softDeleteCollectionDocs demo_roller c ids docs) = None" for c ids docs
    by (simp add: softDeleteCollectionDocs_def) (simp add: demo_roller_def)
  show ?thesis
  proof (induction cs arbitrary: docs)
    case (Cons c cs)
    obtain w e where "softDeleteCollectionDocs demo_roller c (ids_in m c) docs = (w, e)" by fastforce
    with soft [of c "ids_in m c" docs] Cons.IH show ?case by simp
  qed simp
qed

lemma demo_rollback_ok:
  assumes "length (at_height (Block demo_cols) 9 (demo_vis docs)) \<le> 1"
  shows "snd (evm_rollback (NewEvmConverter None) demo_roller 9 9 [9 \<mapsto> ''0xnew''] docs) = None"
proof -
  obtain h where h: "GetStoredBlockHash (rl_Exec demo_roller docs) (Block demo_cols) 9 = Inr h"
    using assms by (cases "at_height (Block demo_cols) 9 (demo_vis docs)")
      (auto simp: GetStoredBlockHash_def demo_roller_def demo_exec ok_rows_def mget_def simp del: demo_cols_simps)
  have "\<exists>m. range_collections (rl_Exec demo_roller docs) 9 9 qs = Inr m" if "set qs \<subseteq> set (evm_queries demo_cols)" for qs
    using that
  proof (induction qs)
    case (Cons q qs)
    obtain c f where q: "q = (c, f)" "(c, f) \<in> set (evm_queries demo_cols)" using Cons.prems by (cases q) auto
    have "\<exists>ids. queryCollectionDocIDs (rl_Exec demo_roller docs) c f 9 9 = Inr ids"
      using demo_exec(2) [OF q(2), of "demo_vis docs" 9]
      by (simp add: queryCollectionDocIDs_def query_chunks.simps [of _ _ _ 9] query_chunks.simps [of _ _ _ 109] demo_roller_def ok_rows_def Let_def)
    with Cons show ?case by (auto simp: q)
  qed simp
  then obtain m where m: "GetDocIDsByBlockRange (rl_Exec demo_roller docs) (NewEvmConverter None) 9 9 = Inr m"
    unfolding GetDocIDsByBlockRange_def evm_queries_def demo_cols_def by blast
  obtain w1 where "delete_collections demo_roller m (deleteOrder (AllCollections demo_cols) (Block demo_cols) (sort (map fst m))) docs = (w1, None)"
    using demo_deletes by (metis prod.collapse)
  then have "snd (rollback_height (AllCollections demo_cols) (Block demo_cols) (\<lambda>exec. GetDocIDsByBlockRange exec (NewEvmConverter None))
      demo_roller 9 9 [9 \<mapsto> ''0xnew''] 9 docs) = None"
    using h m by (simp add: rollback_height_def Let_def del: demo_cols_simps)
  then show ?thesis
    by (auto simp: evm_rollback_def RollbackBlocks_def demo_cols_def rollback_down.simps [of _ _ _ _ 9 9 _ 9] rollback_down.simps [of _ _ _ _ 9 9 _ 8]
        split: prod.splits option.splits)
qed

theorem RollbackBlocks_safe_witness:
  "\<exists>docs r. evm_rollback (NewEvmConverter None) demo_roller 9 9 [9 \<mapsto> ''0xnew''] demo_orphans = (docs, r)
    \<and> set (demo_vis docs) \<subseteq> set (demo_vis demo_orphans)"
proof -
  obtain docs r where run: "evm_rollback (NewEvmConverter None) demo_roller 9 9 [9 \<mapsto> ''0xnew''] demo_orphans = (docs, r)" by fastforce
  from RollbackBlocks_safe [OF demo_roller_laws run] run show ?thesis by blast
qed

text \<open>C11: a rollback can be resumed. Repeating an interrupted rollback until it succeeds removes exactly what
  an uninterrupted one would have removed: all documents of all orphaned heights of the range, and
  nothing else. In particular repeating a successful rollback changes nothing.\<close>

theorem RollbackBlocks_resumes:
  assumes "evm_roller_laws k d vis" and "evm_rollback (NewEvmConverter k) d from to hashes w = (w1, r)"
    and "evm_rollback (NewEvmConverter k) d from to hashes w1 = (w2, None)"
  shows "vis w2 = filter (\<lambda>s. s \<notin> orphaned (evm_names k) (evm_block k) hashes from to (vis w)) (vis w)"
proof -
  obtain D where D: "vis w1 = filter (\<lambda>s. s \<notin> D) (vis w)" "D \<subseteq> orphaned (evm_names k) (evm_block k) hashes from to (vis w)"
    "top_down (evm_names k) (evm_block k) hashes to (vis w) D" by (rule evm_rollback_deletes [OF assms(1,2)])
  obtain E where E: "vis w2 = filter (\<lambda>s. s \<notin> E) (vis w1)" "E = orphaned (evm_names k) (evm_block k) hashes from to (vis w1)"
    by (rule evm_rollback_deletes [OF assms(1,3)]) simp
  have "D \<union> E = orphaned (evm_names k) (evm_block k) hashes from to (vis w)"
    unfolding E(2) D(1) by (rule orphaned_resumed [OF D(2,3) evm_ranges.block_queried])
  then show ?thesis unfolding E(1) D(1) filter_filter by (auto intro!: filter_cong)
qed

theorem RollbackBlocks_resumes_witness:
  "\<exists>docs. demo_vis docs = filter (\<lambda>s. s \<notin> orphaned (evm_names None) (evm_block None) [9 \<mapsto> ''0xnew''] 9 9 (demo_vis demo_orphans))
    (demo_vis demo_orphans)"
proof -
  obtain docs r where run: "evm_rollback (NewEvmConverter None) demo_roller 9 9 [9 \<mapsto> ''0xnew''] demo_orphans = (docs, r)" by fastforce
  obtain D where "demo_vis docs = filter (\<lambda>s. s \<notin> D) (demo_vis demo_orphans)"
    by (rule evm_rollback_deletes [OF demo_roller_laws run])
  then have "length (at_height (Block demo_cols) 9 (demo_vis docs)) \<le> 1"
    by (simp add: demo_vis_def demo_orphans_def at_height_def)
  from demo_rollback_ok [OF this] obtain docs2 where
    "evm_rollback (NewEvmConverter None) demo_roller 9 9 [9 \<mapsto> ''0xnew''] docs = (docs2, None)" by (metis prod.collapse)
  from RollbackBlocks_resumes [OF demo_roller_laws run this] show ?thesis by blast
qed

end
