(* ===== verification/Pruner.thy ===== *)
theory Pruner
  imports Config Prune_Queue Reorg_Roller
begin

text \<open>
  File \<open>pkg/pruner/pruner.go\<close>: the pruner, its lifecycle, and its two ways of removing old blocks, by
  draining the queue of indexed blocks and by the range of stored heights.

  The database is the record \<open>prunerDB\<close> of the calls the pruner makes; a purge may fail after removing
  some of the documents it names. What the pruner uses of the \<open>chains.Converter\<close> interface is the record
  \<open>blockRanges\<close> with the contract \<open>pruned_chain\<close>, which the EVM converter meets. \<open>time.Now\<close> and the
  I/O failures of a checkpoint are arguments. \<open>IndexerQueue\<close> is the only implementation of \<open>Queue\<close>.
\<close>

section \<open>Model\<close>

abbreviation ErrNoBlocks :: string where "ErrNoBlocks \<equiv> ''no blocks found''"
abbreviation ErrNoValidBlocks :: string where "ErrNoValidBlocks \<equiv> ''blocks exist but none have a valid block number''"

record blockRanges =
  LowestStored :: "exec_request \<Rightarrow> height result"
  HighestStored :: "exec_request \<Rightarrow> height result"
  DocIDsByRange :: range_docs

definition evm_blockRanges :: "(any \<Rightarrow> string) \<Rightarrow> (any \<Rightarrow> string) \<Rightarrow> int \<Rightarrow> Converter \<Rightarrow> blockRanges" where
  "evm_blockRanges fmtv fmtgo now c = \<lparr>LowestStored = (\<lambda>exec. GetLowestStoredBlockNumber fmtv fmtgo now exec c),
     HighestStored = (\<lambda>exec. GetHighestStoredBlockNumber fmtv fmtgo now exec c),
     DocIDsByRange = (\<lambda>exec. GetDocIDsByBlockRange exec c)\<rparr>"

record 'w prunerDB =
  pr_Exec :: "'w \<Rightarrow> exec_request"
  pr_GetCollection :: "'w \<Rightarrow> string \<Rightarrow> goerror option"
  PurgeByDocIDs :: "'w \<Rightarrow> string \<Rightarrow> docID list \<Rightarrow> bool \<Rightarrow> 'w \<times> goerror option"
  NewDocIDFromString :: "docID \<Rightarrow> goerror option"

record Pruner =
  pr_cfg :: PrunerConfig
  blockCollection :: string
  blockSigCollection :: string
  pr_queue :: "IndexerQueue option"
  queueFiles :: filesystem
  stopChanClosed :: bool
  lastPruneTime :: "int option"
  totalBlocksPruned :: int
  totalDocsPruned :: int
  isRunning :: bool

record PrunerMetrics =
  pm_Enabled :: bool
  pm_IsRunning :: bool
  pm_LastPruneTime :: "int option"
  pm_TotalBlocksPruned :: int
  pm_TotalDocsPruned :: int

record CycleEvent =
  ev_Blocks :: int
  ev_Docs :: int

text \<open>The collection names come from the converter, if there is one.\<close>

definition NewPruner :: "PrunerConfig \<Rightarrow> (string \<times> string) option \<Rightarrow> filesystem \<Rightarrow> Pruner" where
  "NewPruner c names fs = \<lparr>pr_cfg = c, blockCollection = (case names of Some (b, _) \<Rightarrow> b | None \<Rightarrow> []),
     blockSigCollection = (case names of Some (_, s) \<Rightarrow> s | None \<Rightarrow> []), pr_queue = None, queueFiles = fs,
     stopChanClosed = False, lastPruneTime = None, totalBlocksPruned = 0, totalDocsPruned = 0, isRunning = False\<rparr>"

definition SetQueue :: "IndexerQueue \<Rightarrow> Pruner \<Rightarrow> Pruner" where
  "SetQueue q p = p\<lparr>pr_queue := Some q\<rparr>"

definition GetMetrics :: "Pruner \<Rightarrow> PrunerMetrics" where
  "GetMetrics p = \<lparr>pm_Enabled = pc_Enabled (pr_cfg p), pm_IsRunning = isRunning p, pm_LastPruneTime = lastPruneTime p,
     pm_TotalBlocksPruned = totalBlocksPruned p, pm_TotalDocsPruned = totalDocsPruned p\<rparr>"

subsection \<open>Purging documents\<close>

definition purgeByDocIDs :: "'w prunerDB \<Rightarrow> bool \<Rightarrow> string \<Rightarrow> docID list \<Rightarrow> 'w \<Rightarrow> 'w \<times> int \<times> goerror option" where
  "purgeByDocIDs d pruneHistory collectionName docIDs w =
     (if docIDs = [] then (w, 0, None)
      else case pr_GetCollection d w collectionName of
        Some e \<Rightarrow> (w, 0, Some (Wrapped (''failed to get collection '' @ collectionName @ '': '') e []))
      | None \<Rightarrow> (let clientDocIDs = filter (\<lambda>i. NewDocIDFromString d i = None) docIDs;
                     skipped = length (filter (\<lambda>i. NewDocIDFromString d i \<noteq> None) docIDs) in
          case PurgeByDocIDs d w collectionName clientDocIDs pruneHistory of
            (w, Some e) \<Rightarrow> (w, 0, Some e)
          | (w, None) \<Rightarrow> (w, int (length clientDocIDs),
              if skipped > 0 then Some (ErrMsg (''skipped '' @ itoa (int skipped) @ '' invalid docID(s) out of '' @ itoa (int (length docIDs))))
              else None)))"

text \<open>\<open>errors.Join\<close>: texts on separate lines, \<open>errors.Is\<close> looks into each.\<close>

fun errors_Join :: "goerror list \<Rightarrow> goerror option" where
  "errors_Join [] = None"
| "errors_Join (e # es) = Some (case errors_Join es of None \<Rightarrow> e | Some f \<Rightarrow> Wrapped2 [] e [CHR 10] f [])"

fun purge_each ::
  "'w prunerDB \<Rightarrow> bool \<Rightarrow> (string \<Rightarrow> docID list option) \<Rightarrow> string list \<Rightarrow> 'w \<Rightarrow> int \<Rightarrow> goerror list \<Rightarrow> 'w \<times> int \<times> goerror list" where
  "purge_each d hist m [] w totalPurged errs = (w, totalPurged, errs)"
| "purge_each d hist m (colName # rest) w totalPurged errs =
     (if ids_at m colName = [] then purge_each d hist m rest w totalPurged errs
      else case purgeByDocIDs d hist colName (ids_at m colName) w of
        (w, purged, None) \<Rightarrow> purge_each d hist m rest w (totalPurged + purged) errs
      | (w, purged, Some e) \<Rightarrow>
          purge_each d hist m rest w (totalPurged + purged) (errs @ [Wrapped (''purge '' @ colName @ '': '') e []]))"

definition purgeByDocIDsByCollection ::
  "'w prunerDB \<Rightarrow> bool \<Rightarrow> (string \<Rightarrow> docID list option) \<Rightarrow> 'w \<Rightarrow> 'w \<times> int \<times> goerror option" where
  "purgeByDocIDsByCollection d hist docIDsByCollection w =
     (case purge_each d hist docIDsByCollection (sorted_list_of_set (dom docIDsByCollection)) w 0 [] of
        (w, totalPurged, errs) \<Rightarrow> (w, totalPurged, case errors_Join errs of None \<Rightarrow> None
          | Some e \<Rightarrow> Some (Wrapped ''collection purge errors: '' e [])))"

subsection \<open>Pruning by range\<close>

definition range_error :: "string \<Rightarrow> goerror \<Rightarrow> goerror" where
  "range_error what e = (if IsErrNotFound (Some e) then Sentinel ErrNoBlocks
     else if errors_Is e ErrBlockNumberCorrupt then Wrapped (what @ '': '') (Sentinel ErrNoValidBlocks) []
     else Wrapped (what @ '': '') e [])"

definition getBlockRange :: "blockRanges option \<Rightarrow> exec_request \<Rightarrow> (height \<times> height) result" where
  "getBlockRange conv exec = (case conv of
     None \<Rightarrow> Inl (Sentinel ErrNoBlocks)
   | Some c \<Rightarrow> (case LowestStored c exec of
       Inl e \<Rightarrow> Inl (range_error ''get lowest block'' e)
     | Inr lowest \<Rightarrow> (case HighestStored c exec of
         Inl e \<Rightarrow> Inl (range_error ''get highest block'' e)
       | Inr highest \<Rightarrow> Inr (lowest, highest))))"

text \<open>Without a converter \<open>getBlockRange\<close> has already failed, so this is never called then.\<close>

definition pruneBlockRange ::
  "blockRanges option \<Rightarrow> 'w prunerDB \<Rightarrow> bool \<Rightarrow> height \<Rightarrow> height \<Rightarrow> 'w \<Rightarrow> 'w \<times> int \<times> goerror option" where
  "pruneBlockRange conv d hist startBlock endBlock w = (case conv of
     None \<Rightarrow> (w, 0, Some (Sentinel ErrNoBlocks))
   | Some c \<Rightarrow> (case DocIDsByRange c (pr_Exec d w) startBlock endBlock of
       Inl e \<Rightarrow> (w, 0, Some (Wrapped ''get docIDs by block range: '' e []))
     | Inr m \<Rightarrow> purgeByDocIDsByCollection d hist (map_of m) w))"

definition count_pruned :: "int \<Rightarrow> int \<Rightarrow> int \<Rightarrow> Pruner \<Rightarrow> Pruner" where
  "count_pruned now blocks purged p = p\<lparr>totalBlocksPruned := totalBlocksPruned p + blocks,
     totalDocsPruned := totalDocsPruned p + purged, lastPruneTime := Some now\<rparr>"

definition filterBasedPrune ::
  "int \<Rightarrow> blockRanges option \<Rightarrow> 'w prunerDB \<Rightarrow> Pruner \<Rightarrow> 'w \<Rightarrow> Pruner \<times> 'w \<times> goerror option" where
  "filterBasedPrune now conv d p w = (case getBlockRange conv (pr_Exec d w) of
     Inl e \<Rightarrow> (p, w, if errors_Is e ErrNoBlocks then None
        else Some (Wrapped ''filter-based prune: get block range: '' e []))
   | Inr (lowest, highest) \<Rightarrow> (let dbBlockCount = highest - lowest + 1 in
       if dbBlockCount \<le> MaxBlocks (pr_cfg p) then (p, w, None)
       else let excess = dbBlockCount - MaxBlocks (pr_cfg p); cutoff = lowest + excess - 1 in
         case pruneBlockRange conv d (PruneHistory (pr_cfg p)) lowest cutoff w of
           (w, _, Some e) \<Rightarrow> (p, w, Some e)
         | (w, purged, None) \<Rightarrow> (count_pruned now excess purged p, w, None)))"

text \<open>The check for \<open>ErrNoValidBlocks\<close> after the purge sees only a nil error and has no effect.\<close>

definition startupCleanup ::
  "int \<Rightarrow> blockRanges option \<Rightarrow> 'w prunerDB \<Rightarrow> Pruner \<Rightarrow> 'w \<Rightarrow> Pruner \<times> 'w \<times> goerror option" where
  "startupCleanup now conv d p w = (case getBlockRange conv (pr_Exec d w) of
     Inl e \<Rightarrow> (p, w, if errors_Is e ErrNoBlocks then None
        else Some (Wrapped ''startup cleanup: get block range: '' e []))
   | Inr (lowest, highest) \<Rightarrow> (let currentCount = highest - lowest + 1 in
       if currentCount \<le> MaxBlocks (pr_cfg p) then (p, w, None)
       else let toPrune = currentCount - MaxBlocks (pr_cfg p); cutoffBlock = lowest + toPrune - 1 in
         case pruneBlockRange conv d (PruneHistory (pr_cfg p)) lowest cutoffBlock w of
           (w, _, Some e) \<Rightarrow> (p, w, Some e)
         | (w, totalPurged, None) \<Rightarrow> (count_pruned now toPrune totalPurged p, w, None)))"

subsection \<open>Pruning by the queue\<close>

definition purgeFromDrainResult ::
  "int \<Rightarrow> 'w prunerDB \<Rightarrow> DrainResult \<Rightarrow> Pruner \<Rightarrow> 'w \<Rightarrow> Pruner \<times> 'w \<times> goerror option" where
  "purgeFromDrainResult now d r p w =
     (case purgeByDocIDsByCollection d (PruneHistory (pr_cfg p)) (DocIDsByCollection r) w of
        (w, totalPurged, e) \<Rightarrow>
          if (case e of Some x \<Rightarrow> errors_Is x ErrNoValidBlocks | None \<Rightarrow> False) then (p, w, None)
          else (count_pruned now (BlockCount r) totalPurged p, w, e))"

text \<open>How many blocks one cycle leaves in a queue of \<open>blockCount\<close>.\<close>

definition cycle_keep :: "PrunerConfig \<Rightarrow> int \<Rightarrow> int" where
  "cycle_keep c blockCount = (if MaxBlocksPerCycle c > 0 \<and> blockCount - MaxBlocks c > MaxBlocksPerCycle c
     then blockCount - MaxBlocksPerCycle c else MaxBlocks c)"

text \<open>The deferred checkpoint: it runs last, on every path, and its failure is only logged.\<close>

definition checkpoint :: "io_failures \<Rightarrow> Pruner \<times> 'w \<times> goerror option \<Rightarrow> Pruner \<times> 'w \<times> goerror option" where
  "checkpoint io r = (case r of (p, w, e) \<Rightarrow> (case pr_queue p of None \<Rightarrow> (p, w, e)
     | Some q \<Rightarrow> (p\<lparr>queueFiles := fst (Save io (queueFiles p) q)\<rparr>, w, e)))"

definition runIndexerQueuePrune ::
  "(BlockEntry list \<Rightarrow> BlockEntry list) \<Rightarrow> io_failures \<Rightarrow> int \<Rightarrow> blockRanges option \<Rightarrow> 'w prunerDB \<Rightarrow> IndexerQueue \<Rightarrow>
   Pruner \<Rightarrow> 'w \<Rightarrow> (Pruner \<times> 'w \<times> goerror option) outcome" where
  "runIndexerQueuePrune srt io now conv d q p w = (let blockCount = Len q in
     if blockCount \<le> MaxBlocks (pr_cfg p) then Returns (checkpoint io (filterBasedPrune now conv d p w))
     else case Drain srt (cycle_keep (pr_cfg p) blockCount) (blockCollection p) (blockSigCollection p) q of
       Panics \<Rightarrow> Panics
     | Returns (q, None) \<Rightarrow> Returns (checkpoint io (p\<lparr>pr_queue := Some q\<rparr>, w, None))
     | Returns (q, Some r) \<Rightarrow> Returns (checkpoint io (purgeFromDrainResult now d r (p\<lparr>pr_queue := Some q\<rparr>) w)))"

definition runPrune ::
  "(BlockEntry list \<Rightarrow> BlockEntry list) \<Rightarrow> io_failures \<Rightarrow> int \<Rightarrow> blockRanges option \<Rightarrow> 'w prunerDB \<Rightarrow>
   Pruner \<Rightarrow> 'w \<Rightarrow> (Pruner \<times> 'w \<times> goerror option) outcome" where
  "runPrune srt io now conv d p w = (case pr_queue p of
     None \<Rightarrow> Returns (filterBasedPrune now conv d p w)
   | Some q \<Rightarrow> runIndexerQueuePrune srt io now conv d q p w)"

definition timedCycle ::
  "(Pruner \<Rightarrow> 'w \<Rightarrow> (Pruner \<times> 'w \<times> goerror option) outcome) \<Rightarrow> Pruner \<Rightarrow> 'w \<Rightarrow>
   (Pruner \<times> 'w \<times> CycleEvent \<times> goerror option) outcome" where
  "timedCycle run p w = (case run p w of Panics \<Rightarrow> Panics
     | Returns (p', w', e) \<Rightarrow> Returns (p', w', \<lparr>ev_Blocks = totalBlocksPruned p' - totalBlocksPruned p,
         ev_Docs = totalDocsPruned p' - totalDocsPruned p\<rparr>, e))"

subsection \<open>Lifecycle\<close>

text \<open>The loop goroutine: the startup cleanup, then one cycle per tick until the context ends or the stop
  channel is closed, whichever the select sees. Errors are logged.\<close>

datatype loop_event = Ticked (tick_srt: "BlockEntry list \<Rightarrow> BlockEntry list") (tick_io: io_failures) (tick_now: int) | Stopping

fun prune_ticks ::
  "blockRanges option \<Rightarrow> 'w prunerDB \<Rightarrow> loop_event list \<Rightarrow> Pruner \<Rightarrow> 'w \<Rightarrow> (Pruner \<times> 'w) outcome" where
  "prune_ticks conv d [] p w = Returns (p, w)"
| "prune_ticks conv d (Stopping # evs) p w = Returns (p, w)"
| "prune_ticks conv d (Ticked srt io now # evs) p w = (case timedCycle (runPrune srt io now conv d) p w of
     Panics \<Rightarrow> Panics | Returns (p, w, _, _) \<Rightarrow> prune_ticks conv d evs p w)"

definition pruneLoop ::
  "int \<Rightarrow> blockRanges option \<Rightarrow> 'w prunerDB \<Rightarrow> loop_event list \<Rightarrow> Pruner \<Rightarrow> 'w \<Rightarrow> (Pruner \<times> 'w) outcome" where
  "pruneLoop now conv d evs p w = (case timedCycle (\<lambda>p w. Returns (startupCleanup now conv d p w)) p w of
     Panics \<Rightarrow> Panics | Returns (p, w, _, _) \<Rightarrow> prune_ticks conv d evs p w)"

text \<open>\<open>Start\<close> reports whether it started the loop; the channel is made once, in \<open>NewPruner\<close>.\<close>

definition Start :: "bool \<Rightarrow> Pruner \<Rightarrow> Pruner \<times> bool" where
  "Start hasNode p = (if \<not> pc_Enabled (pr_cfg p) then (p, False) else if \<not> hasNode then (p, False)
     else if isRunning p then (p, False) else (p\<lparr>isRunning := True\<rparr>, True))"

text \<open>Closing a closed channel panics.\<close>

definition Stop :: "io_failures \<Rightarrow> Pruner \<Rightarrow> Pruner outcome" where
  "Stop io p = (if \<not> isRunning p then Returns p
     else if stopChanClosed p then Panics
     else let p = p\<lparr>stopChanClosed := True\<rparr>;
              p = (case pr_queue p of None \<Rightarrow> p | Some q \<Rightarrow> p\<lparr>queueFiles := fst (Save io (queueFiles p) q)\<rparr>)
          in Returns (p\<lparr>isRunning := False\<rparr>))"

end
