(* ===== verification/Pruner_Props.thy ===== *)
theory Pruner_Props
  imports Pruner
begin

text \<open>
  What the pruner removes and what it keeps: purges against a database that answers as documented, the
  contract of the converter and its EVM instance, and the properties of a cycle and of a sequence of cycles.
\<close>

section \<open>The database\<close>

text \<open>The visible documents are \<open>vis w\<close>. A query fails or answers from them; a purge removes at most
  the documents it names and, when it succeeds, all of them; the errors of the database are not the
  sentinels of this package.\<close>

definition in_heights :: "string \<Rightarrow> height \<Rightarrow> height \<Rightarrow> stored_doc list \<Rightarrow> stored_doc list" where
  "in_heights c a b ds = filter (\<lambda>s. sd_col s = c \<and> a \<le> sd_num s \<and> sd_num s \<le> b) ds"

definition serves_range :: "exec_request \<Rightarrow> stored_doc list \<Rightarrow> string \<Rightarrow> string \<Rightarrow> bool" where
  "serves_range exec ds c field \<longleftrightarrow> (\<forall>a b. gql_Errors (exec (range_query c field a b)) \<noteq> []
     \<or> exec (range_query c field a b) = \<lparr>gql_Errors = [],
         gql_Data = AMap [c \<mapsto> AMaps (map (\<lambda>s. [''_docID'' \<mapsto> AString (sd_id s)]) (in_heights c a b ds))]\<rparr>)"

definition block_rows :: "string \<Rightarrow> stored_doc list \<Rightarrow> (docID \<times> int) list" where
  "block_rows c ds = sort_key snd (map (\<lambda>s. (sd_id s, sd_num s)) (filter (\<lambda>s. sd_col s = c \<and> 0 \<le> sd_num s) ds))"

definition serves_numbers :: "exec_request \<Rightarrow> stored_doc list \<Rightarrow> string \<Rightarrow> bool" where
  "serves_numbers exec ds c \<longleftrightarrow> (\<forall>n > 0.
     (gql_Errors (exec (number_query c ''ASC'' n)) \<noteq> [] \<or> exec (number_query c ''ASC'' n) =
        \<lparr>gql_Errors = [], gql_Data = AMap [c \<mapsto> AMaps (map number_row (take (nat n) (block_rows c ds)))]\<rparr>)
   \<and> (gql_Errors (exec (number_query c ''DESC'' n)) \<noteq> [] \<or> exec (number_query c ''DESC'' n) =
        \<lparr>gql_Errors = [], gql_Data = AMap [c \<mapsto> AMaps (map number_row (take (nat n) (rev (block_rows c ds))))]\<rparr>))"

definition named :: "string \<Rightarrow> docID set \<Rightarrow> stored_doc list \<Rightarrow> stored_doc set" where
  "named c ids ds = {s \<in> set ds. sd_col s = c \<and> sd_id s \<in> ids}"

definition foreign :: "goerror option \<Rightarrow> bool" where
  "foreign e \<longleftrightarrow> (case e of None \<Rightarrow> True | Some x \<Rightarrow> \<not> errors_Is x ErrNoValidBlocks)"

definition purge_laws :: "'w prunerDB \<Rightarrow> ('w \<Rightarrow> stored_doc list) \<Rightarrow> bool" where
  "purge_laws d vis \<longleftrightarrow> (\<forall>w c. foreign (pr_GetCollection d w c)) \<and> (\<forall>w c ids hist.
     foreign (snd (PurgeByDocIDs d w c ids hist))
     \<and> (\<exists>D \<subseteq> named c (set ids) (vis w). vis (fst (PurgeByDocIDs d w c ids hist)) = filter (\<lambda>s. s \<notin> D) (vis w)
         \<and> (snd (PurgeByDocIDs d w c ids hist) = None \<longrightarrow> D = named c (set ids) (vis w))))"

definition query_laws :: "'w prunerDB \<Rightarrow> ('w \<Rightarrow> stored_doc list) \<Rightarrow> string \<Rightarrow> (string \<times> string) list \<Rightarrow> bool" where
  "query_laws d vis blockCol queries \<longleftrightarrow> (\<forall>w. serves_numbers (pr_Exec d w) (vis w) blockCol
     \<and> (\<forall>(c, field) \<in> set queries. serves_range (pr_Exec d w) (vis w) c field)
     \<and> (\<forall>s \<in> set (vis w). 0 \<le> sd_num s) \<and> inj_on (\<lambda>s. (sd_col s, sd_id s)) (set (vis w)))"

lemma purge_lawsD:
  assumes "purge_laws d vis" "PurgeByDocIDs d w c ids hist = (w', e)"
  obtains D where "D \<subseteq> named c (set ids) (vis w)" "vis w' = filter (\<lambda>s. s \<notin> D) (vis w)"
    "e = None \<longrightarrow> D = named c (set ids) (vis w)" "foreign e"
proof -
  have "foreign (snd (PurgeByDocIDs d w c ids hist))
     \<and> (\<exists>D \<subseteq> named c (set ids) (vis w). vis (fst (PurgeByDocIDs d w c ids hist)) = filter (\<lambda>s. s \<notin> D) (vis w)
         \<and> (snd (PurgeByDocIDs d w c ids hist) = None \<longrightarrow> D = named c (set ids) (vis w)))"
    using assms(1) unfolding purge_laws_def by blast
  then show thesis unfolding assms(2) fst_conv snd_conv by (elim conjE exE) (rule that)
qed

lemma query_lawsD:
  assumes "query_laws d vis blockCol queries"
  shows "serves_numbers (pr_Exec d w) (vis w) blockCol" "\<forall>(c, field) \<in> set queries. serves_range (pr_Exec d w) (vis w) c field"
    "\<forall>s \<in> set (vis w). 0 \<le> sd_num s" "inj_on (\<lambda>s. (sd_col s, sd_id s)) (set (vis w))"
  using assms [unfolded query_laws_def, THEN spec, of w] by simp_all

section \<open>Purging\<close>

text \<open>The documents a map of docIDs by collection names.\<close>

definition target :: "(string \<Rightarrow> docID list option) \<Rightarrow> stored_doc list \<Rightarrow> stored_doc set" where
  "target m ds = {s \<in> set ds. sd_id s \<in> set (ids_at m (sd_col s))}"

lemma purgeByDocIDs_removes:
  assumes "purge_laws d vis" "purgeByDocIDs d hist c ids w = (w', n, e)"
  obtains D where "D \<subseteq> named c (set ids) (vis w)" "vis w' = filter (\<lambda>s. s \<notin> D) (vis w)"
    "e = None \<longrightarrow> D = named c (set ids) (vis w) \<and> n = int (length ids)" "foreign e"
proof (cases "ids = []")
  case True
  then show thesis using assms(2) by (intro that [of "{}"]) (auto simp: purgeByDocIDs_def named_def foreign_def)
next
  case False
  show thesis
  proof (cases "pr_GetCollection d w c")
    case (Some x)
    have "foreign (Some x)" using assms(1) unfolding purge_laws_def Some [symmetric] by blast
    then show thesis using assms(2) False Some by (intro that [of "{}"]) (auto simp: purgeByDocIDs_def foreign_def)
  next
    case None
    let ?ids = "filter (\<lambda>i. NewDocIDFromString d i = None) ids"
    obtain w1 e1 where pur: "PurgeByDocIDs d w c ?ids hist = (w1, e1)" by fastforce
    obtain D where D: "D \<subseteq> named c (set ?ids) (vis w)" "vis w1 = filter (\<lambda>s. s \<notin> D) (vis w)"
      "e1 = None \<longrightarrow> D = named c (set ?ids) (vis w)" "foreign e1" by (rule purge_lawsD [OF assms(1) pur])
    have w': "w' = w1" and res: "e1 = None \<longrightarrow> n = int (length ?ids)" "foreign e"
      and valid: "e = None \<longrightarrow> e1 = None \<and> filter (\<lambda>i. NewDocIDFromString d i \<noteq> None) ids = []"
      using assms(2) False None pur D(4) by (auto simp: purgeByDocIDs_def Let_def foreign_def split: option.splits if_splits)
    have all: "?ids = ids" if "e = None" using valid that by (auto simp: filter_empty_conv filter_id_conv)
    show thesis
    proof (rule that)
      show "D \<subseteq> named c (set ids) (vis w)" using D(1) by (auto simp: named_def)
      show "vis w' = filter (\<lambda>s. s \<notin> D) (vis w)" using D(2) w' by simp
      show "e = None \<longrightarrow> D = named c (set ids) (vis w) \<and> n = int (length ids)" using all D(3) res valid by metis
      show "foreign e" by (rule res)
    qed
  qed
qed

lemma filter_filter_not: "filter (\<lambda>s. s \<notin> E) (filter (\<lambda>s. s \<notin> D) xs) = filter (\<lambda>s. s \<notin> D \<union> E) xs"
  by (auto intro: filter_cong)

lemma purge_each_removes:
  assumes "purge_laws d vis" "purge_each d hist m cs w n errs = (w', n', errs')"
  shows "\<exists>D. D \<subseteq> {s \<in> target m (vis w). sd_col s \<in> set cs} \<and> vis w' = filter (\<lambda>s. s \<notin> D) (vis w)
    \<and> (errs' = [] \<longrightarrow> errs = [] \<and> D = {s \<in> target m (vis w). sd_col s \<in> set cs} \<and> n' = n + (\<Sum>c \<leftarrow> cs. int (length (ids_at m c))))
    \<and> ((\<forall>x \<in> set errs. foreign (Some x)) \<longrightarrow> (\<forall>x \<in> set errs'. foreign (Some x)))"
  using assms(2)
proof (induction cs arbitrary: w n errs)
  case Nil
  then show ?case by (intro exI [of _ "{}"]) auto
next
  case (Cons c cs)
  obtain w1 k e where p: "purgeByDocIDs d hist c (ids_at m c) w = (w1, k, e)" by (metis surj_pair)
  define errs1 where "errs1 = errs @ (case e of None \<Rightarrow> [] | Some x \<Rightarrow> [Wrapped (''purge '' @ c @ '': '') x []])"
  have skip: "ids_at m c = [] \<Longrightarrow> w1 = w \<and> k = 0 \<and> e = None" using p by (auto simp: purgeByDocIDs_def)
  have run: "purge_each d hist m cs w1 (n + k) errs1 = (w', n', errs')"
    using Cons.prems p skip by (auto simp: errs1_def split: if_splits option.splits)
  obtain D where D: "D \<subseteq> named c (set (ids_at m c)) (vis w)" "vis w1 = filter (\<lambda>s. s \<notin> D) (vis w)"
    "e = None \<longrightarrow> D = named c (set (ids_at m c)) (vis w) \<and> k = int (length (ids_at m c))" "foreign e"
    by (rule purgeByDocIDs_removes [OF assms(1) p])
  obtain E where E: "E \<subseteq> {s \<in> target m (vis w1). sd_col s \<in> set cs}" "vis w' = filter (\<lambda>s. s \<notin> E) (vis w1)"
    "errs' = [] \<longrightarrow> errs1 = [] \<and> E = {s \<in> target m (vis w1). sd_col s \<in> set cs} \<and> n' = n + k + (\<Sum>c \<leftarrow> cs. int (length (ids_at m c)))"
    "(\<forall>x \<in> set errs1. foreign (Some x)) \<longrightarrow> (\<forall>x \<in> set errs'. foreign (Some x))"
    using Cons.IH [OF run] by (elim exE conjE) (rule that)
  have sub: "D \<union> E \<subseteq> {s \<in> target m (vis w). sd_col s \<in> set (c # cs)}"
    using D(1,2) E(1) by (auto simp: named_def target_def)
  have ok: "errs = [] \<and> D \<union> E = {s \<in> target m (vis w). sd_col s \<in> set (c # cs)} \<and> n' = n + (\<Sum>c \<leftarrow> c # cs. int (length (ids_at m c)))"
    if "errs' = []"
  proof -
    have e: "errs1 = []" "E = {s \<in> target m (vis w1). sd_col s \<in> set cs}" "n' = n + k + (\<Sum>c \<leftarrow> cs. int (length (ids_at m c)))"
      using E(3) that by auto
    have "e = None" "errs = []" using e(1) by (auto simp: errs1_def split: option.splits)
    with D(3) have "D = named c (set (ids_at m c)) (vis w)" "k = int (length (ids_at m c))" by auto
    with e D(2) \<open>errs = []\<close> show ?thesis by (auto simp: named_def target_def)
  qed
  have frn: "(\<forall>x \<in> set errs. foreign (Some x)) \<longrightarrow> (\<forall>x \<in> set errs'. foreign (Some x))"
    using E(4) D(4) by (auto simp: errs1_def foreign_def split: option.splits)
  show ?case using sub ok frn E(2) D(2) by (intro exI [of _ "D \<union> E"]) (simp add: filter_filter_not)
qed

lemma errors_Join_None [simp]: "errors_Join es = None \<longleftrightarrow> es = []"
  by (cases es) auto

lemma errors_Join_foreign: "errors_Join es = Some e \<Longrightarrow> \<forall>x \<in> set es. foreign (Some x) \<Longrightarrow> foreign (Some e)"
  by (induction es arbitrary: e) (auto simp: foreign_def split: option.splits)

lemma ids_at_dom: "i \<in> set (ids_at m c) \<Longrightarrow> c \<in> dom m"
  by (cases "m c") (auto simp: ids_at_def)

lemma purge_removes:
  assumes "purge_laws d vis" "finite (dom m)" "purgeByDocIDsByCollection d hist m w = (w', n, e)"
  obtains D where "D \<subseteq> target m (vis w)" "vis w' = filter (\<lambda>s. s \<notin> D) (vis w)" "e = None \<longrightarrow> D = target m (vis w)" "foreign e"
proof -
  let ?cs = "sorted_list_of_set (dom m)"
  obtain errs where run: "purge_each d hist m ?cs w 0 [] = (w', n, errs)"
    and e: "e = map_option (\<lambda>y. Wrapped ''collection purge errors: '' y []) (errors_Join errs)"
    using assms(3) by (cases "purge_each d hist m ?cs w 0 []") (auto simp: purgeByDocIDsByCollection_def map_option_case)
  have cols: "{s \<in> target m (vis w). sd_col s \<in> set ?cs} = target m (vis w)"
    using assms(2) ids_at_dom by (fastforce simp: target_def)
  obtain D where D: "D \<subseteq> target m (vis w)" "vis w' = filter (\<lambda>s. s \<notin> D) (vis w)" "errs = [] \<longrightarrow> D = target m (vis w)"
    "\<forall>x \<in> set errs. foreign (Some x)"
    using purge_each_removes [OF assms(1) run] unfolding cols by auto
  have "foreign e" using errors_Join_foreign [OF _ D(4)] by (cases "errors_Join errs") (simp_all add: e foreign_def)
  with D e show thesis by (intro that) auto
qed

section \<open>The contract of the converter\<close>

definition heights :: "string \<Rightarrow> stored_doc list \<Rightarrow> height set" where
  "heights c ds = sd_num ` {s \<in> set ds. sd_col s = c}"

lemma heights_list: "heights c ds = set (map sd_num (filter (\<lambda>s. sd_col s = c) ds))"
  by (auto simp: heights_def)

text \<open>The documents of a chain more than \<open>keep\<close> heights below its highest block.\<close>

definition expired :: "string set \<Rightarrow> string \<Rightarrow> int \<Rightarrow> stored_doc list \<Rightarrow> stored_doc set" where
  "expired names blockCol keep ds = {s \<in> set ds. sd_col s \<in> names \<and> heights blockCol ds \<noteq> {}
     \<and> Min (heights blockCol ds) \<le> sd_num s \<and> sd_num s + keep \<le> Max (heights blockCol ds)}"

locale pruned_chain =
  fixes conv :: blockRanges and blockCol :: string and queries :: "(string \<times> string) list"
  assumes block_listed: "blockCol \<in> fst ` set queries"
    and lowest_is: "LowestStored conv exec = Inr n \<Longrightarrow> serves_numbers exec ds blockCol \<Longrightarrow> \<forall>s \<in> set ds. 0 \<le> sd_num s \<Longrightarrow>
      heights blockCol ds \<noteq> {} \<and> n = Min (heights blockCol ds)"
    and highest_is: "HighestStored conv exec = Inr n \<Longrightarrow> serves_numbers exec ds blockCol \<Longrightarrow> \<forall>s \<in> set ds. 0 \<le> sd_num s \<Longrightarrow>
      heights blockCol ds \<noteq> {} \<and> n = Max (heights blockCol ds)"
    and range_is: "DocIDsByRange conv exec a b = Inr m \<Longrightarrow> \<forall>(c, f) \<in> set queries. serves_range exec ds c f \<Longrightarrow>
      set (ids_at (map_of m) c) = (if c \<in> fst ` set queries then sd_id ` set (in_heights c a b ds) else {})"
begin

lemma block_range:
  assumes "query_laws d vis blockCol queries" "getBlockRange (Some conv) (pr_Exec d w) = Inr (lo, hi)"
  shows "heights blockCol (vis w) \<noteq> {}" "lo = Min (heights blockCol (vis w))" "hi = Max (heights blockCol (vis w))"
proof -
  note L = query_lawsD(1,3) [OF assms(1), of w]
  have "LowestStored conv (pr_Exec d w) = Inr lo" "HighestStored conv (pr_Exec d w) = Inr hi"
    using assms(2) by (auto simp: getBlockRange_def split: sum.splits)
  from lowest_is [OF this(1) L] highest_is [OF this(2) L]
  show "heights blockCol (vis w) \<noteq> {}" "lo = Min (heights blockCol (vis w))" "hi = Max (heights blockCol (vis w))" by auto
qed

lemma range_target:
  assumes "query_laws d vis blockCol queries" "DocIDsByRange conv (pr_Exec d w) a b = Inr m"
  shows "target (map_of m) (vis w) = {s \<in> set (vis w). sd_col s \<in> fst ` set queries \<and> a \<le> sd_num s \<and> sd_num s \<le> b}"
proof -
  note L = query_lawsD(2,4) [OF assms(1), of w]
  have same: "s = t" if "s \<in> set (vis w)" "t \<in> set (vis w)" "sd_col t = sd_col s" "sd_id s = sd_id t" for s t
    using inj_onD [OF L(2), of s t] that by simp
  have "sd_id s \<in> sd_id ` set (in_heights (sd_col s) a b (vis w)) \<longleftrightarrow> a \<le> sd_num s \<and> sd_num s \<le> b" if "s \<in> set (vis w)" for s
  proof
    assume "sd_id s \<in> sd_id ` set (in_heights (sd_col s) a b (vis w))"
    then obtain t where "sd_id s = sd_id t" "t \<in> set (vis w)" "sd_col t = sd_col s" "a \<le> sd_num t" "sd_num t \<le> b"
      by (auto simp: in_heights_def)
    with same [OF that] show "a \<le> sd_num s \<and> sd_num s \<le> b" by metis
  qed (use that in \<open>auto simp: in_heights_def\<close>)
  then show ?thesis unfolding target_def range_is [OF assms(2) L(1)] by auto
qed

lemma filter_prune_window:
  assumes "purge_laws d vis" "query_laws d vis blockCol queries" "filterBasedPrune now (Some conv) d p w = (p', w', r)"
  shows "\<exists>D. D \<subseteq> expired (fst ` set queries) blockCol (MaxBlocks (pr_cfg p)) (vis w) \<and> vis w' = filter (\<lambda>s. s \<notin> D) (vis w)
    \<and> (r = None \<and> (\<exists>x. getBlockRange (Some conv) (pr_Exec d w) = Inr x) \<longrightarrow>
        D = expired (fst ` set queries) blockCol (MaxBlocks (pr_cfg p)) (vis w))"
proof (cases "getBlockRange (Some conv) (pr_Exec d w)")
  case (Inl e)
  then show ?thesis using assms(3) by (intro exI [of _ "{}"]) (auto simp: filterBasedPrune_def)
next
  case (Inr x)
  obtain lo hi where x: "x = (lo, hi)" by fastforce
  note R = block_range [OF assms(2) Inr [unfolded x]]
  let ?k = "MaxBlocks (pr_cfg p)"
  show ?thesis
  proof (cases "hi - lo + 1 \<le> ?k")
    case True
    then have "expired (fst ` set queries) blockCol ?k (vis w) = {}" using R(2,3) by (auto simp: expired_def)
    with True assms(3) Inr x show ?thesis by (intro exI [of _ "{}"]) (auto simp: filterBasedPrune_def)
  next
    case False
    obtain w1 n e where run: "pruneBlockRange (Some conv) d (PruneHistory (pr_cfg p)) lo (hi - ?k) w = (w1, n, e)" by (metis surj_pair)
    have out: "w' = w1" "r = e"
      using assms(3) Inr x False run by (auto simp: filterBasedPrune_def Let_def algebra_simps split: option.splits)
    show ?thesis
    proof (cases "DocIDsByRange conv (pr_Exec d w) lo (hi - ?k)")
      case (Inl y)
      then show ?thesis using run out by (intro exI [of _ "{}"]) (auto simp: pruneBlockRange_def)
    next
      case (Inr m)
      have fin: "finite (dom (map_of m))" by (rule finite_dom_map_of)
      have purge: "purgeByDocIDsByCollection d (PruneHistory (pr_cfg p)) (map_of m) w = (w1, n, e)"
        using run Inr by (simp add: pruneBlockRange_def)
      have T: "target (map_of m) (vis w) = expired (fst ` set queries) blockCol ?k (vis w)"
        unfolding range_target [OF assms(2) Inr] using R by (auto simp: expired_def)
      obtain D where "D \<subseteq> target (map_of m) (vis w)" "vis w1 = filter (\<lambda>s. s \<notin> D) (vis w)" "e = None \<longrightarrow> D = target (map_of m) (vis w)"
        by (rule purge_removes [OF assms(1) fin purge])
      then show ?thesis unfolding T using out by (intro exI [of _ D]) simp
    qed
  qed
qed

end

lemma cleanup_same:
  assumes "startupCleanup now conv d p w = (p', w', r)"
  obtains r' where "filterBasedPrune now conv d p w = (p', w', r')" "r' = None \<longleftrightarrow> r = None"
  using assms by (auto simp: startupCleanup_def filterBasedPrune_def Let_def split: sum.splits if_splits prod.splits option.splits)

section \<open>The EVM converter meets the contract\<close>

lemma queryBlockNumber_hd:
  assumes "queryBlockNumber fmtv fmtgo now exec c order opName n = Inr k"
    and "gql_Errors (exec (number_query (Block (collections c)) order n)) \<noteq> [] \<or> exec (number_query (Block (collections c)) order n) =
      \<lparr>gql_Errors = [], gql_Data = AMap [Block (collections c) \<mapsto> AMaps (map number_row rows)]\<rparr>"
  obtains p ps where "rows = p # ps" "k = snd p"
proof -
  have ok: "exec (number_query (Block (collections c)) order n) =
      \<lparr>gql_Errors = [], gql_Data = AMap [Block (collections c) \<mapsto> AMaps (map number_row rows)]\<rparr>"
    using assms by (auto simp: queryBlockNumber_def Let_def split: list.splits)
  show thesis
  proof (cases rows)
    case Nil
    then show ?thesis using assms(1) ok
      by (auto simp: queryBlockNumber_def Let_def mget_def split: sum.splits if_splits)
  next
    case (Cons p ps)
    have "queryBlockNumber fmtv fmtgo now exec c order opName n = Inr (snd p)" using ok Cons by (intro query_nonempty) simp
    then show ?thesis using Cons assms(1) that by simp
  qed
qed

lemma take_hd: "take (nat n) rows = p # ps \<Longrightarrow> \<exists>qs. rows = p # qs"
  by (cases rows; cases "nat n") auto

lemma block_rows_bounds:
  assumes "\<forall>s \<in> set ds. 0 \<le> sd_num s"
  shows "block_rows c ds = p # ps \<Longrightarrow> heights c ds \<noteq> {} \<and> snd p = Min (heights c ds)"
    and "rev (block_rows c ds) = p # ps \<Longrightarrow> heights c ds \<noteq> {} \<and> snd p = Max (heights c ds)"
proof -
  let ?xs = "map (\<lambda>s. (sd_id s, sd_num s)) (filter (\<lambda>s. sd_col s = c \<and> 0 \<le> sd_num s) ds)"
  have H: "snd ` set ?xs = heights c ds" using assms by (force simp: heights_def)
  have ne: "block_rows c ds \<noteq> [] \<Longrightarrow> ?xs \<noteq> []" by (auto simp: block_rows_def)
  show "heights c ds \<noteq> {} \<and> snd p = Min (heights c ds)" if r: "block_rows c ds = p # ps"
  proof -
    have xs: "?xs \<noteq> []" using ne r by simp
    from sort_key_hd_Min [OF xs, of snd] r H have "snd p = Min (heights c ds)" unfolding block_rows_def by auto
    moreover have "heights c ds \<noteq> {}" unfolding H [symmetric] image_is_empty set_empty by (rule xs)
    ultimately show ?thesis by simp
  qed
  show "heights c ds \<noteq> {} \<and> snd p = Max (heights c ds)" if r: "rev (block_rows c ds) = p # ps"
  proof -
    have xs: "?xs \<noteq> []" using ne r by auto
    from sort_key_last_Max [OF xs, of snd] r H have "snd p = Max (heights c ds)" unfolding block_rows_def by auto
    moreover have "heights c ds \<noteq> {}" unfolding H [symmetric] image_is_empty set_empty by (rule xs)
    ultimately show ?thesis by simp
  qed
qed

lemma in_heights_split:
  "a \<le> m + 1 \<Longrightarrow> m \<le> b \<Longrightarrow> set (in_heights c a b ds) = set (in_heights c a m ds) \<union> set (in_heights c (m + 1) b ds)"
  by (auto simp: in_heights_def)

lemma query_chunks_sound:
  "serves_range exec ds c f \<Longrightarrow> query_chunks exec c f a to acc = Inr r \<Longrightarrow> set r = set acc \<union> sd_id ` set (in_heights c a to ds)"
proof (induction exec c f a to acc rule: query_chunks.induct)
  case (1 exec c f a to acc)
  show ?case
  proof (cases "a > to")
    case True
    then have "in_heights c a to ds = []" by (auto simp: in_heights_def filter_empty_conv)
    then show ?thesis using 1(3) True by (simp add: query_chunks.simps [of exec c f a])
  next
    case False
    define b where "b = min (a + 100 - 1) to"
    let ?res = "exec (range_query c f a b)"
    have unf: "query_chunks exec c f a to acc = (case gql_Errors ?res of
        e # _ \<Rightarrow> Inl (Wrapped (''query '' @ c @ '' ['' @ itoa a @ ''-'' @ itoa b @ '']: '') e [])
      | [] \<Rightarrow> query_chunks exec c f (a + 100) to (acc @ (case as_map (gql_Data ?res) of None \<Rightarrow> []
          | Some data \<Rightarrow> (case rows_of (mget data c) of None \<Rightarrow> [] | Some rows \<Rightarrow> row_docIDs rows))))"
      unfolding b_def by (subst query_chunks.simps) (simp only: False if_False Let_def)
    have "gql_Errors ?res = []" using 1(3) by (auto simp: unf split: list.splits)
    then have res: "?res = \<lparr>gql_Errors = [],
        gql_Data = AMap [c \<mapsto> AMaps (map (\<lambda>s. [''_docID'' \<mapsto> AString (sd_id s)]) (in_heights c a b ds))]\<rparr>"
      using 1(2) unfolding serves_range_def by blast
    let ?acc = "acc @ map sd_id (in_heights c a b ds)"
    have ids: "row_docIDs (map (AMap \<circ> (\<lambda>s. [''_docID'' \<mapsto> AString (sd_id s)])) (in_heights c a b ds)) = map sd_id (in_heights c a b ds)"
      using row_docIDs_maps [of "map sd_id (in_heights c a b ds)"] by (simp add: o_def)
    have nxt: "query_chunks exec c f (a + 100) to ?acc = Inr r"
      using 1(3) unfolding unf by (simp add: res mget_def ids)
    have "set r = set ?acc \<union> sd_id ` set (in_heights c (a + 100) to ds)"
      using 1(1) [OF False b_def refl] 1(2) res ids nxt by (simp add: mget_def)
    moreover have "in_heights c (a + 100) to ds = in_heights c (b + 1) to ds"
      by (auto simp: in_heights_def b_def intro!: filter_cong)
    moreover have "set (in_heights c a to ds) = set (in_heights c a b ds) \<union> set (in_heights c (b + 1) to ds)"
      using False by (intro in_heights_split) (auto simp: b_def)
    ultimately show ?thesis by auto
  qed
qed

abbreviation evm_conv where
  "evm_conv fmtv fmtgo t k \<equiv> evm_blockRanges fmtv fmtgo t (NewEvmConverter k)"

interpretation evm_pruned: pruned_chain "evm_conv fmtv fmtgo t k" "evm_block k" "evm_queries (collections (NewEvmConverter k))"
  for fmtv fmtgo t k
proof
  let ?c = "NewEvmConverter k"
  let ?q = "evm_queries (collections ?c)"
  let ?b = "evm_block k"
  show "?b \<in> fst ` set ?q" by (simp add: evm_queries_def)
  have qlim: "0 < lowestBlockQueryLimit ?c" by (auto simp: lowestBlockQueryLimit_def positive_or_def split: option.splits)
  fix exec n ds
  assume S: "serves_numbers exec ds ?b" and pos: "\<forall>s \<in> set ds. 0 \<le> sd_num s"
  show "heights ?b ds \<noteq> {} \<and> n = Min (heights ?b ds)" if "LowestStored (evm_conv fmtv fmtgo t k) exec = Inr n"
  proof -
    have q: "queryBlockNumber fmtv fmtgo t exec ?c ''ASC'' ''GetLowestStoredBlockNumber'' (lowestBlockQueryLimit ?c) = Inr n"
      using that by (simp add: evm_blockRanges_def GetLowestStoredBlockNumber_def)
    obtain p ps where p: "take (nat (lowestBlockQueryLimit ?c)) (block_rows ?b ds) = p # ps" "n = snd p"
      by (rule queryBlockNumber_hd [OF q conjunct1 [OF S [unfolded serves_numbers_def, rule_format, OF qlim]]])
    obtain qs where "block_rows ?b ds = p # qs" using take_hd [OF p(1)] ..
    from block_rows_bounds(1) [OF pos this] p(2) show ?thesis by simp
  qed
  show "heights ?b ds \<noteq> {} \<and> n = Max (heights ?b ds)" if "HighestStored (evm_conv fmtv fmtgo t k) exec = Inr n"
  proof -
    have q: "queryBlockNumber fmtv fmtgo t exec ?c ''DESC'' ''GetHighestStoredBlockNumber'' 1 = Inr n"
      using that by (simp add: evm_blockRanges_def GetHighestStoredBlockNumber_def)
    obtain p ps where p: "take (nat 1) (rev (block_rows ?b ds)) = p # ps" "n = snd p"
      by (rule queryBlockNumber_hd [OF q conjunct2 [OF S [unfolded serves_numbers_def, rule_format, OF zero_less_one]]])
    obtain qs where "rev (block_rows ?b ds) = p # qs" using take_hd [OF p(1)] ..
    from block_rows_bounds(2) [OF pos this] p(2) show ?thesis by simp
  qed
next
  let ?c = "NewEvmConverter k"
  let ?q = "evm_queries (collections ?c)"
  fix exec a b m ds col
  assume run: "DocIDsByRange (evm_conv fmtv fmtgo t k) exec a b = Inr m" and S: "\<forall>(c, f) \<in> set ?q. serves_range exec ds c f"
  have c: "collections ?c = NewCollectionNames (chainPrefixFromConfig k)" by (simp add: NewEvmConverter_def)
  have qs: "distinct (map fst ?q)" unfolding c by (simp add: evm_queries_def NewCollectionNames_def)
  have "range_collections exec a b ?q = Inr m"
    using run by (simp add: evm_blockRanges_def GetDocIDsByBlockRange_def evm_queries_def)
  note R = range_collections_ids [OF qs this]
  show "set (ids_at (map_of m) col) = (if col \<in> fst ` set ?q then sd_id ` set (in_heights col a b ds) else {})"
  proof (cases "col \<in> fst ` set ?q")
    case True
    then obtain f where f: "(col, f) \<in> set ?q" by auto
    have "queryCollectionDocIDs exec col f a b = Inr (ids_at (map_of m) col)"
      using R f unfolding ids_at_def Reorg_Roller.ids_in_def by blast
    moreover have "serves_range exec ds col f" using S f by blast
    ultimately show ?thesis using True query_chunks_sound [of exec ds col f a b "[]"] by (simp add: queryCollectionDocIDs_def)
  next
    case False
    then have "map_of m col = None" using R by (auto simp: map_of_eq_None_iff)
    then show ?thesis using False by (simp add: ids_at_def)
  qed
qed

section \<open>Cycles over the queue\<close>

lemma finite_drain_entry: "finite (dom m) \<Longrightarrow> finite (dom (drain_entry sg e m))"
proof -
  assume m: "finite (dom m)"
  have add: "finite (dom (add_ids c ids m))" if "finite (dom m)" for c ids and m :: "string \<Rightarrow> docID list option"
    using that by (simp add: add_ids_def)
  have "finite (dom (fold (\<lambda>(col, packed) m. let ids = UnpackDocIDs packed in if ids \<noteq> [] then add_ids col ids m else m) os m))" for os
    using m by (induction os arbitrary: m) (auto simp: Let_def add split: prod.splits)
  then show ?thesis using add by (simp add: drain_entry_def Let_def)
qed

lemma finite_drained:
  assumes "Drain srt keep b sg q = Returns (q', Some r)"
  shows "finite (dom (DocIDsByCollection r))"
proof -
  have fin: "finite (dom (fold (drain_entry sg) es m))" if "finite (dom m)" for es m
    using that by (induction es arbitrary: m) (auto intro: finite_drain_entry)
  have "finite (dom (DocIDsByCollection (buildDrainResult es n b sg)))" for es n
    using fin [of "\<lambda>_. None" es] by (simp add: buildDrainResult_def Let_def)
  then show ?thesis using assms by (auto simp: Drain_def Let_def split: if_splits)
qed

text \<open>The documents recorded for a list of blocks.\<close>

definition tracked_docs :: "Pruner \<Rightarrow> tracked list \<Rightarrow> stored_doc list \<Rightarrow> stored_doc set" where
  "tracked_docs p ts ds = {s \<in> set ds. sd_id s \<in> set (drained_ids (blockCollection p) (blockSigCollection p) (sd_col s) ts)}"

lemma count_pruned_simps [simp]:
  "pr_queue (count_pruned now b n p) = pr_queue p" "queueFiles (count_pruned now b n p) = queueFiles p"
  "totalBlocksPruned (count_pruned now b n p) = totalBlocksPruned p + b" "pr_cfg (count_pruned now b n p) = pr_cfg p"
  by (simp_all add: count_pruned_def)

lemma cycle_keep_bounds: "MaxBlocks c < n \<Longrightarrow> MaxBlocks c \<le> cycle_keep c n \<and> cycle_keep c n < n"
  by (simp add: cycle_keep_def)

lemma cycle_keep_max: "MaxBlocks c < n \<Longrightarrow>
    cycle_keep c n = (if 0 < MaxBlocksPerCycle c then max (MaxBlocks c) (n - MaxBlocksPerCycle c) else MaxBlocks c)"
  by (simp add: cycle_keep_def max_def)

lemma drain_result_purged:
  assumes "purge_laws d vis" "finite (dom (DocIDsByCollection r))" "purgeFromDrainResult now d r p w = (p', w', e)"
  obtains D where "D \<subseteq> target (DocIDsByCollection r) (vis w)" "vis w' = filter (\<lambda>s. s \<notin> D) (vis w)"
    "e = None \<longrightarrow> D = target (DocIDsByCollection r) (vis w)"
    "pr_queue p' = pr_queue p" "queueFiles p' = queueFiles p" "totalBlocksPruned p' = totalBlocksPruned p + BlockCount r"
proof -
  obtain w1 n x where pur: "purgeByDocIDsByCollection d (PruneHistory (pr_cfg p)) (DocIDsByCollection r) w = (w1, n, x)" by (metis surj_pair)
  obtain D where D: "D \<subseteq> target (DocIDsByCollection r) (vis w)" "vis w1 = filter (\<lambda>s. s \<notin> D) (vis w)"
    "x = None \<longrightarrow> D = target (DocIDsByCollection r) (vis w)" "foreign x" by (rule purge_removes [OF assms(1,2) pur])
  have "p' = count_pruned now (BlockCount r) n p \<and> w' = w1 \<and> e = x"
    using assms(3) D(4) by (auto simp: purgeFromDrainResult_def pur foreign_def split: option.splits)
  with D show thesis by (intro that) auto
qed

section \<open>A database that answers as documented\<close>

text \<open>Two blocks, of heights 9 and 10, with a transaction of height 9; the database answers the queries that
  pruning down to one block asks.\<close>

definition demo_old :: "stored_doc list" where
  "demo_old = [\<lparr>sd_col = Block demo_cols, sd_id = RestoreDocID (replicate 16 7), sd_num = 9, sd_hash = ''0x9''\<rparr>,
     \<lparr>sd_col = Transaction demo_cols, sd_id = RestoreDocID (replicate 16 9), sd_num = 9, sd_hash = []\<rparr>,
     \<lparr>sd_col = Block demo_cols, sd_id = RestoreDocID (replicate 16 8), sd_num = 10, sd_hash = ''0x10''\<rparr>]"

definition old_vis :: "stored_doc list \<Rightarrow> stored_doc list" where
  "old_vis ds = filter (\<lambda>s. s \<in> set demo_old) ds"

definition old_answers :: "stored_doc list \<Rightarrow> (string \<times> gql_result) list" where
  "old_answers ds = (number_query (Block demo_cols) ''ASC'' 1, ok_rows (Block demo_cols) (map number_row (take 1 (block_rows (Block demo_cols) ds))))
     # (number_query (Block demo_cols) ''DESC'' 1, ok_rows (Block demo_cols) (map number_row (take 1 (rev (block_rows (Block demo_cols) ds)))))
     # map (\<lambda>(c, f). (range_query c f 9 9, ok_rows c (map (\<lambda>s. [''_docID'' \<mapsto> AString (sd_id s)]) (in_heights c 9 9 ds))))
         (evm_queries demo_cols)"

definition demo_pruned :: "stored_doc list prunerDB" where
  "demo_pruned = \<lparr>pr_Exec = (\<lambda>ds q. case map_of (old_answers (old_vis ds)) q of Some a \<Rightarrow> a
       | None \<Rightarrow> \<lparr>gql_Errors = [ErrMsg ''unavailable''], gql_Data = ANil\<rparr>),
     pr_GetCollection = (\<lambda>_ _. None),
     PurgeByDocIDs = (\<lambda>ds c ids _. (filter (\<lambda>s. \<not> (sd_col s = c \<and> sd_id s \<in> set ids)) ds, None)),
     NewDocIDFromString = (\<lambda>_. None)\<rparr>"

definition demo_pruner :: "IndexerQueue option \<Rightarrow> Pruner" where
  "demo_pruner q = (NewPruner \<lparr>pc_Enabled = True, MaxBlocks = 1, DocsPerBlock = 1000, PruneThreshold = 0, pc_IntervalSeconds = 60,
       PruneHistory = False, MaxBlocksPerCycle = 1\<rparr> (Some (Block demo_cols, BlockSignature demo_cols)) (\<lambda>_. None))\<lparr>pr_queue := q\<rparr>"

lemma demo_purge_laws: "purge_laws demo_pruned old_vis"
proof -
  have "\<exists>D \<subseteq> named c (set ids) (old_vis w). old_vis (filter (\<lambda>s. \<not> (sd_col s = c \<and> sd_id s \<in> set ids)) w) = filter (\<lambda>s. s \<notin> D) (old_vis w)
      \<and> D = named c (set ids) (old_vis w)" for w c ids
    by (rule exI [of _ "named c (set ids) (old_vis w)"]) (auto simp: named_def old_vis_def conj_commute intro: filter_cong)
  then show ?thesis unfolding purge_laws_def by (auto simp: demo_pruned_def foreign_def)
qed

lemma RestoreDocID_inject: "length u = uuidSize \<Longrightarrow> length v = uuidSize \<Longrightarrow> RestoreDocID u = RestoreDocID v \<longleftrightarrow> u = v"
  using extract_restore by (metis sum.inject(2))

lemma number_query_eq:
  assumes "ord \<in> {''ASC'', ''DESC''}" "ord' \<in> {''ASC'', ''DESC''}"
  shows "number_query b ord n = number_query b ord' m \<longleftrightarrow> ord = ord' \<and> n = m"
    and "b \<noteq> [] \<Longrightarrow> hd b \<noteq> CHR '' '' \<Longrightarrow> number_query b ord n \<noteq> range_query c f a a'"
proof -
  note sep = append_sep_inject
  show "number_query b ord n = number_query b ord' m \<longleftrightarrow> ord = ord' \<and> n = m"
  proof
    assume "number_query b ord n = number_query b ord' m"
    then have "ord @ CHR ''}'' # '', limit: '' @ itoa n @ CHR '')'' # '' { number _docID }}''
      = ord' @ CHR ''}'' # '', limit: '' @ itoa m @ CHR '')'' # '' { number _docID }}''" by (simp add: number_query_def)
    from sep [OF _ _ this] assms have o: "ord = ord'"
      and nm: "itoa n @ CHR '')'' # '' { number _docID }}'' = itoa m @ CHR '')'' # '' { number _docID }}''" by auto
    from sep [OF _ _ nm] o show "ord = ord' \<and> n = m" using itoa_no_sep by auto
  qed simp
  show "number_query b ord n \<noteq> range_query c f a a'" if "b \<noteq> []" "hd b \<noteq> CHR '' ''"
    using that by (cases b) (auto simp: number_query_def range_query_def)
qed

lemma old_exec:
  "0 < n \<Longrightarrow> map_of (old_answers ds) (number_query (Block demo_cols) ''ASC'' n) =
     (if n = 1 then Some (ok_rows (Block demo_cols) (map number_row (take 1 (block_rows (Block demo_cols) ds)))) else None)"
  "0 < n \<Longrightarrow> map_of (old_answers ds) (number_query (Block demo_cols) ''DESC'' n) =
     (if n = 1 then Some (ok_rows (Block demo_cols) (map number_row (take 1 (rev (block_rows (Block demo_cols) ds))))) else None)"
  "(c, f) \<in> set (evm_queries demo_cols) \<Longrightarrow> map_of (old_answers ds) (range_query c f a b) =
     (if a = 9 \<and> b = 9 then Some (ok_rows c (map (\<lambda>s. [''_docID'' \<mapsto> AString (sd_id s)]) (in_heights c 9 9 ds))) else None)"
proof -
  let ?b = "Block demo_cols"
  have hd: "?b \<noteq> []" "hd ?b \<noteq> CHR '' ''" by simp_all
  let ?r = "map (\<lambda>(c, f). (range_query c f 9 9, ok_rows c (map (\<lambda>s. [''_docID'' \<mapsto> AString (sd_id s)]) (in_heights c 9 9 ds)))) (evm_queries demo_cols)"
  have ne: "number_query ?b ord n \<noteq> range_query c f a b" if "ord \<in> {''ASC'', ''DESC''}" for ord n c f a b
    by (rule number_query_eq(2) [OF that that hd])
  have none: "map_of ?r (number_query ?b ord n) = None" if "ord \<in> {''ASC'', ''DESC''}" for ord n
    using ne [OF that] by (force simp: map_of_eq_None_iff)
  note eq = number_query_eq(1) [of "''ASC''" "''ASC''" ?b n 1] number_query_eq(1) [of "''DESC''" "''DESC''" ?b n 1]
    number_query_eq(1) [of "''DESC''" "''ASC''" ?b n 1] number_query_eq(1) [of "''ASC''" "''DESC''" ?b n 1]
  show "map_of (old_answers ds) (number_query ?b ''ASC'' n) =
     (if n = 1 then Some (ok_rows ?b (map number_row (take 1 (block_rows ?b ds)))) else None)"
    using eq none [of "''ASC''"] unfolding old_answers_def by (simp del: demo_cols_simps)
  show "map_of (old_answers ds) (number_query ?b ''DESC'' n) =
     (if n = 1 then Some (ok_rows ?b (map number_row (take 1 (rev (block_rows ?b ds))))) else None)"
    using eq none [of "''DESC''"] unfolding old_answers_def by (simp del: demo_cols_simps)
  show "map_of (old_answers ds) (range_query c f a b) =
     (if a = 9 \<and> b = 9 then Some (ok_rows c (map (\<lambda>s. [''_docID'' \<mapsto> AString (sd_id s)]) (in_heights c 9 9 ds))) else None)"
    if cf: "(c, f) \<in> set (evm_queries demo_cols)"
  proof -
    have "distinct (map fst (evm_queries demo_cols))" by (simp add: evm_queries_def)
    moreover have "\<forall>(c, f) \<in> set (evm_queries demo_cols). gql_name c \<and> gql_name f" using demo_gql_names(1) by blast
    ultimately have "map_of ?r (range_query c f a b)
        = (if a = 9 \<and> b = 9 then Some (ok_rows c (map (\<lambda>s. [''_docID'' \<mapsto> AString (sd_id s)]) (in_heights c 9 9 ds))) else None)"
      using map_of_queries [OF _ _ cf, of 9 9 "\<lambda>c. ok_rows c (map (\<lambda>s. [''_docID'' \<mapsto> AString (sd_id s)]) (in_heights c 9 9 ds))" a b] by simp
    then show ?thesis using ne [of "''ASC''" 1 c f a b] ne [of "''DESC''" 1 c f a b] unfolding old_answers_def by (simp del: demo_cols_simps)
  qed
qed

lemma demo_query_laws: "query_laws demo_pruned old_vis (Block demo_cols) (evm_queries demo_cols)"
proof -
  have "inj_on (\<lambda>s. (sd_col s, sd_id s)) (set demo_old)" by (simp add: demo_old_def RestoreDocID_inject replicate_eq_replicate)
  then have inj: "inj_on (\<lambda>s. (sd_col s, sd_id s)) (set (old_vis ds))" for ds
    by (rule inj_on_subset) (auto simp: old_vis_def)
  have "serves_numbers (pr_Exec demo_pruned ds) (old_vis ds) (Block demo_cols)" for ds
    unfolding serves_numbers_def by (auto simp: demo_pruned_def old_exec ok_rows_def simp del: demo_cols_simps)
  moreover have "serves_range (pr_Exec demo_pruned ds) (old_vis ds) c f" if "(c, f) \<in> set (evm_queries demo_cols)" for ds c f
    unfolding serves_range_def by (auto simp: demo_pruned_def old_exec(3) [OF that] ok_rows_def simp del: demo_cols_simps)
  moreover have "\<forall>s \<in> set (old_vis ds). 0 \<le> sd_num s" for ds by (auto simp: old_vis_def demo_old_def)
  ultimately show ?thesis unfolding query_laws_def using inj by blast
qed

section \<open>Properties\<close>

text \<open>C18: a prune cycle over the queue removes the oldest blocks and nothing else. With more than
  \<open>max_blocks\<close> blocks queued, a cycle never panics and leaves the newest \<open>max_blocks\<close> of them, or more
  when \<open>max_blocks_per_cycle\<close> caps the cycle. It removes only documents recorded for the blocks taken out,
  and all of them when it reports no error. The file then holds what saving the remaining queue leaves.\<close>

theorem queue_cycle:
  assumes "purge_laws d vis" "sorts_by entryNumber srt" "pr_queue p = Some q" "queue_ok q"
    and "0 \<le> MaxBlocks (pr_cfg p)" "MaxBlocks (pr_cfg p) < Len q"
  shows "\<exists>p' w' r q' ts. runPrune srt io now conv d p w = Returns (p', w', r) \<and> pr_queue p' = Some q' \<and> queue_ok q'
    \<and> Len q' = (if 0 < MaxBlocksPerCycle (pr_cfg p) then max (MaxBlocks (pr_cfg p)) (Len q - MaxBlocksPerCycle (pr_cfg p))
        else MaxBlocks (pr_cfg p))
    \<and> mset ts + mset (contents q') = mset (contents q)
    \<and> (\<forall>a \<in> set ts. \<forall>b \<in> set (contents q'). t_number a \<le> t_number b)
    \<and> (\<exists>D \<subseteq> tracked_docs p ts (vis w). vis w' = filter (\<lambda>s. s \<notin> D) (vis w) \<and> (r = None \<longrightarrow> D = tracked_docs p ts (vis w)))
    \<and> totalBlocksPruned p' = totalBlocksPruned p + int (length ts)
    \<and> queueFiles p' = fst (Save io (queueFiles p) q')"
proof -
  let ?keep = "cycle_keep (pr_cfg p) (Len q)" and ?b = "blockCollection p" and ?s = "blockSigCollection p"
  have keep: "0 \<le> ?keep" "?keep < Len q" using cycle_keep_bounds [OF assms(6)] assms(5) by auto
  obtain q' res ts where q': "Drain srt ?keep ?b ?s q = Returns (q', Some res)" "queue_ok q'" "Len q' = ?keep"
    "mset ts + mset (contents q') = mset (contents q)" "\<forall>a \<in> set ts. \<forall>b \<in> set (contents q'). t_number a \<le> t_number b"
    "BlockCount res = int (length ts)" "\<forall>col. ids_at (DocIDsByCollection res) col = drained_ids ?b ?s col ts"
    using block_queue.drain_some [OF Drain_block_queue [OF assms(2), of ?b ?s] assms(4) keep] by (elim exE conjE) (rule that)
  have T: "target (DocIDsByCollection res) (vis w) = tracked_docs p ts (vis w)" using q'(7) by (simp add: target_def tracked_docs_def)
  obtain p1 w' r where pur: "purgeFromDrainResult now d res (p\<lparr>pr_queue := Some q'\<rparr>) w = (p1, w', r)" by (metis surj_pair)
  obtain D where D: "D \<subseteq> tracked_docs p ts (vis w)" "vis w' = filter (\<lambda>s. s \<notin> D) (vis w)" "r = None \<longrightarrow> D = tracked_docs p ts (vis w)"
    "pr_queue p1 = Some q'" "queueFiles p1 = queueFiles p" "totalBlocksPruned p1 = totalBlocksPruned p + int (length ts)"
    by (rule drain_result_purged [OF assms(1) finite_drained [OF q'(1)] pur]) (simp add: T q'(6))
  let ?p = "p1\<lparr>queueFiles := fst (Save io (queueFiles p) q')\<rparr>"
  have "runPrune srt io now conv d p w = Returns (?p, w', r)"
    using assms(3,6) q'(1) pur D(4,5) by (simp add: runPrune_def runIndexerQueuePrune_def Let_def checkpoint_def)
  moreover have "pr_queue ?p = Some q'" "totalBlocksPruned ?p = totalBlocksPruned p + int (length ts)" using D(4,6) by simp_all
  ultimately show ?thesis using q'(2-5) D(1-3) cycle_keep_max [OF assms(6)]
    by (intro exI [of _ ?p] exI [of _ w'] exI [of _ r] exI [of _ q'] exI [of _ ts] conjI) auto
qed

theorem queue_cycle_witness:
  "\<exists>p' w' r q' ts. runPrune (sort_key entryNumber) no_failures 5 None demo_pruned (demo_pruner (Some demo_queue)) demo_old = Returns (p', w', r)
    \<and> pr_queue p' = Some q' \<and> Len q' = 2 \<and> mset ts + mset (contents q') = mset (contents demo_queue)
    \<and> (\<exists>D \<subseteq> tracked_docs (demo_pruner (Some demo_queue)) ts (old_vis demo_old). old_vis w' = filter (\<lambda>s. s \<notin> D) (old_vis demo_old))"
proof -
  let ?p = "demo_pruner (Some demo_queue)"
  have p: "pr_queue ?p = Some demo_queue" "0 \<le> MaxBlocks (pr_cfg ?p)" "MaxBlocks (pr_cfg ?p) < Len demo_queue"
    "(if 0 < MaxBlocksPerCycle (pr_cfg ?p) then max (MaxBlocks (pr_cfg ?p)) (Len demo_queue - MaxBlocksPerCycle (pr_cfg ?p)) else MaxBlocks (pr_cfg ?p)) = 2"
    by (simp_all add: demo_pruner_def NewPruner_def demo_queue_ok)
  from queue_cycle [OF demo_purge_laws sorts_by_sort_key p(1) demo_queue_ok(1) p(2,3), of no_failures 5 None demo_old, unfolded p(4)]
  show ?thesis by (elim exE conjE) (intro exI conjI, assumption+)
qed


lemma demo_purge_each: "purge_each demo_pruned hist m cs ds n [] = (w', n', errs) \<Longrightarrow> errs = []"
proof (induction cs arbitrary: ds n)
  case (Cons c cs)
  obtain w1 k e where p: "purgeByDocIDs demo_pruned hist c (ids_at m c) ds = (w1, k, e)" by (metis surj_pair)
  then have "e = None" by (auto simp: purgeByDocIDs_def demo_pruned_def Let_def split: if_splits)
  with p Cons show ?case by (auto split: if_splits)
qed simp

lemma demo_range_collections:
  "set qs \<subseteq> set (evm_queries demo_cols) \<Longrightarrow> \<exists>m. range_collections (pr_Exec demo_pruned ds) 9 9 qs = Inr m"
proof (induction qs)
  case (Cons q qs)
  obtain c f where q: "q = (c, f)" "(c, f) \<in> set (evm_queries demo_cols)" using Cons.prems by (cases q) auto
  have "\<exists>ids. queryCollectionDocIDs (pr_Exec demo_pruned ds) c f 9 9 = Inr ids"
    using old_exec(3) [OF q(2), of "old_vis ds" 9 9]
    by (simp add: queryCollectionDocIDs_def query_chunks.simps [of _ _ _ 9] query_chunks.simps [of _ _ _ 109] demo_pruned_def ok_rows_def Let_def)
  with Cons show ?case by (auto simp: q)
qed simp

abbreviation demo_conv :: blockRanges where
  "demo_conv \<equiv> evm_conv (\<lambda>_. []) (\<lambda>_. []) 0 None"

lemma demo_range: "getBlockRange (Some demo_conv) (pr_Exec demo_pruned demo_old) = Inr (9, 10)"
proof -
  let ?b = "Block demo_cols" and ?e = "pr_Exec demo_pruned demo_old"
  have vis: "old_vis demo_old = demo_old" by (auto simp: old_vis_def filter_id_conv)
  have rows: "block_rows ?b demo_old = [(RestoreDocID (replicate 16 7), 9), (RestoreDocID (replicate 16 8), 10)]"
    by (simp add: block_rows_def demo_old_def)
  have c: "Block (collections (NewEvmConverter None)) = ?b" by (simp add: demo_cols_def)
  have lim: "lowestBlockQueryLimit (NewEvmConverter None) = 1" by (simp add: lowestBlockQueryLimit_def positive_or_def NewEvmConverter_def)
  have e: "?e (number_query ?b ''ASC'' 1) = ok_rows ?b (map number_row [(RestoreDocID (replicate 16 7), 9)])"
    "?e (number_query ?b ''DESC'' 1) = ok_rows ?b (map number_row [(RestoreDocID (replicate 16 8), 10)])"
    using old_exec(1,2) [of 1 demo_old] by (simp_all add: demo_pruned_def vis rows del: demo_cols_simps)
  have "GetLowestStoredBlockNumber (\<lambda>_. []) (\<lambda>_. []) 0 ?e (NewEvmConverter None) = Inr (snd (RestoreDocID (replicate 16 7), 9))"
    unfolding GetLowestStoredBlockNumber_def
    by (rule query_nonempty [where ps = "[]"]) (use e(1) in \<open>simp add: c lim ok_rows_def del: demo_cols_simps\<close>)
  moreover have "GetHighestStoredBlockNumber (\<lambda>_. []) (\<lambda>_. []) 0 ?e (NewEvmConverter None) = Inr (snd (RestoreDocID (replicate 16 8), 10))"
    unfolding GetHighestStoredBlockNumber_def
    by (rule query_nonempty [where ps = "[]"]) (use e(2) in \<open>simp add: c ok_rows_def del: demo_cols_simps\<close>)
  ultimately show ?thesis by (simp add: getBlockRange_def evm_blockRanges_def)
qed


text \<open>The cycles of a run, with the blocks the indexer tracks between them.\<close>

fun prune_rounds ::
  "blockRanges option \<Rightarrow> 'w prunerDB \<Rightarrow> (tracked list \<times> loop_event) list \<Rightarrow> IndexerQueue \<Rightarrow> Pruner \<Rightarrow> 'w \<Rightarrow>
   (IndexerQueue \<times> Pruner \<times> 'w) option" where
  "prune_rounds conv d [] q p w = Some (q, p, w)"
| "prune_rounds conv d ((ts, ev) # rs) q p w = (case track_blocks ts q of Inl e \<Rightarrow> None
     | Inr q1 \<Rightarrow> (case prune_ticks conv d [ev] (SetQueue q1 p) w of Panics \<Rightarrow> None
     | Returns (p1, w1) \<Rightarrow> (case pr_queue p1 of None \<Rightarrow> None | Some q2 \<Rightarrow> prune_rounds conv d rs q2 p1 w1)))"

lemma filterBasedPrune_keeps: "filterBasedPrune now conv d p w = (p', w', r) \<Longrightarrow> pr_queue p' = pr_queue p \<and> pr_cfg p' = pr_cfg p"
  by (auto simp: filterBasedPrune_def Let_def split: sum.splits if_splits prod.splits option.splits)

lemma purgeFromDrainResult_keeps: "purgeFromDrainResult now d r p w = (p', w', e) \<Longrightarrow> pr_queue p' = pr_queue p \<and> pr_cfg p' = pr_cfg p"
  by (auto simp: purgeFromDrainResult_def split: prod.splits if_splits)

text \<open>The queue after one cycle, whatever the database does.\<close>

lemma cycle_queue:
  assumes "sorts_by entryNumber srt" "pr_queue p = Some q" "queue_ok q" "0 \<le> MaxBlocks (pr_cfg p)"
  shows "\<exists>p' w' q'. prune_ticks conv d [Ticked srt io now] p w = Returns (p', w') \<and> pr_queue p' = Some q' \<and> queue_ok q'
    \<and> pr_cfg p' = pr_cfg p \<and> Len q' = (if Len q \<le> MaxBlocks (pr_cfg p) then Len q else cycle_keep (pr_cfg p) (Len q))"
proof (cases "Len q \<le> MaxBlocks (pr_cfg p)")
  case True
  obtain p1 w' r where f: "filterBasedPrune now conv d p w = (p1, w', r)" by (metis surj_pair)
  show ?thesis using True assms(2,3) filterBasedPrune_keeps [OF f]
    by (simp add: timedCycle_def runPrune_def runIndexerQueuePrune_def checkpoint_def f)
next
  case False
  let ?keep = "cycle_keep (pr_cfg p) (Len q)" and ?b = "blockCollection p" and ?s = "blockSigCollection p"
  have keep: "0 \<le> ?keep" "?keep < Len q" using cycle_keep_bounds [of "pr_cfg p" "Len q"] False assms(4) by auto
  obtain q' r where q': "Drain srt ?keep ?b ?s q = Returns (q', Some r)" "queue_ok q'" "Len q' = ?keep"
    using block_queue.drain_some [OF Drain_block_queue [OF assms(1), of ?b ?s] assms(3) keep] by (elim exE conjE) (rule that)
  obtain p1 w' e where pur: "purgeFromDrainResult now d r (p\<lparr>pr_queue := Some q'\<rparr>) w = (p1, w', e)" by (metis surj_pair)
  show ?thesis using False assms(2) q' purgeFromDrainResult_keeps [OF pur]
    by (simp add: timedCycle_def runPrune_def runIndexerQueuePrune_def Let_def checkpoint_def pur)
qed



text \<open>C21: a pruner cannot be stopped twice. The stop channel is made once, so after a stop and a second
  start, which succeeds, the second stop closes a closed channel and panics.\<close>

theorem restarted_pruner_panics:
  assumes "pc_Enabled (pr_cfg p)" "\<not> isRunning p" "\<not> stopChanClosed p"
  shows "\<exists>p1 p2. Stop io (fst (Start True p)) = Returns p1 \<and> \<not> isRunning p1 \<and> Start True p1 = (p2, True)
    \<and> Stop io' p2 = Panics"
  using assms by (auto simp: Start_def Stop_def Let_def split: option.splits)

theorem restarted_pruner_panics_witness:
  "\<exists>p1 p2. Stop no_failures (fst (Start True (demo_pruner None))) = Returns p1 \<and> Start True p1 = (p2, True)
    \<and> Stop no_failures p2 = Panics"
  using restarted_pruner_panics [of "demo_pruner None" no_failures no_failures] by (simp add: demo_pruner_def NewPruner_def) blast

end
