(* ===== verification/Evm_Client.thy ===== *)
theory Evm_Client
  imports Config Evm_Converter Prune_Queue
begin

text \<open>
  Files \<open>pkg/chains/evm/ethereum_client.go\<close> and \<open>pkg/utils/urlSanitizer_url.go\<close>: the JSON-RPC client, its
  connection phase, and the conversion of go-ethereum's values into the records the converter reads.

  go-ethereum is an argument. The records \<open>geth\<dots>\<close> hold what its accessors return, \<open>geth_lib\<close> its helper
  functions (\<open>Hash.Hex\<close>, \<open>Address.Hex\<close>, \<open>Bytes2Hex\<close>, \<open>HexToHash\<close>, \<open>types.Sender\<close>), \<open>ethclient\<close> a
  connected client and \<open>dialer\<close> its dial functions. A hash is \<open>[32]byte\<close> and an address \<open>[20]byte\<close>; a
  \<open>*big.Int\<close> that may be nil is an option. The error counter is telemetry and is left out.
\<close>

section \<open>Values of go-ethereum\<close>

type_synonym bytes = "byte list"

record gethLog =
  gl_Address :: bytes
  gl_Topics :: "bytes list"
  gl_Data :: bytes
  gl_BlockNumber :: nat
  gl_TxHash :: bytes
  gl_TxIndex :: nat
  gl_BlockHash :: bytes
  gl_Index :: nat
  gl_Removed :: bool

record gethReceipt =
  gr_TxHash :: bytes
  gr_TransactionIndex :: nat
  gr_BlockHash :: bytes
  gr_BlockNumber :: "int option"
  gr_CumulativeGasUsed :: nat
  gr_GasUsed :: nat
  gr_EffectiveGasPrice :: "int option"
  gr_ContractAddress :: bytes
  gr_Logs :: "gethLog list"
  gr_PostState :: bytes
  gr_Status :: nat

record gethTx =
  gt_Hash :: bytes
  gt_Type :: nat
  gt_ChainId :: "int option"
  gt_To :: "bytes option"
  gt_Value :: int
  gt_Gas :: nat
  gt_GasPrice :: int
  gt_GasFeeCap :: int
  gt_GasTipCap :: int
  gt_Data :: bytes
  gt_Nonce :: nat
  gt_AccessList :: "(bytes \<times> bytes list) list"
  gt_V :: "int option"
  gt_R :: "int option"
  gt_S :: "int option"

record gethBlock =
  gb_Hash :: bytes
  gb_Number :: nat
  gb_Time :: nat
  gb_ParentHash :: bytes
  gb_Difficulty :: int
  gb_GasUsed :: nat
  gb_GasLimit :: nat
  gb_BaseFee :: "int option"
  gb_Nonce :: nat
  gb_Coinbase :: bytes
  gb_Size :: nat
  gb_Root :: bytes
  gb_UncleHash :: bytes
  gb_TxHash :: bytes
  gb_ReceiptHash :: bytes
  gb_Bloom :: bytes
  gb_Extra :: bytes
  gb_MixDigest :: bytes
  gb_Uncles :: "bytes list"
  gb_Transactions :: "gethTx list"

record gethHeader =
  gh_Number :: "int option"
  gh_ParentHash :: bytes

datatype signer = HomesteadSigner | FrontierSigner | LatestSignerForChainID int | EIP155Signer int | LondonSigner int

record geth_lib =
  HashHex :: "bytes \<Rightarrow> string"
  AddressHex :: "bytes \<Rightarrow> string"
  Bytes2Hex :: "bytes \<Rightarrow> string"
  HexToHash :: "string \<Rightarrow> bytes"
  Sender :: "signer \<Rightarrow> gethTx \<Rightarrow> bytes result"

section \<open>Redaction\<close>

text \<open>\<open>url.Parse\<close> yields scheme and host; \<open>as_url_error\<close> is \<open>errors.AsType\<close> for \<open>*url.Error\<close>, whose
  text is operation, quoted URL and cause.\<close>

record url_lib =
  url_Parse :: "string \<Rightarrow> (string \<times> string) option"
  as_url_error :: "goerror \<Rightarrow> (string \<times> string \<times> goerror) option"

definition RedactEndpoint :: "url_lib \<Rightarrow> string \<Rightarrow> string" where
  "RedactEndpoint u endpoint = (case url_Parse u endpoint of None \<Rightarrow> ''(endpoint hidden)''
     | Some (scheme, host) \<Rightarrow> if host = [] then ''(endpoint hidden)'' else scheme @ ''://'' @ host)"

definition RedactHTTPError :: "url_lib \<Rightarrow> goerror \<Rightarrow> goerror" where
  "RedactHTTPError u e = (case as_url_error u e of
     Some (op, url, cause) \<Rightarrow> Wrapped (op @ '' '' @ quoted (RedactEndpoint u url) @ '': '') cause []
   | None \<Rightarrow> e)"

section \<open>Conversion\<close>

abbreviation ZeroAddress :: string where "ZeroAddress \<equiv> ''0x0000000000000000000000000000000000000000''"

abbreviation (input) dec :: "nat \<Rightarrow> string" where "dec n \<equiv> itoa (int n)"

text \<open>\<open>String\<close> of a \<open>*big.Int\<close>.\<close>

definition big_String :: "int option \<Rightarrow> string" where
  "big_String n = (case n of None \<Rightarrow> ''<nil>'' | Some i \<Rightarrow> itoa i)"

definition getContractAddress :: "geth_lib \<Rightarrow> gethReceipt \<Rightarrow> string" where
  "getContractAddress g r = (if gr_ContractAddress r = replicate 20 0 then [] else AddressHex g (gr_ContractAddress r))"

definition getReceiptStatus :: "gethReceipt \<Rightarrow> string" where
  "getReceiptStatus r = (if gr_PostState r \<noteq> [] then ''1'' else if gr_Status r = 1 then ''1'' else ''0'')"

definition getEffectiveGasPrice :: "gethReceipt \<Rightarrow> string" where
  "getEffectiveGasPrice r = (case gr_EffectiveGasPrice r of None \<Rightarrow> [] | Some p \<Rightarrow> itoa p)"

definition convertGethLog :: "geth_lib \<Rightarrow> gethLog \<Rightarrow> EvmLog" where
  "convertGethLog g l = \<lparr>log_Address = AddressHex g (gl_Address l), Topics = map (HashHex g) (gl_Topics l),
     log_Data = Bytes2Hex g (gl_Data l), log_BlockNumber = dec (gl_BlockNumber l), log_TransactionHash = HashHex g (gl_TxHash l),
     log_TransactionIndex = wrap_int64 (int (gl_TxIndex l)), log_BlockHash = HashHex g (gl_BlockHash l),
     LogIndex = wrap_int64 (int (gl_Index l)), Removed = gl_Removed l\<rparr>"

definition convertGethReceipt :: "geth_lib \<Rightarrow> gethReceipt option \<Rightarrow> TransactionReceipt option" where
  "convertGethReceipt g receipt = (case receipt of None \<Rightarrow> None
     | Some r \<Rightarrow> Some \<lparr>rc_TransactionHash = HashHex g (gr_TxHash r), rc_TransactionIndex = dec (gr_TransactionIndex r),
         rc_BlockHash = HashHex g (gr_BlockHash r), rc_BlockNumber = big_String (gr_BlockNumber r), rc_From = [], rc_To = [],
         rc_CumulativeGasUsed = dec (gr_CumulativeGasUsed r), rc_GasUsed = dec (gr_GasUsed r),
         rc_EffectiveGasPrice = getEffectiveGasPrice r, ContractAddress = getContractAddress g r,
         rc_Logs = map (convertGethLog g) (gr_Logs r), rc_Status = getReceiptStatus r\<rparr>)"

fun first_sender :: "geth_lib \<Rightarrow> gethTx \<Rightarrow> signer list \<Rightarrow> goerror \<Rightarrow> bytes result" where
  "first_sender g tx [] e = Inl e"
| "first_sender g tx (s # ss) e = (case Sender g s tx of Inr from \<Rightarrow> Inr from | Inl _ \<Rightarrow> first_sender g tx ss e)"

definition GetFromAddress :: "geth_lib \<Rightarrow> gethTx \<Rightarrow> bytes result" where
  "GetFromAddress g tx = (case gt_ChainId tx of
     Some chainID \<Rightarrow> if chainID \<le> 0
       then first_sender g tx [HomesteadSigner, FrontierSigner] (ErrMsg ''unable to recover sender from pre-EIP-155 transaction'')
       else first_sender g tx [LatestSignerForChainID chainID, EIP155Signer chainID, LondonSigner chainID]
              (ErrMsg ''no sender (from) address found'')
   | None \<Rightarrow> first_sender g tx [HomesteadSigner, FrontierSigner] (ErrMsg ''unable to recover sender from pre-EIP-155 transaction''))"

definition getToAddress :: "geth_lib \<Rightarrow> gethTx \<Rightarrow> string" where
  "getToAddress g tx = (case gt_To tx of None \<Rightarrow> [] | Some a \<Rightarrow> AddressHex g a)"

definition getBaseFeePerGas :: "gethBlock \<Rightarrow> string" where
  "getBaseFeePerGas b = (case gb_BaseFee b of None \<Rightarrow> [] | Some f \<Rightarrow> itoa f)"

abbreviation (input) DynamicFeeTxType :: nat where "DynamicFeeTxType \<equiv> 2"

definition getMaxFeePerGas :: "gethTx \<Rightarrow> string" where
  "getMaxFeePerGas tx = (if gt_Type tx = DynamicFeeTxType then itoa (gt_GasFeeCap tx) else [])"

definition getMaxPriorityFeePerGas :: "gethTx \<Rightarrow> string" where
  "getMaxPriorityFeePerGas tx = (if gt_Type tx = DynamicFeeTxType then itoa (gt_GasTipCap tx) else [])"

definition getChainID :: "gethTx \<Rightarrow> string" where
  "getChainID tx = (case gt_ChainId tx of None \<Rightarrow> [] | Some i \<Rightarrow> itoa i)"

definition convertTransaction :: "geth_lib \<Rightarrow> gethTx \<Rightarrow> gethBlock \<Rightarrow> nat \<Rightarrow> EvmTransaction" where
  "convertTransaction g tx b index =
     (let gasPrice = (if gt_Type tx = DynamicFeeTxType then gt_GasFeeCap tx else gt_GasPrice tx) in
      \<lparr>tx_Hash = HashHex g (gt_Hash tx), tx_BlockHash = HashHex g (gb_Hash b), tx_BlockNumber = dec (gb_Number b),
       tx_From = (case GetFromAddress g tx of Inl _ \<Rightarrow> ZeroAddress | Inr a \<Rightarrow> AddressHex g a), tx_To = getToAddress g tx,
       tx_Value = itoa (gt_Value tx), tx_Gas = dec (gt_Gas tx), tx_GasPrice = itoa gasPrice,
       tx_MaxFeePerGas = getMaxFeePerGas tx, tx_MaxPriorityFeePerGas = getMaxPriorityFeePerGas tx,
       tx_Input = ''0x'' @ Bytes2Hex g (gt_Data tx), tx_Nonce = dec (gt_Nonce tx), tx_TransactionIndex = int index,
       tx_Type = dec (gt_Type tx), tx_ChainID = getChainID tx,
       AccessList = map (\<lambda>(a, ks). \<lparr>ale_Address = AddressHex g a, StorageKeys = map (HashHex g) ks\<rparr>) (gt_AccessList tx),
       tx_V = big_String (gt_V tx), tx_R = big_String (gt_R tx), tx_S = big_String (gt_S tx), tx_Status = True,
       tx_GasUsed = [], tx_CumulativeGasUsed = [], tx_EffectiveGasPrice = [], tx_Logs = []\<rparr>)"

definition convertGethBlock :: "geth_lib \<Rightarrow> gethBlock option \<Rightarrow> EvmBlock option" where
  "convertGethBlock g blk = (case blk of None \<Rightarrow> None
     | Some b \<Rightarrow> Some \<lparr>blk_Hash = HashHex g (gb_Hash b), blk_Number = dec (gb_Number b), blk_Timestamp = dec (gb_Time b),
         blk_ParentHash = HashHex g (gb_ParentHash b), blk_Difficulty = itoa (gb_Difficulty b), blk_TotalDifficulty = [],
         blk_GasUsed = dec (gb_GasUsed b), blk_GasLimit = dec (gb_GasLimit b), blk_BaseFeePerGas = getBaseFeePerGas b,
         blk_Nonce = dec (gb_Nonce b), blk_Miner = AddressHex g (gb_Coinbase b), blk_Size = dec (gb_Size b),
         blk_StateRoot = HashHex g (gb_Root b), blk_Sha3Uncles = HashHex g (gb_UncleHash b),
         blk_TransactionsRoot = HashHex g (gb_TxHash b), blk_ReceiptsRoot = HashHex g (gb_ReceiptHash b),
         blk_LogsBloom = Bytes2Hex g (gb_Bloom b), blk_ExtraData = Bytes2Hex g (gb_Extra b), blk_MixHash = HashHex g (gb_MixDigest b),
         blk_Uncles = map (HashHex g) (gb_Uncles b),
         blk_Transactions = map (\<lambda>(i, tx). convertTransaction g tx b i) (enumerate 0 (gb_Transactions b))\<rparr>)"

section \<open>Requests\<close>

record ethclient =
  BlockByNumber :: "int \<Rightarrow> gethBlock option result"
  HeaderByHash :: "bytes \<Rightarrow> gethHeader option result"
  HeaderByNumber :: "int option \<Rightarrow> gethHeader option result"
  NetworkID :: "int result"
  TransactionReceiptOf :: "bytes \<Rightarrow> gethReceipt option result"
  BlockReceipts :: "bytes \<Rightarrow> gethReceipt option list result"

record EthereumClient =
  httpClient :: "ethclient option"
  wsClient :: "ethclient option"
  ec_nodeURL :: string
  ec_wsURL :: string
  ec_apiKey :: string
  ec_apiKeyHeader :: string

abbreviation errNoClientAvailable :: goerror where "errNoClientAvailable \<equiv> Sentinel ''no client available''"

definition getPreferredClient :: "EthereumClient \<Rightarrow> ethclient option" where
  "getPreferredClient c = (case wsClient c of Some w \<Rightarrow> Some w | None \<Rightarrow> httpClient c)"

definition GetBlockByNumber :: "geth_lib \<Rightarrow> url_lib \<Rightarrow> EthereumClient \<Rightarrow> int \<Rightarrow> EvmBlock option result" where
  "GetBlockByNumber g u c blockNumber = (case getPreferredClient c of
     None \<Rightarrow> Inl errNoClientAvailable
   | Some cl \<Rightarrow> (case BlockByNumber cl blockNumber of
       Inl e \<Rightarrow> Inl (Wrapped (''failed to get block '' @ itoa blockNumber @ '': '') (RedactHTTPError u e) [])
     | Inr b \<Rightarrow> Inr (convertGethBlock g b)))"

definition normalizeBlockHash :: "geth_lib \<Rightarrow> string \<Rightarrow> bytes result" where
  "normalizeBlockHash g hash = (let trimmed = trim_space hash; h = HexToHash g trimmed in
     if HashHex g h \<noteq> to_lower trimmed
     then Inl (ErrMsg (''block hash '' @ quoted trimmed @ '': not a 0x-prefixed 32-byte hex hash'')) else Inr h)"

definition GetHeaderByHash :: "geth_lib \<Rightarrow> EthereumClient \<Rightarrow> string \<Rightarrow> gethHeader option result" where
  "GetHeaderByHash g c hash = (case getPreferredClient c of
     None \<Rightarrow> Inl errNoClientAvailable
   | Some cl \<Rightarrow> (case normalizeBlockHash g hash of Inl e \<Rightarrow> Inl e
     | Inr h \<Rightarrow> (case HeaderByHash cl h of
         Inl e \<Rightarrow> Inl (Wrapped (''failed to get header by hash '' @ hash @ '': '') e []) | Inr header \<Rightarrow> Inr header)))"

text \<open>The special block tags and their texts; \<open>Int64\<close> of a big integer keeps the low 64 bits.\<close>

abbreviation (input) FinalizedBlockNumber :: "int \<times> string" where "FinalizedBlockNumber \<equiv> (-3, ''finalized'')"
abbreviation (input) SafeBlockNumber :: "int \<times> string" where "SafeBlockNumber \<equiv> (-4, ''safe'')"

definition headerNumberForTag :: "EthereumClient \<Rightarrow> int \<times> string \<Rightarrow> height result" where
  "headerNumberForTag c tag = (case getPreferredClient c of
     None \<Rightarrow> Inl errNoClientAvailable
   | Some cl \<Rightarrow> (case HeaderByNumber cl (Some (fst tag)) of
       Inl e \<Rightarrow> Inl (Wrapped (''failed to get '' @ snd tag @ '' header: '') e [])
     | Inr None \<Rightarrow> Inl (ErrMsg (snd tag @ '' header has no block number''))
     | Inr (Some h) \<Rightarrow> (case gh_Number h of None \<Rightarrow> Inl (ErrMsg (snd tag @ '' header has no block number''))
         | Some n \<Rightarrow> Inr (wrap_int64 n))))"

definition GetFinalizedBlockNumber :: "EthereumClient \<Rightarrow> height result" where
  "GetFinalizedBlockNumber c = (case headerNumberForTag c FinalizedBlockNumber of
     Inr n \<Rightarrow> Inr n
   | Inl finalizedErr \<Rightarrow> (case headerNumberForTag c SafeBlockNumber of
       Inr n \<Rightarrow> Inr n
     | Inl safeErr \<Rightarrow> Inl (Wrapped2 ''finalized block number unavailable: '' finalizedErr
         ''; safe fallback also failed: '' safeErr [])))"

definition GetNetworkID :: "url_lib \<Rightarrow> EthereumClient \<Rightarrow> int result" where
  "GetNetworkID u c = (case getPreferredClient c of
     None \<Rightarrow> Inl errNoClientAvailable
   | Some cl \<Rightarrow> (case NetworkID cl of Inl e \<Rightarrow> Inl (RedactHTTPError u e) | Inr i \<Rightarrow> Inr i))"

text \<open>A nil header is dereferenced.\<close>

definition GetLatestBlockNumber :: "url_lib \<Rightarrow> EthereumClient \<Rightarrow> int option result outcome" where
  "GetLatestBlockNumber u c = (case getPreferredClient c of
     None \<Rightarrow> Returns (Inl errNoClientAvailable)
   | Some cl \<Rightarrow> (case HeaderByNumber cl None of
       Inl e \<Rightarrow> Returns (Inl (Wrapped ''failed to get latest header: '' (RedactHTTPError u e) []))
     | Inr None \<Rightarrow> Panics
     | Inr (Some h) \<Rightarrow> Returns (Inr (gh_Number h))))"

definition GetTransactionReceipt :: "geth_lib \<Rightarrow> url_lib \<Rightarrow> EthereumClient \<Rightarrow> string \<Rightarrow> TransactionReceipt option result" where
  "GetTransactionReceipt g u c txHash = (case getPreferredClient c of
     None \<Rightarrow> Inl errNoClientAvailable
   | Some cl \<Rightarrow> (case TransactionReceiptOf cl (HexToHash g txHash) of
       Inl e \<Rightarrow> Inl (Wrapped ''failed to get transaction receipt: '' (RedactHTTPError u e) [])
     | Inr r \<Rightarrow> Inr (convertGethReceipt g r)))"

definition GetBlockReceipts :: "geth_lib \<Rightarrow> url_lib \<Rightarrow> EthereumClient \<Rightarrow> string \<Rightarrow> TransactionReceipt option list result" where
  "GetBlockReceipts g u c blockHash = (case getPreferredClient c of
     None \<Rightarrow> Inl errNoClientAvailable
   | Some cl \<Rightarrow> (case BlockReceipts cl (HexToHash g blockHash) of
       Inl e \<Rightarrow> Inl (Wrapped (''failed to get block receipts for block hash '' @ blockHash @ '': '') (RedactHTTPError u e) [])
     | Inr rs \<Rightarrow> Inr (map (convertGethReceipt g) rs)))"

section \<open>Connecting\<close>

text \<open>What the connection phase sees of the outside: the dials, and each reading of the caller's context.
  \<open>ctx_dead\<close> is \<open>callerContextFailed\<close> at the first and second WebSocket dial and at the end;
  \<open>ctx_cause\<close> is \<open>ctx.Err()\<close> at the end.\<close>

record dial_env =
  ctx_err :: "goerror option"
  dial_http :: "string \<Rightarrow> (string \<times> string) option \<Rightarrow> ethclient result"
  dial_ws :: "string \<Rightarrow> (string \<times> string) option \<Rightarrow> nat \<Rightarrow> ethclient result"
  ctx_dead :: "nat \<Rightarrow> bool"
  ctx_cause :: "goerror option"
  dial_time :: int

abbreviation errWSDialAborted :: goerror where "errWSDialAborted \<equiv> Sentinel ''WebSocket dial aborted''"

definition isContextError :: "goerror \<Rightarrow> bool" where
  "isContextError e = (errors_Is e ''context canceled'' \<or> errors_Is e ''context deadline exceeded'' \<or> errors_Is e ''i/o timeout'')"

definition normalizeHeaderName :: "string \<Rightarrow> string" where
  "normalizeHeaderName apiKeyType = to_lower (trim_space apiKeyType)"

definition isGCPProvider :: "string \<Rightarrow> bool" where
  "isGCPProvider headerName = contains headerName ''goog''"

definition rpc_failed :: "dial_env \<Rightarrow> string \<Rightarrow> goerror \<Rightarrow> goerror" where
  "rpc_failed env endpoint e = NewRPCConnectionFailed (dial_time env) ''rpc'' ''NewEthereumClient'' endpoint (Some e) []"

definition createWebSocketWithHeaders :: "url_lib \<Rightarrow> dial_env \<Rightarrow> string \<Rightarrow> string \<Rightarrow> string \<Rightarrow> ethclient result" where
  "createWebSocketWithHeaders u env url apiKey apiKeyHeader =
     (if isGCPProvider apiKeyHeader
      then (let separator = (if contains url ''?'' then ''&'' else ''?'') in
        case dial_ws env (url @ separator @ ''key='' @ apiKey) None 0 of
          Inl e \<Rightarrow> Inl (Wrapped ''failed to dial GCP WebSocket: '' (RedactHTTPError u e) []) | Inr c \<Rightarrow> Inr c)
      else (let headerName = normalizeHeaderName apiKeyHeader in
        case dial_ws env url (Some (headerName, apiKey)) 0 of
          Inl e \<Rightarrow> Inl (Wrapped (''failed to dial WebSocket with '' @ headerName @ '' header: '') (RedactHTTPError u e) []) | Inr c \<Rightarrow> Inr c))"

definition connectWebSocketPlain :: "url_lib \<Rightarrow> dial_env \<Rightarrow> string \<Rightarrow> EthereumClient \<Rightarrow> EthereumClient result" where
  "connectWebSocketPlain u env url c = (case dial_ws env url None 0 of
     Inr w \<Rightarrow> Inr (c\<lparr>wsClient := Some w\<rparr>)
   | Inl e0 \<Rightarrow> (let e = RedactHTTPError u e0 in
       if isContextError e \<and> (ctx_dead env 0 \<or> httpClient c = None)
       then Inl (rpc_failed env url (Wrapped2 [] errWSDialAborted '': '' e []))
       else if httpClient c \<noteq> None then Inr c else Inl (rpc_failed env url e)))"

definition connectWebSocketWithAPIKey ::
  "url_lib \<Rightarrow> dial_env \<Rightarrow> string \<Rightarrow> string \<Rightarrow> string \<Rightarrow> EthereumClient \<Rightarrow> EthereumClient result" where
  "connectWebSocketWithAPIKey u env url apiKey headerName c = (case createWebSocketWithHeaders u env url apiKey headerName of
     Inr w \<Rightarrow> Inr (c\<lparr>wsClient := Some w\<rparr>)
   | Inl e \<Rightarrow>
       if isContextError e then
         (if ctx_dead env 0 \<or> httpClient c = None
          then Inl (rpc_failed env url (Wrapped2 [] errWSDialAborted '': '' e [])) else Inr c)
       else (case dial_ws env url None 1 of
         Inr w \<Rightarrow> Inr (c\<lparr>wsClient := Some w\<rparr>)
       | Inl e1 \<Rightarrow> (let e2 = RedactHTTPError u e1 in
           if isContextError e2 \<and> (ctx_dead env 1 \<or> httpClient c = None)
           then Inl (rpc_failed env url (Wrapped2 [] errWSDialAborted '': '' e2 []))
           else if httpClient c \<noteq> None then Inr c
           else Inl (rpc_failed env url (Wrapped ''WebSocket connection failed with both API key and standard methods: '' e2 [])))))"

definition connectWebSocket :: "url_lib \<Rightarrow> dial_env \<Rightarrow> string \<Rightarrow> string \<Rightarrow> string \<Rightarrow> EthereumClient \<Rightarrow> EthereumClient result" where
  "connectWebSocket u env url apiKey headerName c =
     (if apiKey \<noteq> [] then connectWebSocketWithAPIKey u env url apiKey headerName c else connectWebSocketPlain u env url c)"

text \<open>The HTTP dial of \<open>NewEthereumClient\<close>.\<close>

definition connect_http :: "url_lib \<Rightarrow> dial_env \<Rightarrow> string \<Rightarrow> string \<Rightarrow> string \<Rightarrow> EthereumClient \<Rightarrow> EthereumClient result" where
  "connect_http u env url apiKey headerName c =
     (if url = [] then Inr c
      else case dial_http env url (if apiKey \<noteq> [] then Some (headerName, apiKey) else None) of
        Inl e \<Rightarrow> Inl (rpc_failed env url (RedactHTTPError u e)) | Inr h \<Rightarrow> Inr (c\<lparr>httpClient := Some h\<rparr>))"

definition NewEthereumClient ::
  "url_lib \<Rightarrow> dial_env \<Rightarrow> string \<Rightarrow> string \<Rightarrow> string \<Rightarrow> string \<Rightarrow> EthereumClient result" where
  "NewEthereumClient u env httpNodeURL url apiKey apiKeyHeader = (case ctx_err env of
     Some e \<Rightarrow> Inl (rpc_failed env ''all endpoints'' (Wrapped ''dial context cancelled before connecting: '' e []))
   | None \<Rightarrow> (let headerName = normalizeHeaderName apiKeyHeader;
                 c0 = \<lparr>httpClient = None, wsClient = None, ec_nodeURL = httpNodeURL, ec_wsURL = url, ec_apiKey = apiKey,
                   ec_apiKeyHeader = apiKeyHeader\<rparr> in
       case connect_http u env httpNodeURL apiKey headerName c0 of Inl e \<Rightarrow> Inl e
     | Inr c1 \<Rightarrow> (case (if url = [] then Inr c1 else connectWebSocket u env url apiKey headerName c1) of Inl e \<Rightarrow> Inl e
       | Inr c2 \<Rightarrow>
           if ctx_dead env 2 then Inl (rpc_failed env ''all endpoints'' (Wrapped ''dial context expired while connecting: ''
             (case ctx_cause env of Some e \<Rightarrow> e | None \<Rightarrow> Sentinel ''context deadline exceeded'') []))
           else if httpClient c2 = None \<and> wsClient c2 = None
           then Inl (rpc_failed env ''all endpoints'' (ErrMsg (''no valid connections established - both HTTP (''
             @ RedactEndpoint u httpNodeURL @ '') and WebSocket ('' @ RedactEndpoint u url @ '') failed'')))
           else Inr c2)))"

definition maskAPIKey :: "string \<Rightarrow> string \<Rightarrow> string" where
  "maskAPIKey url apiKey = (if apiKey = [] \<or> length apiKey < 8 then url
     else replace_all apiKey (take 4 apiKey @ ''****'' @ drop (length apiKey - 4) apiKey) url)"

end
