(* ===== verification/Evm_Fetcher.thy ===== *)
theory Evm_Fetcher
  imports Evm_Client
begin

text \<open>
  File \<open>pkg/chains/evm/fetcher.go\<close>: the fetcher over an RPC client, the pinned batch of receipts with its two
  acceptance checks, the per-transaction fallback and the merge of execution results onto transactions.

  The receipts of the fallback are fetched concurrently, each into its own slot, so the result depends only
  on what each request returned; \<open>slot_abandoned\<close> tells for which slots the context ended first.
\<close>

section \<open>Model\<close>

text \<open>The interface \<open>rpcClient\<close>, and the Ethereum client as its implementation.\<close>

record rpcClient =
  rpc_LatestBlockNumber :: "int option result outcome"
  rpc_BlockByNumber :: "int \<Rightarrow> EvmBlock option result"
  rpc_HeaderByHash :: "string \<Rightarrow> gethHeader option result"
  rpc_BlockReceipts :: "string \<Rightarrow> TransactionReceipt option list result"
  rpc_TransactionReceipt :: "string \<Rightarrow> TransactionReceipt option result"
  rpc_FinalizedBlockNumber :: "height result"

definition ethereum_rpc :: "geth_lib \<Rightarrow> url_lib \<Rightarrow> EthereumClient \<Rightarrow> rpcClient" where
  "ethereum_rpc g u c = \<lparr>rpc_LatestBlockNumber = GetLatestBlockNumber u c, rpc_BlockByNumber = GetBlockByNumber g u c,
     rpc_HeaderByHash = GetHeaderByHash g c, rpc_BlockReceipts = GetBlockReceipts g u c,
     rpc_TransactionReceipt = GetTransactionReceipt g u c, rpc_FinalizedBlockNumber = GetFinalizedBlockNumber c\<rparr>"

record Fetcher =
  client :: "rpcClient option"
  receiptWorkers :: int
  f_nodeURL :: string
  f_wsURL :: string
  f_apiKey :: string
  f_apiKeyType :: string
  dialTimeout :: int

definition NewEvmFetcher :: "rpcClient \<Rightarrow> int \<Rightarrow> Fetcher" where
  "NewEvmFetcher c workers = \<lparr>client = Some c, receiptWorkers = workers, f_nodeURL = [], f_wsURL = [], f_apiKey = [],
     f_apiKeyType = [], dialTimeout = 0\<rparr>"

definition NewFetcherFromConfig :: "int \<Rightarrow> Config option \<Rightarrow> Fetcher result" where
  "NewFetcherFromConfig now config = (case config of
     None \<Rightarrow> Inl (NewConfigurationError now ''chain'' ''NewFetcherFromConfig'' ''config is nil'' [] None [])
   | Some k \<Rightarrow> Inr \<lparr>client = None,
       receiptWorkers = (if ReceiptWorkers (cfg_Indexer k) \<le> 0 then 16 else ReceiptWorkers (cfg_Indexer k)),
       f_nodeURL = NodeURL (cfg_Geth k), f_wsURL = WsURL (cfg_Geth k), f_apiKey = APIKey (cfg_Geth k),
       f_apiKeyType = APIKeyType (cfg_Geth k), dialTimeout = wrap_int64 (DialTimeoutSeconds (cfg_Geth k) * 1000000000)\<rparr>)"

text \<open>The dial timeout only bounds the WebSocket dials, whose outcome the dial environment gives.\<close>

definition Connect :: "geth_lib \<Rightarrow> url_lib \<Rightarrow> dial_env \<Rightarrow> Fetcher \<Rightarrow> Fetcher \<times> goerror option" where
  "Connect g u env f = (if client f \<noteq> None then (f, None)
     else case NewEthereumClient u env (f_nodeURL f) (f_wsURL f) (f_apiKey f) (f_apiKeyType f) of
       Inl e \<Rightarrow> (f, Some (Wrapped ''create ethereum client: '' e []))
     | Inr c \<Rightarrow> (f\<lparr>client := Some (ethereum_rpc g u c)\<rparr>, None))"

definition equal_fold :: "string \<Rightarrow> string \<Rightarrow> bool" where
  "equal_fold s t \<longleftrightarrow> to_lower s = to_lower t"

definition receiptHashesMatch :: "TransactionReceipt option list \<Rightarrow> hash \<Rightarrow> bool" where
  "receiptHashesMatch receipts blockHash =
     list_all (\<lambda>r. case r of None \<Rightarrow> False | Some x \<Rightarrow> equal_fold (rc_BlockHash x) blockHash) receipts"

definition batchCoversTransactions :: "EvmTransaction list \<Rightarrow> TransactionReceipt option list \<Rightarrow> bool" where
  "batchCoversTransactions txs receipts =
     (let served = concat (map (\<lambda>r. case r of None \<Rightarrow> [] | Some x \<Rightarrow> [to_lower (rc_TransactionHash x)]) receipts)
      in list_all (\<lambda>tx. to_lower (tx_Hash tx) \<in> set served) txs)"

definition by_hash :: "TransactionReceipt option list \<Rightarrow> hash \<Rightarrow> TransactionReceipt option" where
  "by_hash receipts = fold (\<lambda>r m. case r of None \<Rightarrow> m | Some x \<Rightarrow> m(rc_TransactionHash x \<mapsto> x)) receipts (\<lambda>_. None)"

definition mergeReceiptsOntoTransactions :: "EvmTransaction list \<Rightarrow> TransactionReceipt option list \<Rightarrow> EvmTransaction list" where
  "mergeReceiptsOntoTransactions txs receipts = map (\<lambda>tx. case by_hash receipts (tx_Hash tx) of
     None \<Rightarrow> tx
   | Some r \<Rightarrow> tx\<lparr>tx_Status := (rc_Status r = ''1''), tx_GasUsed := rc_GasUsed r,
       tx_CumulativeGasUsed := rc_CumulativeGasUsed r, tx_EffectiveGasPrice := rc_EffectiveGasPrice r\<rparr>) txs"

text \<open>One slot of the fallback.\<close>

definition receipt_slot :: "rpcClient \<Rightarrow> hash \<Rightarrow> bool \<Rightarrow> hash \<Rightarrow> TransactionReceipt option" where
  "receipt_slot c blockHash abandoned txHash = (if abandoned then None
     else case rpc_TransactionReceipt c txHash of Inl _ \<Rightarrow> None
     | Inr None \<Rightarrow> None
     | Inr (Some r) \<Rightarrow> if equal_fold (rc_BlockHash r) blockHash then Some r else None)"

definition fetchReceiptsIndividually :: "rpcClient \<Rightarrow> (nat \<Rightarrow> bool) \<Rightarrow> EvmBlock \<Rightarrow> TransactionReceipt option list" where
  "fetchReceiptsIndividually c slot_abandoned b =
     map (\<lambda>(i, tx). receipt_slot c (blk_Hash b) (slot_abandoned i) (tx_Hash tx)) (enumerate 0 (blk_Transactions b))"

text \<open>The transactions are pointers into the block, so the merge shows in both. The result is the block with
  its merged transactions and the receipts.\<close>

definition fetchTransactionsAndReceipts ::
  "rpcClient \<Rightarrow> (nat \<Rightarrow> bool) \<Rightarrow> EvmBlock \<Rightarrow> height \<Rightarrow> (EvmBlock \<times> TransactionReceipt option list) result" where
  "fetchTransactionsAndReceipts c slot_abandoned b blockNum =
     (let txs = blk_Transactions b;
          merged = (\<lambda>receipts. Inr (b\<lparr>blk_Transactions := mergeReceiptsOntoTransactions txs receipts\<rparr>, receipts)) in
      case rpc_BlockReceipts c (blk_Hash b) of
        Inr batch \<Rightarrow> if receiptHashesMatch batch (blk_Hash b) \<and> batchCoversTransactions txs batch then merged batch
          else (let receipts = fetchReceiptsIndividually c slot_abandoned b; failed = length (filter (\<lambda>r. r = None) receipts) in
            if failed > 0 then Inl (ErrMsg (''block '' @ itoa blockNum @ '': '' @ itoa (int failed) @ ''/'' @ itoa (int (length receipts))
              @ '' transaction receipts could not be fetched'')) else merged receipts)
      | Inl _ \<Rightarrow> (let receipts = fetchReceiptsIndividually c slot_abandoned b; failed = length (filter (\<lambda>r. r = None) receipts) in
            if failed > 0 then Inl (ErrMsg (''block '' @ itoa blockNum @ '': '' @ itoa (int failed) @ ''/'' @ itoa (int (length receipts))
              @ '' transaction receipts could not be fetched'')) else merged receipts))"

definition not_connected :: "string \<Rightarrow> goerror" where
  "not_connected op = ErrMsg (''fetcher not connected: call Connect(ctx) before '' @ op)"

definition fetchBlock :: "goerror option \<Rightarrow> rpcClient \<Rightarrow> height \<Rightarrow> EvmBlock option result" where
  "fetchBlock ctxErr c blockNum = (case ctxErr of Some e \<Rightarrow> Inl e | None \<Rightarrow> rpc_BlockByNumber c blockNum)"

text \<open>A nil block without an error is dereferenced.\<close>

definition FetchBlock :: "goerror option \<Rightarrow> (nat \<Rightarrow> bool) \<Rightarrow> Fetcher \<Rightarrow> height \<Rightarrow> raw_block result outcome" where
  "FetchBlock ctxErr slot_abandoned f n = (case client f of
     None \<Rightarrow> Returns (Inl (not_connected ''FetchBlock''))
   | Some c \<Rightarrow> (case fetchBlock ctxErr c n of
       Inl e \<Rightarrow> Returns (Inl e)
     | Inr None \<Rightarrow> Panics
     | Inr (Some b) \<Rightarrow> (case fetchTransactionsAndReceipts c slot_abandoned b n of
         Inl e \<Rightarrow> Returns (Inl (Wrapped (''failed to fetch block '' @ itoa n @ '' receipts: '') e []))
       | Inr (b', receipts) \<Rightarrow> Returns (Inr (RawBundle (Some \<lparr>bdl_Block = Some b',
           bdl_Transactions = map Some (blk_Transactions b'), bdl_Receipts = receipts\<rparr>))))))"

definition FetchHighestBlockNumber :: "Fetcher \<Rightarrow> height result outcome" where
  "FetchHighestBlockNumber f = (case client f of
     None \<Rightarrow> Returns (Inl (not_connected ''FetchHighestBlockNumber''))
   | Some c \<Rightarrow> (case rpc_LatestBlockNumber c of
       Panics \<Rightarrow> Panics
     | Returns (Inl e) \<Rightarrow> Returns (Inl (Wrapped ''failed to get latest block number: '' e []))
     | Returns (Inr None) \<Rightarrow> Panics
     | Returns (Inr (Some k)) \<Rightarrow> Returns (Inr (wrap_int64 k))))"

definition FetchBlockHeaderByHash :: "geth_lib \<Rightarrow> Fetcher \<Rightarrow> hash \<Rightarrow> BlockHeader result outcome" where
  "FetchBlockHeaderByHash g f h = (case client f of
     None \<Rightarrow> Returns (Inl (not_connected ''FetchBlockHeaderByHash''))
   | Some c \<Rightarrow> (case rpc_HeaderByHash c h of
       Inl e \<Rightarrow> Returns (Inl e)
     | Inr None \<Rightarrow> Panics
     | Inr (Some header) \<Rightarrow> (case gh_Number header of None \<Rightarrow> Panics
         | Some k \<Rightarrow> Returns (Inr \<lparr>Number = wrap_int64 k, Hash = h, ParentHash = HashHex g (gh_ParentHash header)\<rparr>))))"

definition FetchFinalizedBlockNumber :: "Fetcher \<Rightarrow> height result" where
  "FetchFinalizedBlockNumber f = (case client f of
     None \<Rightarrow> Inl (not_connected ''FetchFinalizedBlockNumber'') | Some c \<Rightarrow> rpc_FinalizedBlockNumber c)"

section \<open>What a client promises\<close>

text \<open>Hash texts are lower-case, and the receipt of a transaction of a served block carries its hash.\<close>

definition block_hashes_lower :: "EvmBlock \<Rightarrow> bool" where
  "block_hashes_lower b \<longleftrightarrow> to_lower (blk_Hash b) = blk_Hash b
     \<and> list_all (\<lambda>tx. to_lower (tx_Hash tx) = tx_Hash tx) (blk_Transactions b)"

definition receipt_lower :: "TransactionReceipt \<Rightarrow> bool" where
  "receipt_lower r \<longleftrightarrow> to_lower (rc_TransactionHash r) = rc_TransactionHash r \<and> to_lower (rc_BlockHash r) = rc_BlockHash r"

definition receipt_contract :: "rpcClient \<Rightarrow> bool" where
  "receipt_contract c \<longleftrightarrow>
     (\<forall>n b. rpc_BlockByNumber c n = Inr (Some b) \<longrightarrow> block_hashes_lower b \<and> (\<forall>tx r. tx \<in> set (blk_Transactions b) \<longrightarrow>
        rpc_TransactionReceipt c (tx_Hash tx) = Inr (Some r) \<longrightarrow> receipt_lower r \<and> rc_TransactionHash r = tx_Hash tx))
   \<and> (\<forall>h rs r. rpc_BlockReceipts c h = Inr rs \<longrightarrow> Some r \<in> set rs \<longrightarrow> receipt_lower r)"

text \<open>go-ethereum documents that \<open>Hash.Hex\<close> prints lower-case hexadecimal that \<open>HexToHash\<close> reads back, that a
  transaction hash has 32 bytes, and that \<open>TransactionReceipt\<close> returns the receipt of the transaction asked for.\<close>

definition geth_laws :: "geth_lib \<Rightarrow> bool" where
  "geth_laws g \<longleftrightarrow> (\<forall>h. to_lower (HashHex g h) = HashHex g h) \<and> (\<forall>h. length h = 32 \<longrightarrow> HexToHash g (HashHex g h) = h)"

definition node_laws :: "ethclient \<Rightarrow> bool" where
  "node_laws cl \<longleftrightarrow> (\<forall>n b tx. BlockByNumber cl n = Inr (Some b) \<longrightarrow> tx \<in> set (gb_Transactions b) \<longrightarrow> length (gt_Hash tx) = 32)
     \<and> (\<forall>h r. TransactionReceiptOf cl h = Inr (Some r) \<longrightarrow> gr_TxHash r = h)"

lemma convert_block_hashes:
  assumes "convertGethBlock g (Some b) = Some e"
  shows "blk_Hash e = HashHex g (gb_Hash b)" "map tx_Hash (blk_Transactions e) = map (HashHex g \<circ> gt_Hash) (gb_Transactions b)"
proof -
  show "blk_Hash e = HashHex g (gb_Hash b)" using assms by (auto simp: convertGethBlock_def)
  have "map (\<lambda>(i, tx). f tx) (enumerate n txs) = map f txs" for f :: "gethTx \<Rightarrow> string" and n txs
    by (induction txs arbitrary: n) auto
  then show "map tx_Hash (blk_Transactions e) = map (HashHex g \<circ> gt_Hash) (gb_Transactions b)"
    using assms by (auto simp: convertGethBlock_def convertTransaction_def Let_def comp_def split_def)
qed

lemma convert_receipt_hashes:
  "convertGethReceipt g x = Some r \<Longrightarrow> \<exists>y. x = Some y \<and> rc_TransactionHash r = HashHex g (gr_TxHash y) \<and> rc_BlockHash r = HashHex g (gr_BlockHash y)"
  by (auto simp: convertGethReceipt_def split: option.splits)

lemma ethereum_contract:
  assumes "geth_laws g" "\<And>cl. getPreferredClient c = Some cl \<Longrightarrow> node_laws cl"
  shows "receipt_contract (ethereum_rpc g u c)"
proof -
  have low: "to_lower (HashHex g h) = HashHex g h" "length h = 32 \<Longrightarrow> HexToHash g (HashHex g h) = h" for h
    using assms(1) unfolding geth_laws_def by blast+
  have recs: "receipt_lower r" if "convertGethReceipt g x = Some r" for x r
    using convert_receipt_hashes [OF that] by (auto simp: receipt_lower_def low(1))
  have "block_hashes_lower b \<and> (\<forall>tx r. tx \<in> set (blk_Transactions b) \<longrightarrow>
      rpc_TransactionReceipt (ethereum_rpc g u c) (tx_Hash tx) = Inr (Some r) \<longrightarrow> receipt_lower r \<and> rc_TransactionHash r = tx_Hash tx)"
    if B: "rpc_BlockByNumber (ethereum_rpc g u c) n = Inr (Some b)" for n b
  proof -
    obtain cl gb where cl: "getPreferredClient c = Some cl" "BlockByNumber cl n = Inr gb" "convertGethBlock g gb = Some b"
      using B by (auto simp: ethereum_rpc_def GetBlockByNumber_def split: option.splits sum.splits)
    then obtain gb' where gb: "gb = Some gb'" by (cases gb) (auto simp: convertGethBlock_def)
    note H = convert_block_hashes [OF cl(3) [unfolded gb]]
    have tx: "\<exists>y \<in> set (gb_Transactions gb'). tx_Hash t = HashHex g (gt_Hash y)" if "t \<in> set (blk_Transactions b)" for t
    proof -
      have "tx_Hash t \<in> set (map tx_Hash (blk_Transactions b))" using that by simp
      then show ?thesis unfolding H(2) by auto
    qed
    have "receipt_lower r \<and> rc_TransactionHash r = tx_Hash t" if t: "t \<in> set (blk_Transactions b)"
      and r: "rpc_TransactionReceipt (ethereum_rpc g u c) (tx_Hash t) = Inr (Some r)" for t r
    proof -
      obtain y where y: "y \<in> set (gb_Transactions gb')" "tx_Hash t = HashHex g (gt_Hash y)" using tx [OF t] by blast
      have N: "node_laws cl" by (rule assms(2) [OF cl(1)])
      have "length (gt_Hash y) = 32" using N cl(2) y(1) unfolding node_laws_def gb by blast
      then have "HexToHash g (tx_Hash t) = gt_Hash y" by (simp add: y(2) low(2))
      then obtain x where x: "TransactionReceiptOf cl (gt_Hash y) = Inr x" "convertGethReceipt g x = Some r"
        using r cl(1) by (auto simp: ethereum_rpc_def GetTransactionReceipt_def split: sum.splits)
      obtain z where z: "x = Some z" "rc_TransactionHash r = HashHex g (gr_TxHash z)" using convert_receipt_hashes [OF x(2)] by blast
      have "gr_TxHash z = gt_Hash y" using N x(1) unfolding node_laws_def z(1) by blast
      then show ?thesis using recs [OF x(2)] y(2) z(2) by simp
    qed
    moreover have "to_lower (tx_Hash t) = tx_Hash t" if "t \<in> set (blk_Transactions b)" for t
      using tx [OF that] low(1) by auto
    then have "block_hashes_lower b" using low(1) by (simp add: block_hashes_lower_def H(1) list_all_iff)
    ultimately show ?thesis by blast
  qed
  moreover have "receipt_lower r" if batch: "rpc_BlockReceipts (ethereum_rpc g u c) h = Inr rs" and r: "Some r \<in> set rs" for h rs r
  proof -
    obtain xs where "rs = map (convertGethReceipt g) xs"
      using batch by (auto simp: ethereum_rpc_def GetBlockReceipts_def split: option.splits sum.splits)
    then obtain x where "convertGethReceipt g x = Some r" using r by auto
    then show ?thesis by (rule recs)
  qed
  ultimately show ?thesis unfolding receipt_contract_def by blast
qed

section \<open>Merging\<close>

lemma by_hash_member: "by_hash rs h = Some r \<Longrightarrow> Some r \<in> set rs \<and> rc_TransactionHash r = h"
proof -
  have "fold (\<lambda>r m. case r of None \<Rightarrow> m | Some x \<Rightarrow> m(rc_TransactionHash x \<mapsto> x)) rs m h = Some r \<Longrightarrow>
      Some r \<in> set rs \<and> rc_TransactionHash r = h \<or> m h = Some r" for m
    by (induction rs arbitrary: m) (fastforce split: option.splits if_splits)+
  then show "by_hash rs h = Some r \<Longrightarrow> Some r \<in> set rs \<and> rc_TransactionHash r = h" by (fastforce simp: by_hash_def)
qed

lemma by_hash_covers: "Some r \<in> set rs \<Longrightarrow> \<exists>x. by_hash rs (rc_TransactionHash r) = Some x"
proof -
  have keep: "m h \<noteq> None \<Longrightarrow> fold (\<lambda>r m. case r of None \<Rightarrow> m | Some x \<Rightarrow> m(rc_TransactionHash x \<mapsto> x)) rs m h \<noteq> None" for rs m h
    by (induction rs arbitrary: m) (auto split: option.splits)
  have "Some r \<in> set rs \<Longrightarrow> fold (\<lambda>r m. case r of None \<Rightarrow> m | Some x \<Rightarrow> m(rc_TransactionHash x \<mapsto> x)) rs m (rc_TransactionHash r) \<noteq> None" for m
  proof (induction rs arbitrary: m)
    case (Cons a rs)
    then show ?case using keep [of "m(rc_TransactionHash r \<mapsto> r)" "rc_TransactionHash r" rs] by (cases "a = Some r") auto
  qed simp
  then show "Some r \<in> set rs \<Longrightarrow> \<exists>x. by_hash rs (rc_TransactionHash r) = Some x" by (auto simp: by_hash_def)
qed

text \<open>A transaction carries the results of a receipt of its block.\<close>

definition executed_in :: "EvmBlock \<Rightarrow> TransactionReceipt option list \<Rightarrow> EvmTransaction \<Rightarrow> bool" where
  "executed_in b rs tx \<longleftrightarrow> (\<exists>r. Some r \<in> set rs \<and> rc_TransactionHash r = tx_Hash tx \<and> rc_BlockHash r = blk_Hash b
     \<and> tx_Status tx = (rc_Status r = ''1'') \<and> tx_GasUsed tx = rc_GasUsed r
     \<and> tx_CumulativeGasUsed tx = rc_CumulativeGasUsed r \<and> tx_EffectiveGasPrice tx = rc_EffectiveGasPrice r)"

lemma merge_complete:
  assumes "\<forall>tx \<in> set txs. \<exists>r. Some r \<in> set rs \<and> rc_TransactionHash r = tx_Hash tx"
    and "\<forall>r. Some r \<in> set rs \<longrightarrow> rc_BlockHash r = blk_Hash b" "tx \<in> set (mergeReceiptsOntoTransactions txs rs)"
  shows "executed_in b rs tx"
proof -
  obtain t where t: "t \<in> set txs" "tx = (case by_hash rs (tx_Hash t) of None \<Rightarrow> t
      | Some r \<Rightarrow> t\<lparr>tx_Status := (rc_Status r = ''1''), tx_GasUsed := rc_GasUsed r,
          tx_CumulativeGasUsed := rc_CumulativeGasUsed r, tx_EffectiveGasPrice := rc_EffectiveGasPrice r\<rparr>)"
    using assms(3) by (auto simp: mergeReceiptsOntoTransactions_def)
  obtain r where r: "Some r \<in> set rs" "rc_TransactionHash r = tx_Hash t" using assms(1) t(1) by blast
  obtain x where x: "by_hash rs (tx_Hash t) = Some x" using by_hash_covers [OF r(1)] unfolding r(2) by blast
  from by_hash_member [OF x] assms(2) t(2) show ?thesis unfolding executed_in_def by (intro exI [of _ x]) (simp add: x)
qed

section \<open>Properties\<close>

lemma lower_equal_fold: "to_lower s = s \<Longrightarrow> to_lower t = t \<Longrightarrow> equal_fold s t \<longleftrightarrow> s = t"
  by (simp add: equal_fold_def)

lemma slots_filled:
  assumes "receipt_contract c" "rpc_BlockByNumber c n = Inr (Some b)" "filter (\<lambda>r. r = None) (fetchReceiptsIndividually c ab b) = []"
  shows "\<forall>tx \<in> set (blk_Transactions b). \<exists>r. Some r \<in> set (fetchReceiptsIndividually c ab b) \<and> rc_TransactionHash r = tx_Hash tx"
    and "Some r \<in> set (fetchReceiptsIndividually c ab b) \<Longrightarrow> rc_BlockHash r = blk_Hash b"
proof -
  let ?rs = "fetchReceiptsIndividually c ab b"
  have C: "to_lower (blk_Hash b) = blk_Hash b" "\<And>tx r. tx \<in> set (blk_Transactions b) \<Longrightarrow>
      rpc_TransactionReceipt c (tx_Hash tx) = Inr (Some r) \<Longrightarrow> receipt_lower r \<and> rc_TransactionHash r = tx_Hash tx"
    using assms(1,2) unfolding receipt_contract_def block_hashes_lower_def by blast+
  have none: "None \<notin> set ?rs" using assms(3) unfolding filter_empty_conv by metis
  have slot: "rpc_TransactionReceipt c h = Inr (Some r)" "equal_fold (rc_BlockHash r) (blk_Hash b)"
    if "receipt_slot c (blk_Hash b) a h = Some r" for a h r
    using that by (auto simp: receipt_slot_def split: if_splits sum.splits option.splits)
  show "\<forall>tx \<in> set (blk_Transactions b). \<exists>r. Some r \<in> set ?rs \<and> rc_TransactionHash r = tx_Hash tx"
  proof
    fix tx assume tx: "tx \<in> set (blk_Transactions b)"
    then obtain i where "i < length (blk_Transactions b)" "blk_Transactions b ! i = tx" unfolding in_set_conv_nth by blast
    then have i: "(i, tx) \<in> set (enumerate 0 (blk_Transactions b))" by (simp add: in_set_enumerate_eq)
    then have "receipt_slot c (blk_Hash b) (ab i) (tx_Hash tx) \<in> set ?rs" by (force simp: fetchReceiptsIndividually_def)
    then obtain r where r: "receipt_slot c (blk_Hash b) (ab i) (tx_Hash tx) = Some r" "Some r \<in> set ?rs"
      using none by (metis option.exhaust)
    with C(2) [OF tx slot(1) [OF r(1)]] show "\<exists>r. Some r \<in> set ?rs \<and> rc_TransactionHash r = tx_Hash tx" by blast
  qed
  show "rc_BlockHash r = blk_Hash b" if "Some r \<in> set ?rs"
  proof -
    from that obtain i tx where i: "(i, tx) \<in> set (enumerate 0 (blk_Transactions b))" "receipt_slot c (blk_Hash b) (ab i) (tx_Hash tx) = Some r"
      by (auto simp: fetchReceiptsIndividually_def)
    from i(1) have "tx \<in> set (blk_Transactions b)" by (auto simp: in_set_enumerate_eq)
    from C(2) [OF this slot(1) [OF i(2)]] have "receipt_lower r" by simp
    then show ?thesis using slot(2) [OF i(2)] C(1) lower_equal_fold by (simp add: receipt_lower_def)
  qed
qed

lemma batch_accepted:
  assumes "receipt_contract c" "rpc_BlockByNumber c n = Inr (Some b)" "rpc_BlockReceipts c h = Inr rs"
    and "receiptHashesMatch rs (blk_Hash b)" "batchCoversTransactions (blk_Transactions b) rs"
  shows "\<forall>tx \<in> set (blk_Transactions b). \<exists>r. Some r \<in> set rs \<and> rc_TransactionHash r = tx_Hash tx"
    and "Some r \<in> set rs \<Longrightarrow> rc_BlockHash r = blk_Hash b" "None \<notin> set rs"
proof -
  have B: "block_hashes_lower b" and R: "\<And>r. Some r \<in> set rs \<Longrightarrow> receipt_lower r"
    using assms(1-3) unfolding receipt_contract_def by blast+
  show "\<forall>tx \<in> set (blk_Transactions b). \<exists>r. Some r \<in> set rs \<and> rc_TransactionHash r = tx_Hash tx"
  proof
    fix tx assume tx: "tx \<in> set (blk_Transactions b)"
    then obtain r where "Some r \<in> set rs" "to_lower (tx_Hash tx) = to_lower (rc_TransactionHash r)"
      using assms(5) by (auto simp: batchCoversTransactions_def list_all_iff split: option.splits)
    then show "\<exists>r. Some r \<in> set rs \<and> rc_TransactionHash r = tx_Hash tx"
      using B R tx by (auto simp: block_hashes_lower_def receipt_lower_def list_all_iff)
  qed
  show "None \<notin> set rs" using assms(4) by (auto simp: receiptHashesMatch_def list_all_iff)
  show "rc_BlockHash r = blk_Hash b" if r: "Some r \<in> set rs"
    using assms(4) r R [OF r] B lower_equal_fold
    by (auto simp: receiptHashesMatch_def list_all_iff receipt_lower_def block_hashes_lower_def)
qed

text \<open>C33: a fetched block is complete and of one branch. Over a connected Ethereum client, a fetch that succeeds
  returns a bundle in which every receipt belongs to the fetched block, and every transaction carries the
  status, gas and price of a receipt with its own hash: no transaction keeps the default outcome, and no
  receipt of another branch gets in, on the batch path as well as on the fallback.\<close>

theorem FetchBlock_complete:
  assumes "geth_laws g" "getPreferredClient c = Some cl" "node_laws cl"
    and "FetchBlock ctxErr ab (NewEvmFetcher (ethereum_rpc g u c) workers) n = Returns (Inr raw)"
  shows "\<exists>b rs. raw = RawBundle (Some \<lparr>bdl_Block = Some b, bdl_Transactions = map Some (blk_Transactions b), bdl_Receipts = rs\<rparr>)
    \<and> None \<notin> set rs \<and> (\<forall>r. Some r \<in> set rs \<longrightarrow> rc_BlockHash r = blk_Hash b)
    \<and> (\<forall>tx \<in> set (blk_Transactions b). executed_in b rs tx)"
proof -
  let ?c = "ethereum_rpc g u c"
  have K: "receipt_contract ?c" using assms(1-3) by (intro ethereum_contract) auto
  obtain b0 b rs where b0: "rpc_BlockByNumber ?c n = Inr (Some b0)" and f: "fetchTransactionsAndReceipts ?c ab b0 n = Inr (b, rs)"
    and raw: "raw = RawBundle (Some \<lparr>bdl_Block = Some b, bdl_Transactions = map Some (blk_Transactions b), bdl_Receipts = rs\<rparr>)"
    using assms(4) by (auto simp: FetchBlock_def NewEvmFetcher_def fetchBlock_def split: option.splits sum.splits prod.splits)
  have b: "b = b0\<lparr>blk_Transactions := mergeReceiptsOntoTransactions (blk_Transactions b0) rs\<rparr>"
    using f by (auto simp: fetchTransactionsAndReceipts_def Let_def split: sum.splits if_splits)
  have ok: "(\<forall>tx \<in> set (blk_Transactions b0). \<exists>r. Some r \<in> set rs \<and> rc_TransactionHash r = tx_Hash tx) \<and> None \<notin> set rs
    \<and> (\<forall>r. Some r \<in> set rs \<longrightarrow> rc_BlockHash r = blk_Hash b0)"
  proof (cases "rpc_BlockReceipts ?c (blk_Hash b0) = Inr rs \<and> receiptHashesMatch rs (blk_Hash b0) \<and> batchCoversTransactions (blk_Transactions b0) rs")
    case True
    then show ?thesis using batch_accepted [OF K b0, of "blk_Hash b0" rs] by blast
  next
    case False
    then have rs: "rs = fetchReceiptsIndividually ?c ab b0" "filter (\<lambda>r. r = None) (fetchReceiptsIndividually ?c ab b0) = []"
      using f by (auto simp: fetchTransactionsAndReceipts_def Let_def split: sum.splits if_splits)
    then show ?thesis using slots_filled [OF K b0 rs(2)] by (auto simp: filter_empty_conv)
  qed
  have "executed_in b rs tx" if "tx \<in> set (blk_Transactions b)" for tx
    using merge_complete [of "blk_Transactions b0" rs b tx] ok that by (simp add: b)
  then show ?thesis using raw ok b by (intro exI [of _ b] exI [of _ rs]) simp
qed

text \<open>A node with one block of one transaction. Its batch request fails, so the receipt comes from the fallback.\<close>

definition sample_geth :: geth_lib where
  "sample_geth = \<lparr>HashHex = \<lambda>h. ''0x'' @ hex_encode h, AddressHex = \<lambda>a. ''0x'' @ hex_encode a, Bytes2Hex = hex_encode,
     HexToHash = \<lambda>s. case hex_decode (drop 2 s) of Inl _ \<Rightarrow> replicate 32 0 | Inr bs \<Rightarrow> bs,
     Sender = \<lambda>_ _. Inr (replicate 20 1)\<rparr>"

definition sample_url :: url_lib where
  "sample_url = \<lparr>url_Parse = \<lambda>_. None, as_url_error = \<lambda>_. None\<rparr>"

definition sample_tx :: gethTx where
  "sample_tx = \<lparr>gt_Hash = replicate 32 2, gt_Type = 0, gt_ChainId = None, gt_To = None, gt_Value = 0, gt_Gas = 21000,
     gt_GasPrice = 1, gt_GasFeeCap = 1, gt_GasTipCap = 1, gt_Data = [], gt_Nonce = 0, gt_AccessList = [], gt_V = None,
     gt_R = None, gt_S = None\<rparr>"

definition sample_block :: gethBlock where
  "sample_block = \<lparr>gb_Hash = replicate 32 3, gb_Number = 7, gb_Time = 0, gb_ParentHash = replicate 32 4, gb_Difficulty = 0,
     gb_GasUsed = 0, gb_GasLimit = 0, gb_BaseFee = None, gb_Nonce = 0, gb_Coinbase = replicate 20 0, gb_Size = 0,
     gb_Root = [], gb_UncleHash = [], gb_TxHash = [], gb_ReceiptHash = [], gb_Bloom = [], gb_Extra = [], gb_MixDigest = [],
     gb_Uncles = [], gb_Transactions = [sample_tx]\<rparr>"

definition sample_receipt :: gethReceipt where
  "sample_receipt = \<lparr>gr_TxHash = replicate 32 2, gr_TransactionIndex = 0, gr_BlockHash = replicate 32 3, gr_BlockNumber = Some 7,
     gr_CumulativeGasUsed = 21000, gr_GasUsed = 21000, gr_EffectiveGasPrice = Some 1, gr_ContractAddress = replicate 20 0,
     gr_Logs = [], gr_PostState = [], gr_Status = 0\<rparr>"

definition sample_node :: ethclient where
  "sample_node = \<lparr>BlockByNumber = \<lambda>n. if n = 7 then Inr (Some sample_block) else Inr None, HeaderByHash = \<lambda>_. Inr None,
     HeaderByNumber = \<lambda>_. Inr None, NetworkID = Inr 1,
     TransactionReceiptOf = \<lambda>h. if h = replicate 32 2 then Inr (Some sample_receipt) else Inr None,
     BlockReceipts = \<lambda>_. Inl (ErrMsg ''method not found'')\<rparr>"

definition sample_client :: EthereumClient where
  "sample_client = \<lparr>httpClient = Some sample_node, wsClient = None, ec_nodeURL = ''http://node'', ec_wsURL = [], ec_apiKey = [],
     ec_apiKeyHeader = []\<rparr>"

lemma lower_hex_text: "to_lower (''0x'' @ hex_encode h) = ''0x'' @ hex_encode h"
proof -
  have "to_lower (hex_byte w) = hex_byte w" for w
  proof -
    have "list_all (\<lambda>d. lower_char (digit_char d) = digit_char d) [0..<16]" by code_simp
    then have "lower_char (digit_char d) = digit_char d" if "d < 16" for d using that by (simp add: list_all_iff)
    then show ?thesis by (simp add: hex_byte_def to_lower_def)
  qed
  then have "to_lower (hex_encode h) = hex_encode h" by (induction h) (simp_all add: hex_encode_def to_lower_def)
  moreover have "to_lower ''0x'' = ''0x''" by code_simp
  ultimately show ?thesis by (simp only: to_lower_append)
qed

lemma sample_laws: "geth_laws sample_geth" "node_laws sample_node" "getPreferredClient sample_client = Some sample_node"
  using lower_hex_text
  by (auto simp: geth_laws_def sample_geth_def node_laws_def sample_node_def sample_client_def getPreferredClient_def
      sample_block_def sample_tx_def sample_receipt_def split: if_splits)

lemma sample_fetch:
  "\<exists>raw. FetchBlock None (\<lambda>_. False) (NewEvmFetcher (ethereum_rpc sample_geth sample_url sample_client) 4) 7 = Returns (Inr raw)"
  by (simp add: FetchBlock_def NewEvmFetcher_def fetchBlock_def ethereum_rpc_def GetBlockByNumber_def sample_laws(3)
      sample_node_def sample_block_def sample_receipt_def convertGethBlock_def fetchTransactionsAndReceipts_def Let_def
      GetBlockReceipts_def fetchReceiptsIndividually_def receipt_slot_def GetTransactionReceipt_def sample_geth_def
      convertTransaction_def sample_tx_def convertGethReceipt_def equal_fold_def)

theorem FetchBlock_complete_witness:
  "\<exists>b rs. FetchBlock None (\<lambda>_. False) (NewEvmFetcher (ethereum_rpc sample_geth sample_url sample_client) 4) 7
      = Returns (Inr (RawBundle (Some \<lparr>bdl_Block = Some b, bdl_Transactions = map Some (blk_Transactions b), bdl_Receipts = rs\<rparr>)))
    \<and> None \<notin> set rs \<and> (\<forall>r. Some r \<in> set rs \<longrightarrow> rc_BlockHash r = blk_Hash b)
    \<and> (\<forall>tx \<in> set (blk_Transactions b). executed_in b rs tx)"
proof -
  obtain raw where raw: "FetchBlock None (\<lambda>_. False) (NewEvmFetcher (ethereum_rpc sample_geth sample_url sample_client) 4) 7 = Returns (Inr raw)"
    using sample_fetch by blast
  show ?thesis using FetchBlock_complete [OF sample_laws(1,3,2) raw] raw by auto
qed

end
