(* ===== verification/Snapshot_Sign.thy ===== *)
theory Snapshot_Sign
  imports Evm_Fetcher Block_Handler
begin

text \<open>
  Files \<open>pkg/snapshot/signing.go\<close> and \<open>pkg/snapshot/verify.go\<close>: the Merkle root over the signature roots of
  a block range, its signature and the document that holds it, and the verification of a snapshot file.

  Cryptography is an argument: \<open>sha\<close> is \<open>sha256.Sum256\<close>, the signing identity is the record of
  \<open>Block_Handler\<close> and \<open>crypto_lib\<close> reads public keys. The codecs of the standard library that files pass
  through (\<open>compress/gzip\<close>, \<open>encoding/json\<close>) are the record \<open>codecs\<close>; the contents of files are bytes.
\<close>

section \<open>Model\<close>

record SnapshotSignatureData =
  ss_Version :: int
  ss_SnapshotFile :: string
  ss_StartBlock :: height
  ss_EndBlock :: height
  ss_MerkleRoot :: string
  ss_BlockCount :: int
  ss_SignatureType :: string
  ss_SignatureIdentity :: string
  ss_SignatureValue :: string
  ss_CreatedAt :: string
  ss_BlockSigMerkleRoots :: "string list"

record kvSnapshotHeader =
  kh_Magic :: string
  kh_Version :: int
  kh_StartBlock :: height
  kh_EndBlock :: height
  kh_CreatedAt :: string
  kh_BlockSigMerkleRoots :: "string list"

text \<open>\<open>gunzip\<close> fails on data without a gzip header; otherwise it yields the data up to the end or up to a read
  error. \<open>json_entry\<close> decodes a line into its type and data, \<open>json_sig\<close> a sidecar, and the last two
  encode and decode the header of a snapshot.\<close>

record codecs =
  gzip :: "bytes \<Rightarrow> bytes"
  gunzip :: "bytes \<Rightarrow> (bytes \<times> goerror option) result"
  json_entry :: "bytes \<Rightarrow> (string \<times> doc option) result"
  json_sig :: "bytes \<Rightarrow> SnapshotSignatureData result"
  json_Marshal_header :: "kvSnapshotHeader \<Rightarrow> bytes result"
  json_Unmarshal_header :: "bytes \<Rightarrow> kvSnapshotHeader result"

subsection \<open>Merkle root\<close>

text \<open>One round over the hashes: neighbours are combined, a last one without neighbour moves up.\<close>

fun merkle_level :: "(bytes \<Rightarrow> bytes) \<Rightarrow> bytes list \<Rightarrow> bytes list" where
  "merkle_level sha (a # b # hs) = sha (a @ b) # merkle_level sha hs"
| "merkle_level sha hs = hs"

lemma length_merkle_level: "length (merkle_level sha hs) = (length hs + 1) div 2"
  by (induction sha hs rule: merkle_level.induct) auto

function merkle_up :: "(bytes \<Rightarrow> bytes) \<Rightarrow> bytes list \<Rightarrow> bytes list" where
  "merkle_up sha hs = (if length hs > 1 then merkle_up sha (merkle_level sha hs) else hs)"
  by pat_completeness auto
termination
  by (relation "measure (\<lambda>(sha, hs). length hs)") (auto simp: length_merkle_level)

declare merkle_up.simps [simp del]

definition ComputeSnapshotMerkleRoot :: "(bytes \<Rightarrow> bytes) \<Rightarrow> bytes list \<Rightarrow> bytes option" where
  "ComputeSnapshotMerkleRoot sha blockSigMerkleRoots =
     (if blockSigMerkleRoots = [] then None else Some (hd (merkle_up sha (map sha blockSigMerkleRoots))))"

subsection \<open>Signing\<close>

definition roots_query :: "string \<Rightarrow> height \<Rightarrow> height \<Rightarrow> string" where
  "roots_query blockSigCol startBlock endBlock = ''query { '' @ blockSigCol @ ''(filter: {blockNumber: {_geq: '' @ itoa startBlock
     @ '', _leq: '' @ itoa endBlock @ ''}}, order: {blockNumber: ASC}) { merkleRoot } }''"

text \<open>The root of a signature document or of a line of a file; missing and malformed ones are skipped.\<close>

definition root_of :: "doc \<Rightarrow> bytes option" where
  "root_of d = (case as_string (mget d ''merkleRoot'') of None \<Rightarrow> None
     | Some mrStr \<Rightarrow> if mrStr = [] then None else case hex_decode mrStr of Inl _ \<Rightarrow> None | Inr b \<Rightarrow> Some b)"

definition getBlockSigMerkleRoots :: "exec_request \<Rightarrow> string \<Rightarrow> height \<Rightarrow> height \<Rightarrow> (bytes list \<times> nat) result" where
  "getBlockSigMerkleRoots exec blockSigCol startBlock endBlock = (let res = exec (roots_query blockSigCol startBlock endBlock) in
     case gql_Errors res of
       e # _ \<Rightarrow> Inl (Wrapped ''query block signatures: '' e [])
     | [] \<Rightarrow> (case as_map (gql_Data res) of None \<Rightarrow> Inr ([], 0)
         | Some data \<Rightarrow> (let ds = maps_of (mget data blockSigCol) in Inr (List.map_filter root_of ds, length ds))))"

definition signMerkleRoot :: "signing_identity option \<Rightarrow> bytes \<Rightarrow> (string \<times> string \<times> bytes) result" where
  "signMerkleRoot ident merkleRoot = (case ident of
     None \<Rightarrow> Inl (ErrMsg ''no identity in context'')
   | Some i \<Rightarrow> if \<not> isFullIdentity i then Inl (ErrMsg ''identity is not a full identity (no private key)'')
       else (let sign = (\<lambda>sigType. case Sign i merkleRoot of
               Inl e \<Rightarrow> Inl (Wrapped ''sign merkle root: '' e []) | Inr v \<Rightarrow> Inr (sigType, publicKeyText i, v)) in
         case key_of i of
           KeyTypeSecp256k1 \<Rightarrow> sign ''ES256K''
         | KeyTypeEd25519 \<Rightarrow> sign ''Ed25519''
         | KeyTypeOther t \<Rightarrow> Inl (ErrMsg (''unsupported key type: '' @ t))))"

definition signature_doc :: "SnapshotSignatureData \<Rightarrow> doc" where
  "signature_doc sig = [''startBlock'' \<mapsto> AInt64 (ss_StartBlock sig), ''endBlock'' \<mapsto> AInt64 (ss_EndBlock sig),
     ''merkleRoot'' \<mapsto> AString (ss_MerkleRoot sig), ''blockCount'' \<mapsto> AInt (ss_BlockCount sig),
     ''signatureType'' \<mapsto> AString (ss_SignatureType sig), ''signatureIdentity'' \<mapsto> AString (ss_SignatureIdentity sig),
     ''signatureValue'' \<mapsto> AString (ss_SignatureValue sig), ''snapshotFile'' \<mapsto> AString (ss_SnapshotFile sig),
     ''createdAt'' \<mapsto> AString (ss_CreatedAt sig), ''blockSigMerkleRoots'' \<mapsto> AStrings (ss_BlockSigMerkleRoots sig)]"

definition createSnapshotSignatureDoc ::
  "'w blockDB \<Rightarrow> string \<Rightarrow> SnapshotSignatureData \<Rightarrow> 'w \<Rightarrow> 'w \<times> goerror option" where
  "createSnapshotSignatureDoc d snapshotSigCol sig w = (case NewTxn d w of
     (w, Some e) \<Rightarrow> (w, Some (Wrapped ''new txn: '' e []))
   | (w, None) \<Rightarrow> (case GetCollectionByName d w snapshotSigCol of
       Some e \<Rightarrow> (w, Some (Wrapped ''get collection: '' e []))
     | None \<Rightarrow> (let data = signature_doc sig in case NewDocFromMap d snapshotSigCol data of
         Some e \<Rightarrow> (w, Some (Wrapped ''create doc from map: '' e []))
       | None \<Rightarrow> (case AddDocument d w [] snapshotSigCol data of
           (Some e, _) \<Rightarrow> (w, Some (Wrapped ''create doc: '' e []))
         | (None, _) \<Rightarrow> (case Commit d w [(snapshotSigCol, data)] of
             (w, Some e) \<Rightarrow> (w, Some (Wrapped ''commit: '' e [])) | (w, None) \<Rightarrow> (w, None))))))"

definition signature_data ::
  "string \<Rightarrow> height \<Rightarrow> height \<Rightarrow> bytes \<Rightarrow> int \<Rightarrow> string \<Rightarrow> bytes list \<Rightarrow> string \<times> string \<times> bytes \<Rightarrow> SnapshotSignatureData" where
  "signature_data snapshotFilename startBlock endBlock snapshotRoot blockCount createdAt roots signedBy =
     (case signedBy of (sigType, sigIdentity, sigValue) \<Rightarrow>
      \<lparr>ss_Version = 1, ss_SnapshotFile = snapshotFilename, ss_StartBlock = startBlock, ss_EndBlock = endBlock,
       ss_MerkleRoot = hex_encode snapshotRoot, ss_BlockCount = blockCount, ss_SignatureType = sigType,
       ss_SignatureIdentity = sigIdentity, ss_SignatureValue = hex_encode sigValue, ss_CreatedAt = createdAt,
       ss_BlockSigMerkleRoots = map hex_encode roots\<rparr>)"

text \<open>The log line at the end slices the root and the identity to 16 characters, which panics on a shorter text.\<close>

definition signSnapshotWithRoots ::
  "(bytes \<Rightarrow> bytes) \<Rightarrow> signing_identity option \<Rightarrow> 'w blockDB \<Rightarrow> string \<Rightarrow> string \<Rightarrow> string \<Rightarrow> height \<Rightarrow> height \<Rightarrow> bytes list \<Rightarrow> int \<Rightarrow>
   'w \<Rightarrow> ('w \<times> goerror option) outcome" where
  "signSnapshotWithRoots sha ident d snapshotSigCol createdAt snapshotFilename startBlock endBlock roots blockCount w =
     (case ComputeSnapshotMerkleRoot sha roots of
        None \<Rightarrow> Returns (w, None)
      | Some snapshotRoot \<Rightarrow> (case signMerkleRoot ident snapshotRoot of
          Inl _ \<Rightarrow> Returns (w, None)
        | Inr signedBy \<Rightarrow>
            (let sig = signature_data snapshotFilename startBlock endBlock snapshotRoot blockCount createdAt roots signedBy;
                 (w, _) = createSnapshotSignatureDoc d snapshotSigCol sig w in
             if length (ss_MerkleRoot sig) < 16 \<or> length (ss_SignatureIdentity sig) < 16 then Panics else Returns (w, None))))"

subsection \<open>Reading signatures back\<close>

definition signatures_query :: "string \<Rightarrow> string" where
  "signatures_query col = ''query { '' @ col @ '' { startBlock endBlock merkleRoot blockCount signatureType signatureIdentity ''
     @ ''signatureValue snapshotFile createdAt blockSigMerkleRoots } }''"

definition fetchSnapshotSignatureDocs :: "exec_request \<Rightarrow> string \<Rightarrow> doc list result" where
  "fetchSnapshotSignatureDocs exec col = (let res = exec (signatures_query col) in
     case gql_Errors res of
       e # _ \<Rightarrow> Inl (Wrapped ''query snapshot signatures: '' e [])
     | [] \<Rightarrow> (case as_map (gql_Data res) of None \<Rightarrow> Inr [] | Some data \<Rightarrow> Inr (maps_of (mget data col))))"

definition parseBlockSigMerkleRoots :: "any \<Rightarrow> string list" where
  "parseBlockSigMerkleRoots raw = (case raw of ASlice typed \<Rightarrow> List.map_filter as_string typed | AStrings typed \<Rightarrow> typed | _ \<Rightarrow> [])"

definition int64_or_zero :: "any \<Rightarrow> int" where
  "int64_or_zero v = (case v of AInt64 n \<Rightarrow> n | _ \<Rightarrow> 0)"

definition parseSnapshotSignatureDoc :: "doc \<Rightarrow> SnapshotSignatureData" where
  "parseSnapshotSignatureDoc d = \<lparr>ss_Version = 1, ss_SnapshotFile = string_or_empty (mget d ''snapshotFile''),
     ss_StartBlock = int64_or_zero (mget d ''startBlock''), ss_EndBlock = int64_or_zero (mget d ''endBlock''),
     ss_MerkleRoot = string_or_empty (mget d ''merkleRoot''), ss_BlockCount = int64_or_zero (mget d ''blockCount''),
     ss_SignatureType = string_or_empty (mget d ''signatureType''), ss_SignatureIdentity = string_or_empty (mget d ''signatureIdentity''),
     ss_SignatureValue = string_or_empty (mget d ''signatureValue''), ss_CreatedAt = string_or_empty (mget d ''createdAt''),
     ss_BlockSigMerkleRoots = parseBlockSigMerkleRoots (mget d ''blockSigMerkleRoots'')\<rparr>"

text \<open>A nil map reads like an empty one.\<close>

definition QuerySnapshotSignatures :: "exec_request \<Rightarrow> string \<Rightarrow> (string \<Rightarrow> SnapshotSignatureData option) result" where
  "QuerySnapshotSignatures exec col = (if col = [] then Inr (\<lambda>_. None)
     else case fetchSnapshotSignatureDocs exec col of Inl e \<Rightarrow> Inl e
     | Inr ds \<Rightarrow> Inr (fold (\<lambda>d m. let sig = parseSnapshotSignatureDoc d in
         if ss_SnapshotFile sig \<noteq> [] then m(ss_SnapshotFile sig \<mapsto> sig) else m) ds (\<lambda>_. None)))"

subsection \<open>Verification\<close>

record VerifyResult =
  vr_Valid :: bool
  vr_SnapshotFile :: string
  vr_StartBlock :: height
  vr_EndBlock :: height
  vr_BlockCount :: int
  vr_BlockSigsFound :: nat
  vr_MerkleRootMatch :: bool
  vr_SignatureValid :: bool
  vr_SignerIdentity :: string
  vr_Error :: string

text \<open>A public key read from its text is its \<open>Verify\<close> method.\<close>

record crypto_lib =
  PublicKeyFromString :: "key_type \<Rightarrow> string \<Rightarrow> (bytes \<Rightarrow> bytes \<Rightarrow> bool result) result"

definition resolveKeyType :: "string \<Rightarrow> key_type result" where
  "resolveKeyType sigType = (if sigType = ''ES256K'' \<or> sigType = ''ecdsa-256k'' then Inr KeyTypeSecp256k1
     else if sigType = ''Ed25519'' \<or> sigType = to_lower ''Ed25519'' then Inr KeyTypeEd25519
     else Inl (ErrMsg ''unsupported signature type''))"

text \<open>\<open>bufio.ScanLines\<close>: lines end at a line feed, a carriage return before it is dropped, and an unfinished last
  line counts. A line that fills the buffer of 10 MB is an error.\<close>

definition drop_cr :: "bytes \<Rightarrow> bytes" where
  "drop_cr l = (if l \<noteq> [] \<and> last l = 13 then butlast l else l)"

fun raw_lines :: "bytes \<Rightarrow> bytes \<Rightarrow> bytes list" where
  "raw_lines cur [] = (if cur = [] then [] else [cur])"
| "raw_lines cur (b # bs) = (if b = 10 then cur # raw_lines [] bs else raw_lines (cur @ [b]) bs)"

definition scan_lines :: "bytes \<Rightarrow> goerror option \<Rightarrow> bytes list \<times> goerror option" where
  "scan_lines content readErr = (let ls = raw_lines [] content; fits = (\<lambda>l. length l < 10 * 1024 * 1024) in
     (map drop_cr (takeWhile fits ls), if list_all fits ls then readErr else Some (Sentinel ''bufio.Scanner: token too long'')))"

definition entry_root :: "codecs \<Rightarrow> bytes \<Rightarrow> bytes option" where
  "entry_root k line = (case json_entry k line of Inl _ \<Rightarrow> None
     | Inr (t, data) \<Rightarrow> if t \<noteq> ''block_signature'' then None else case data of None \<Rightarrow> None | Some d \<Rightarrow> root_of d)"

definition open_file :: "(string \<Rightarrow> bytes option) \<Rightarrow> string \<Rightarrow> bytes result" where
  "open_file fs p = (case fs p of None \<Rightarrow> Inl (Sentinel ''file does not exist'') | Some b \<Rightarrow> Inr b)"

definition extractBlockSigMerkleRoots :: "codecs \<Rightarrow> (string \<Rightarrow> bytes option) \<Rightarrow> string \<Rightarrow> bytes list result" where
  "extractBlockSigMerkleRoots k fs snapshotPath = (case open_file fs snapshotPath of
     Inl e \<Rightarrow> Inl (Wrapped ''open snapshot: '' e [])
   | Inr f \<Rightarrow> (case (if suffix ''.gz'' snapshotPath then gunzip k f else Inr (f, None)) of
       Inl e \<Rightarrow> Inl (Wrapped ''gzip reader: '' e [])
     | Inr (content, readErr) \<Rightarrow> (case scan_lines content readErr of
         (_, Some e) \<Rightarrow> Inl (Wrapped ''read snapshot: '' e [])
       | (ls, None) \<Rightarrow> Inr (List.map_filter (entry_root k) ls))))"

text \<open>The checks write their findings into the result; the first returns no error.\<close>

definition verifyMerkleRoot ::
  "codecs \<Rightarrow> (bytes \<Rightarrow> bytes) \<Rightarrow> (string \<Rightarrow> bytes option) \<Rightarrow> string \<Rightarrow> SnapshotSignatureData \<Rightarrow> VerifyResult \<Rightarrow> VerifyResult" where
  "verifyMerkleRoot k sha fs snapshotPath sig r = (case extractBlockSigMerkleRoots k fs snapshotPath of
     Inl e \<Rightarrow> r\<lparr>vr_Error := ''extract block sig roots: '' @ error_text e\<rparr>
   | Inr roots \<Rightarrow> (let r = r\<lparr>vr_BlockSigsFound := length roots\<rparr> in
       case ComputeSnapshotMerkleRoot sha roots of
         None \<Rightarrow> r\<lparr>vr_Error := ''no block signatures found in snapshot''\<rparr>
       | Some computedRoot \<Rightarrow> (let computedRootHex = hex_encode computedRoot;
             r = r\<lparr>vr_MerkleRootMatch := (computedRootHex = ss_MerkleRoot sig)\<rparr> in
           if computedRootHex \<noteq> ss_MerkleRoot sig
           then r\<lparr>vr_Error := ''merkle root mismatch: computed '' @ computedRootHex @ '', expected '' @ ss_MerkleRoot sig\<rparr> else r)))"

definition verifyCryptoSignature :: "crypto_lib \<Rightarrow> SnapshotSignatureData \<Rightarrow> VerifyResult \<Rightarrow> VerifyResult \<times> goerror option" where
  "verifyCryptoSignature cr sig r = (case hex_decode (ss_MerkleRoot sig) of
     Inl e \<Rightarrow> (r\<lparr>vr_Error := ''decode merkle root hex: '' @ error_text e\<rparr>, Some e)
   | Inr merkleRootBytes \<Rightarrow> (case hex_decode (ss_SignatureValue sig) of
       Inl e \<Rightarrow> (r\<lparr>vr_Error := ''decode signature hex: '' @ error_text e\<rparr>, None)
     | Inr sigValueBytes \<Rightarrow> (case resolveKeyType (ss_SignatureType sig) of
         Inl e \<Rightarrow> (r\<lparr>vr_Error := ''unsupported signature type: '' @ ss_SignatureType sig, vr_SignatureValid := False\<rparr>, Some e)
       | Inr keyType \<Rightarrow> (case PublicKeyFromString cr keyType (ss_SignatureIdentity sig) of
           Inl e \<Rightarrow> (r\<lparr>vr_Error := ''parse public key: '' @ error_text e, vr_SignatureValid := False\<rparr>, None)
         | Inr verify \<Rightarrow> (case verify merkleRootBytes sigValueBytes of
             Inl e \<Rightarrow> (r\<lparr>vr_Error := ''verify signature: '' @ error_text e, vr_SignatureValid := False\<rparr>, None)
           | Inr valid \<Rightarrow> (r\<lparr>vr_SignatureValid := valid\<rparr>, None))))))"

definition VerifySnapshotWithSig ::
  "codecs \<Rightarrow> (bytes \<Rightarrow> bytes) \<Rightarrow> crypto_lib \<Rightarrow> (string \<Rightarrow> bytes option) \<Rightarrow> string \<Rightarrow> SnapshotSignatureData \<Rightarrow>
   VerifyResult \<times> goerror option" where
  "VerifySnapshotWithSig k sha cr fs snapshotPath sig =
     (let r0 = \<lparr>vr_Valid = False, vr_SnapshotFile = ss_SnapshotFile sig, vr_StartBlock = ss_StartBlock sig,
            vr_EndBlock = ss_EndBlock sig, vr_BlockCount = ss_BlockCount sig, vr_BlockSigsFound = 0, vr_MerkleRootMatch = False,
            vr_SignatureValid = False, vr_SignerIdentity = ss_SignatureIdentity sig, vr_Error = []\<rparr>;
          r1 = verifyMerkleRoot k sha fs snapshotPath sig r0 in
      if vr_Error r1 \<noteq> [] then (r1, None)
      else case verifyCryptoSignature cr sig r1 of (r2, err) \<Rightarrow>
        if err \<noteq> None \<or> vr_Error r2 \<noteq> [] then (r2, err)
        else let r3 = r2\<lparr>vr_Valid := (vr_MerkleRootMatch r2 \<and> vr_SignatureValid r2)\<rparr> in
          (if \<not> vr_Valid r3 \<and> vr_Error r3 = [] then r3\<lparr>vr_Error := ''signature verification failed''\<rparr> else r3, None))"

definition trim_suffix :: "string \<Rightarrow> string \<Rightarrow> string" where
  "trim_suffix s suf = (if suffix suf s then take (length s - length suf) s else s)"

definition VerifySnapshot ::
  "codecs \<Rightarrow> (bytes \<Rightarrow> bytes) \<Rightarrow> crypto_lib \<Rightarrow> (string \<Rightarrow> bytes option) \<Rightarrow> string \<Rightarrow> VerifyResult option \<times> goerror option" where
  "VerifySnapshot k sha cr fs snapshotPath = (let sigPath = trim_suffix snapshotPath ''.jsonl.gz'' @ ''.sig.json'' in
     case open_file fs sigPath of
       Inl e \<Rightarrow> (None, Some (Wrapped ''read signature file: '' e []))
     | Inr sigData \<Rightarrow> (case json_sig k sigData of
         Inl e \<Rightarrow> (None, Some (Wrapped ''parse signature file: '' e []))
       | Inr sig \<Rightarrow> (case VerifySnapshotWithSig k sha cr fs snapshotPath sig of (r, err) \<Rightarrow> (Some r, err))))"

end
