(* ===== verification/Snapshots.thy ===== *)
theory Snapshots
  imports Snapshot_Sign Pruner "HOL-Library.AList" "HOL-Library.Signed_Division"
begin

text \<open>
  Files \<open>pkg/snapshot/snapshot.go\<close>, \<open>kv_snapshot.go\<close>, \<open>kv_restore.go\<close> and \<open>purge.go\<close>: the snapshotter with its
  directory, the choice of the next range, the export to a file that appears under its name by a rename, the
  import of such a file, and the limit on the number of files.

  The directory \<open>cfg.Dir\<close> is an association list from base names to files. The database is the record
  \<open>snapDB\<close>: the calls of the block handler and of the pruner, and the raw export and import of key-value
  pairs. Each cycle is given its I/O failures in a record \<open>snap_io\<close>.
\<close>

section \<open>Paths and names\<close>

text \<open>\<open>strings.Split\<close> on one character, \<open>filepath.Base\<close>, \<open>filepath.Clean\<close> and \<open>filepath.Join\<close> of two parts.\<close>

fun split_char :: "char \<Rightarrow> string \<Rightarrow> string list" where
  "split_char c [] = [[]]"
| "split_char c (d # ds) = (if d = c then [] # split_char c ds
     else case split_char c ds of p # ps \<Rightarrow> (d # p) # ps | [] \<Rightarrow> [[d]])"

abbreviation (input) slash :: char where "slash \<equiv> CHR 0x2F"

definition filepath_Base :: "string \<Rightarrow> string" where
  "filepath_Base p = (if p = [] then ''.''
     else let q = dropWhile (\<lambda>c. c = slash) (rev p); b = rev (takeWhile (\<lambda>c. c \<noteq> slash) q) in if b = [] then [slash] else b)"

definition clean_step :: "bool \<Rightarrow> string \<Rightarrow> string list \<Rightarrow> string list" where
  "clean_step rooted c acc = (if c = [] \<or> c = ''.'' then acc
     else if c = ''..'' then (case acc of [] \<Rightarrow> if rooted then [] else [c] | t # ts \<Rightarrow> if t = ''..'' then c # acc else ts)
     else c # acc)"

definition filepath_Clean :: "string \<Rightarrow> string" where
  "filepath_Clean p = (if p = [] then ''.''
     else let rooted = (hd p = slash); body = join [slash] (rev (fold (clean_step rooted) (split_char slash p) [])) in
       if rooted then slash # body else if body = [] then ''.'' else body)"

definition filepath_Join :: "string \<Rightarrow> string \<Rightarrow> string" where
  "filepath_Join dir name = (if dir = [] \<and> name = [] then [] else if dir = [] then filepath_Clean name
     else if name = [] then filepath_Clean dir else filepath_Clean (dir @ [slash] @ name))"

abbreviation (input) snap_prefix :: string where "snap_prefix \<equiv> ''snapshot_''"
abbreviation (input) snap_suffix :: string where "snap_suffix \<equiv> ''.kvsnap.gz''"

definition snapshot_name :: "height \<Rightarrow> height \<Rightarrow> string" where
  "snapshot_name startBlock endBlock = snap_prefix @ itoa startBlock @ ''_'' @ itoa endBlock @ snap_suffix"

text \<open>The pattern \<open>snapshot_*.kvsnap.gz\<close> on a base name.\<close>

definition snap_glob :: "string \<Rightarrow> bool" where
  "snap_glob n \<longleftrightarrow> prefix snap_prefix n \<and> suffix snap_suffix n \<and> length snap_prefix + length snap_suffix \<le> length n"

section \<open>State\<close>

record snap_file =
  sf_bytes :: bytes
  sf_mtime :: int

type_synonym snapdir = "(string \<times> snap_file) list"

record SnapshotInfo =
  si_Filename :: string
  si_StartBlock :: height
  si_EndBlock :: height
  si_SizeBytes :: int
  si_CreatedAt :: int

record Metrics =
  me_Enabled :: bool
  me_LastSnapshotBlock :: height
  me_TotalSnapshots :: int

record Snapshotter =
  sn_cfg :: SnapshotConfig
  sn_hasNode :: bool
  sn_blockSigCollection :: string
  sn_snapshotSigCollection :: string
  sn_identity :: "signing_identity option"
  lastSnapshotBlock :: height
  totalSnapshots :: int
  sn_stopClosed :: bool

text \<open>\<open>sw_Export\<close> returns the bytes that \<open>ExportDocKVs\<close> wrote and its count; \<open>sw_ImportRawKVs\<close> reads the rest of a
  stream, which may end in a read error.\<close>

record 'w snapDB =
  sw_block :: "'w blockDB"
  sw_prune :: "'w prunerDB"
  sw_Export :: "'w \<Rightarrow> string \<Rightarrow> docID list \<Rightarrow> (bytes \<times> int) result"
  sw_ImportRawKVs :: "'w \<Rightarrow> bytes \<times> goerror option \<Rightarrow> 'w \<times> int result"
  sw_RebuildIndexes :: "'w \<Rightarrow> string \<Rightarrow> 'w \<times> goerror option"

text \<open>The failures of one cycle: of each write to the gzip writer by its number, of the removal and of the
  \<open>Stat\<close> of a file by its name. \<open>io_partial\<close> is what an abandoned temporary file holds.\<close>

record snap_io =
  io_ctx :: "goerror option"
  io_create :: "goerror option"
  io_write :: "nat \<Rightarrow> goerror option"
  io_gzclose :: "goerror option"
  io_close :: "goerror option"
  io_rename :: "goerror option"
  io_remove :: "string \<Rightarrow> goerror option"
  io_stat :: "string \<Rightarrow> bool"
  io_partial :: bytes
  io_mtime :: int
  io_headerTime :: string
  io_signTime :: string

definition NewSnapshotter :: "SnapshotConfig \<Rightarrow> bool \<Rightarrow> (string \<times> string) option \<Rightarrow> signing_identity option \<Rightarrow> Snapshotter" where
  "NewSnapshotter c hasNode names ident = \<lparr>sn_cfg = c, sn_hasNode = hasNode,
     sn_blockSigCollection = (case names of Some (b, _) \<Rightarrow> b | None \<Rightarrow> []),
     sn_snapshotSigCollection = (case names of Some (_, s) \<Rightarrow> s | None \<Rightarrow> []), sn_identity = ident,
     lastSnapshotBlock = 0, totalSnapshots = 0, sn_stopClosed = False\<rparr>"

definition snapshotMetrics :: "Snapshotter \<Rightarrow> Metrics" where
  "snapshotMetrics s = \<lparr>me_Enabled = sc_Enabled (sn_cfg s), me_LastSnapshotBlock = lastSnapshotBlock s,
     me_TotalSnapshots = totalSnapshots s\<rparr>"

section \<open>The directory\<close>

definition Glob :: "snapdir \<Rightarrow> string list" where
  "Glob d = sort (filter snap_glob (map fst d))"

definition name_range :: "string \<Rightarrow> (string \<times> string) option" where
  "name_range base = (case split_char (CHR ''_'') (trim_suffix base snap_suffix) of
     [_, a, b] \<Rightarrow> Some (a, b) | _ \<Rightarrow> None)"

definition snapshot_info :: "snap_io \<Rightarrow> snapdir \<Rightarrow> string \<Rightarrow> SnapshotInfo option" where
  "snapshot_info io d base = (case name_range base of None \<Rightarrow> None
     | Some (a, b) \<Rightarrow> (case (ParseInt a 10, ParseInt b 10) of
         ((s, None), (e, None)) \<Rightarrow> (if io_stat io base then None else case map_of d base of None \<Rightarrow> None
           | Some f \<Rightarrow> Some \<lparr>si_Filename = base, si_StartBlock = s, si_EndBlock = e, si_SizeBytes = int (length (sf_bytes f)),
               si_CreatedAt = sf_mtime f\<rparr>)
       | _ \<Rightarrow> None))"

text \<open>\<open>srt\<close> is \<open>sort.Slice\<close> by start block.\<close>

definition ListSnapshots :: "(SnapshotInfo list \<Rightarrow> SnapshotInfo list) \<Rightarrow> snap_io \<Rightarrow> snapdir \<Rightarrow> SnapshotInfo list" where
  "ListSnapshots srt io d = srt (List.map_filter (snapshot_info io d) (Glob d))"

definition GetSnapshotPath :: "(string \<Rightarrow> bool) \<Rightarrow> Snapshotter \<Rightarrow> string \<Rightarrow> string" where
  "GetSnapshotPath exists s filename = (if filepath_Base filename \<noteq> filename then []
     else let p = filepath_Join (sc_Dir (sn_cfg s)) filename in if exists p then p else [])"

definition scanExisting :: "snapdir \<Rightarrow> Snapshotter \<Rightarrow> Snapshotter" where
  "scanExisting d s = (let files = Glob d;
       highest = fold (\<lambda>base hi. case name_range base of None \<Rightarrow> hi
         | Some (_, b) \<Rightarrow> (case ParseInt b 10 of (end, None) \<Rightarrow> if end > hi then end else hi | _ \<Rightarrow> hi)) files 0 in
     s\<lparr>lastSnapshotBlock := highest, totalSnapshots := int (length files)\<rparr>)"

section \<open>Retention\<close>

definition docIDs_query :: "string \<Rightarrow> string \<Rightarrow> string" where
  "docIDs_query col filename = ''query { '' @ col @ ''(filter: {snapshotFile: {_eq: '' @ quoted filename @ ''}}) { _docID } }''"

definition querySnapshotSignatureDocIDs :: "exec_request \<Rightarrow> string \<Rightarrow> string \<Rightarrow> docID list result" where
  "querySnapshotSignatureDocIDs exec col filename = (let res = exec (docIDs_query col filename) in
     case gql_Errors res of
       e # _ \<Rightarrow> Inl (Wrapped ''query snapshot signature docIDs: '' e [])
     | [] \<Rightarrow> (case as_map (gql_Data res) of None \<Rightarrow> Inr []
         | Some data \<Rightarrow> Inr (List.map_filter (\<lambda>m. as_string (mget m ''_docID'')) (maps_of (mget data col)))))"

definition deleteSnapshotSignatureDoc :: "'w prunerDB \<Rightarrow> Snapshotter \<Rightarrow> string \<Rightarrow> 'w \<Rightarrow> 'w" where
  "deleteSnapshotSignatureDoc db s filename w = (let col = sn_snapshotSigCollection s in
     if \<not> sn_hasNode s \<or> col = [] then w
     else case querySnapshotSignatureDocIDs (pr_Exec db w) col filename of
       Inl _ \<Rightarrow> w
     | Inr docIDs \<Rightarrow> (let clientDocIDs = filter (\<lambda>i. NewDocIDFromString db i = None) docIDs in
         if clientDocIDs = [] then w
         else case pr_GetCollection db w col of Some _ \<Rightarrow> w
         | None \<Rightarrow> fst (PurgeByDocIDs db w col clientDocIDs False)))"

fun remove_expired ::
  "'w prunerDB \<Rightarrow> snap_io \<Rightarrow> Snapshotter \<Rightarrow> SnapshotInfo list \<Rightarrow> snapdir \<Rightarrow> 'w \<Rightarrow> goerror list \<Rightarrow> snapdir \<times> 'w \<times> goerror list" where
  "remove_expired db io s [] d w errs = (d, w, errs)"
| "remove_expired db io s (info # rest) d w errs = (let f = si_Filename info in
     case (case io_remove io f of Some e \<Rightarrow> Some e
       | None \<Rightarrow> if map_of d f = None then Some (Sentinel ''file does not exist'') else None) of
       Some e \<Rightarrow> remove_expired db io s rest d w (errs @ [e])
     | None \<Rightarrow> remove_expired db io s rest (AList.delete f d) (deleteSnapshotSignatureDoc db s f w) errs)"

definition enforceSnapshotLimit ::
  "(SnapshotInfo list \<Rightarrow> SnapshotInfo list) \<Rightarrow> 'w prunerDB \<Rightarrow> snap_io \<Rightarrow> Snapshotter \<Rightarrow> snapdir \<Rightarrow> 'w \<Rightarrow>
   Snapshotter \<times> snapdir \<times> 'w \<times> goerror option" where
  "enforceSnapshotLimit srt db io s d w = (let limit0 = MaxSnapshots (sn_cfg s) in
     if limit0 < 0 then (s, d, w, None)
     else let limit = (if limit0 = 0 then DefaultMaxSnapshots else limit0); infos = ListSnapshots srt io d in
       if int (length infos) \<le> limit then (s, d, w, None)
       else let expired = take (length infos - nat limit) infos in
         case remove_expired db io s expired d w [] of (d, w, errs) \<Rightarrow>
           (s\<lparr>totalSnapshots := int (length (Glob d))\<rparr>, d, w,
            case errs of [] \<Rightarrow> None | e # _ \<Rightarrow> Some (Wrapped (''snapshot purge: failed to remove '' @ itoa (int (length errs))
              @ '' of '' @ itoa (int (length expired)) @ '' expired file(s): '') e [])))"

section \<open>Writing a snapshot\<close>

text \<open>\<open>binary.BigEndian.PutUint32\<close> and \<open>Uint32\<close>.\<close>

definition be32 :: "nat \<Rightarrow> bytes" where
  "be32 n = map (\<lambda>i. word_of_nat (n div 256 ^ i mod 256)) [3, 2, 1, 0]"

definition be32_read :: "bytes \<Rightarrow> nat" where
  "be32_read bs = fold (\<lambda>b n. 256 * n + unat b) bs 0"

text \<open>\<open>ExportDocKVs\<close> ends its output with an end marker of four bytes, which is cut off.\<close>

definition strip_sentinel :: "bytes \<Rightarrow> bytes" where
  "strip_sentinel data = (if length data \<ge> 4 then take (length data - 4) data else data)"

fun export_each ::
  "'w snapDB \<Rightarrow> snap_io \<Rightarrow> 'w \<Rightarrow> (string \<times> docID list) list \<Rightarrow> string list \<Rightarrow> nat \<Rightarrow> bytes \<Rightarrow> int \<Rightarrow> (bytes \<times> nat \<times> int) result" where
  "export_each db io w m [] n out totalKVs = Inr (out, n, totalKVs)"
| "export_each db io w m (colName # rest) n out totalKVs =
     (case map_of m colName of
        None \<Rightarrow> export_each db io w m rest n out totalKVs
      | Some docIDs \<Rightarrow> if docIDs = [] then export_each db io w m rest n out totalKVs
          else case sw_Export db w colName docIDs of
            Inl e \<Rightarrow> Inl (Wrapped (''export KVs for '' @ colName @ '': '') e [])
          | Inr (data, k) \<Rightarrow> (case io_write io n of
              Some e \<Rightarrow> Inl (Wrapped (''write KVs for '' @ colName @ '': '') e [])
            | None \<Rightarrow> export_each db io w m rest (n + 1) (out @ strip_sentinel data) (totalKVs + k)))"

definition exportCollectionKVs ::
  "blockRanges option \<Rightarrow> 'w snapDB \<Rightarrow> snap_io \<Rightarrow> height \<Rightarrow> height \<Rightarrow> nat \<Rightarrow> 'w \<Rightarrow> (bytes \<times> nat \<times> int) result" where
  "exportCollectionKVs conv db io startBlock endBlock n w = (case conv of
     None \<Rightarrow> Inl (ErrMsg ''chain not initialized'')
   | Some c \<Rightarrow> (case DocIDsByRange c (pr_Exec (sw_prune db) w) startBlock endBlock of
       Inl e \<Rightarrow> Inl (Wrapped (''failed to get docIDs for blocks in range '' @ itoa startBlock @ ''-'' @ itoa endBlock @ '': '') e [])
     | Inr m \<Rightarrow> export_each db io w m (sort (map fst m)) n [] 0))"

definition writeKVSnapshotContents ::
  "codecs \<Rightarrow> blockRanges option \<Rightarrow> 'w snapDB \<Rightarrow> snap_io \<Rightarrow> string \<Rightarrow> height \<Rightarrow> height \<Rightarrow> 'w \<Rightarrow> (bytes \<times> bytes list) result" where
  "writeKVSnapshotContents k conv db io blockSigCol startBlock endBlock w = (case io_ctx io of
     Some e \<Rightarrow> Inl e
   | None \<Rightarrow> (let roots = (case getBlockSigMerkleRoots (pr_Exec (sw_prune db) w) blockSigCol startBlock endBlock of
            Inl _ \<Rightarrow> [] | Inr (rs, _) \<Rightarrow> rs);
          hdr = \<lparr>kh_Magic = ''DFKV'', kh_Version = 1, kh_StartBlock = startBlock, kh_EndBlock = endBlock,
            kh_CreatedAt = io_headerTime io, kh_BlockSigMerkleRoots = map hex_encode roots\<rparr> in
       case json_Marshal_header k hdr of
         Inl e \<Rightarrow> Inl (Wrapped ''marshal header: '' e [])
       | Inr headerBytes \<Rightarrow> (case io_write io 0 of Some e \<Rightarrow> Inl e
         | None \<Rightarrow> (case io_write io 1 of Some e \<Rightarrow> Inl e
           | None \<Rightarrow> (case exportCollectionKVs conv db io startBlock endBlock 2 w of Inl e \<Rightarrow> Inl e
             | Inr (kvs, n, _) \<Rightarrow> (case io_write io n of Some e \<Rightarrow> Inl e
               | None \<Rightarrow> Inr (be32 (length headerBytes) @ headerBytes @ kvs @ be32 0, roots)))))))"

definition writeKVSnapshotFile ::
  "codecs \<Rightarrow> blockRanges option \<Rightarrow> 'w snapDB \<Rightarrow> snap_io \<Rightarrow> string \<Rightarrow> string \<Rightarrow> height \<Rightarrow> height \<Rightarrow> snapdir \<Rightarrow> 'w \<Rightarrow>
   snapdir \<times> bytes list result" where
  "writeKVSnapshotFile k conv db io blockSigCol name startBlock endBlock d w =
     (let tmp = name @ ''.tmp'';
          abandon = (\<lambda>content. case io_remove io tmp of None \<Rightarrow> AList.delete tmp d
            | Some _ \<Rightarrow> AList.update tmp \<lparr>sf_bytes = content, sf_mtime = io_mtime io\<rparr> d) in
      case io_create io of Some e \<Rightarrow> (d, Inl (Wrapped ''create file: '' e []))
      | None \<Rightarrow> (case writeKVSnapshotContents k conv db io blockSigCol startBlock endBlock w of
          Inl e \<Rightarrow> (abandon (io_partial io), Inl e)
        | Inr (content, roots) \<Rightarrow> (case io_gzclose io of Some e \<Rightarrow> (abandon (io_partial io), Inl e)
          | None \<Rightarrow> (case io_close io of Some e \<Rightarrow> (abandon (io_partial io), Inl e)
            | None \<Rightarrow> (case io_rename io of Some e \<Rightarrow> (abandon (gzip k content), Inl e)
              | None \<Rightarrow> (AList.update name \<lparr>sf_bytes = gzip k content, sf_mtime = io_mtime io\<rparr> (AList.delete tmp d), Inr roots))))))"

definition createKVSnapshot ::
  "codecs \<Rightarrow> (bytes \<Rightarrow> bytes) \<Rightarrow> blockRanges option \<Rightarrow> 'w snapDB \<Rightarrow> snap_io \<Rightarrow> Snapshotter \<Rightarrow> height \<Rightarrow> height \<Rightarrow> snapdir \<Rightarrow> 'w \<Rightarrow>
   (snapdir \<times> 'w \<times> goerror option) outcome" where
  "createKVSnapshot k sha conv db io s startBlock endBlock d w = (let filename = snapshot_name startBlock endBlock in
     case writeKVSnapshotFile k conv db io (sn_blockSigCollection s) filename startBlock endBlock d w of
       (d, Inl e) \<Rightarrow> Returns (d, w, Some e)
     | (d, Inr roots) \<Rightarrow> (case signSnapshotWithRoots sha (sn_identity s) (sw_block db) (sn_snapshotSigCollection s) (io_signTime io)
           filename startBlock endBlock roots (int (length roots)) w of
         Panics \<Rightarrow> Panics
       | Returns (w, Some e) \<Rightarrow> Returns (d, w, Some (Wrapped (''snapshot signing failed for '' @ filename @ '': '') e []))
       | Returns (w, None) \<Rightarrow> Returns (d, w, None)))"

section \<open>A cycle\<close>

text \<open>Integer division truncates, and a division by zero panics.\<close>

definition align_up :: "int \<Rightarrow> int \<Rightarrow> int outcome" where
  "align_up bpf lowest = (if bpf = 0 then Panics else Returns (((lowest + bpf - 1) sdiv bpf) * bpf))"

definition nextSnapshotRange :: "SnapshotConfig \<Rightarrow> height \<Rightarrow> height \<Rightarrow> height \<Rightarrow> (height \<times> height) option outcome" where
  "nextSnapshotRange c lastSnapshot lowest highest = (let bpf = BlocksPerFile c in
     case (if lastSnapshot = 0 then align_up bpf lowest else Returns (lastSnapshot + 1)) of
       Panics \<Rightarrow> Panics
     | Returns start0 \<Rightarrow> (case (if start0 < lowest then align_up bpf lowest else Returns start0) of
         Panics \<Rightarrow> Panics
       | Returns start \<Rightarrow> (let end = start + bpf - 1 in Returns (if end > highest then None else Some (start, end)))))"

definition checkAndSnapshot ::
  "(SnapshotInfo list \<Rightarrow> SnapshotInfo list) \<Rightarrow> codecs \<Rightarrow> (bytes \<Rightarrow> bytes) \<Rightarrow> blockRanges option \<Rightarrow> 'w snapDB \<Rightarrow> snap_io \<Rightarrow>
   Snapshotter \<Rightarrow> snapdir \<Rightarrow> 'w \<Rightarrow> (Snapshotter \<times> snapdir \<times> 'w \<times> goerror option) outcome" where
  "checkAndSnapshot srt k sha conv db io s d w = (case conv of
     None \<Rightarrow> Returns (s, d, w, None)
   | Some c \<Rightarrow> (case LowestStored c (pr_Exec (sw_prune db) w) of
       Inl e \<Rightarrow> Returns (s, d, w, if IsErrNotFound (Some e) then None else Some e)
     | Inr lowest \<Rightarrow> if lowest = 0 then Returns (s, d, w, None)
         else (case HighestStored c (pr_Exec (sw_prune db) w) of
           Inl e \<Rightarrow> Returns (s, d, w, if IsErrNotFound (Some e) then None else Some e)
         | Inr highest \<Rightarrow> if highest = 0 then Returns (s, d, w, None)
             else (case nextSnapshotRange (sn_cfg s) (lastSnapshotBlock s) lowest highest of
               Panics \<Rightarrow> Panics
             | Returns None \<Rightarrow> Returns (s, d, w, None)
             | Returns (Some (rangeStart, rangeEnd)) \<Rightarrow>
                 (case createKVSnapshot k sha conv db io s rangeStart rangeEnd d w of
                    Panics \<Rightarrow> Panics
                  | Returns (d, w, Some e) \<Rightarrow> Returns (s, d, w,
                      Some (Wrapped (''snapshot '' @ itoa rangeStart @ ''-'' @ itoa rangeEnd @ '' failed: '') e []))
                  | Returns (d, w, None) \<Rightarrow>
                      (let s = s\<lparr>lastSnapshotBlock := rangeEnd, totalSnapshots := totalSnapshots s + 1\<rparr> in
                       case enforceSnapshotLimit srt (sw_prune db) io s d w of (s, d, w, _) \<Rightarrow> Returns (s, d, w, None)))))))"

text \<open>The cycle with the number of snapshots it reports to the observer.\<close>

definition timedCheckAndSnapshot ::
  "(SnapshotInfo list \<Rightarrow> SnapshotInfo list) \<Rightarrow> codecs \<Rightarrow> (bytes \<Rightarrow> bytes) \<Rightarrow> blockRanges option \<Rightarrow> 'w snapDB \<Rightarrow> snap_io \<Rightarrow>
   Snapshotter \<Rightarrow> snapdir \<Rightarrow> 'w \<Rightarrow> (Snapshotter \<times> snapdir \<times> 'w \<times> int \<times> goerror option) outcome" where
  "timedCheckAndSnapshot srt k sha conv db io s d w = (case checkAndSnapshot srt k sha conv db io s d w of
     Panics \<Rightarrow> Panics
   | Returns (s', d', w', e) \<Rightarrow> Returns (s', d', w', totalSnapshots s' - totalSnapshots s, e))"

section \<open>Lifecycle\<close>

text \<open>What the loop sees: a tick of its timer, a change of the database by another component, or the end.\<close>

datatype 'w snap_event = SnapTick "SnapshotInfo list \<Rightarrow> SnapshotInfo list" snap_io | WorldMoves "'w \<Rightarrow> 'w" | SnapStopping

fun snap_ticks ::
  "codecs \<Rightarrow> (bytes \<Rightarrow> bytes) \<Rightarrow> blockRanges option \<Rightarrow> 'w snapDB \<Rightarrow> 'w snap_event list \<Rightarrow> Snapshotter \<Rightarrow> snapdir \<Rightarrow> 'w \<Rightarrow>
   (Snapshotter \<times> snapdir \<times> 'w) outcome" where
  "snap_ticks k sha conv db [] s d w = Returns (s, d, w)"
| "snap_ticks k sha conv db (SnapStopping # evs) s d w = Returns (s, d, w)"
| "snap_ticks k sha conv db (WorldMoves f # evs) s d w = snap_ticks k sha conv db evs s d (f w)"
| "snap_ticks k sha conv db (SnapTick srt io # evs) s d w = (case timedCheckAndSnapshot srt k sha conv db io s d w of
     Panics \<Rightarrow> Panics | Returns (s, d, w, _, _) \<Rightarrow> snap_ticks k sha conv db evs s d w)"

text \<open>\<open>time.NewTicker\<close> panics on an interval that is not positive.\<close>

definition snapshotLoop ::
  "codecs \<Rightarrow> (bytes \<Rightarrow> bytes) \<Rightarrow> blockRanges option \<Rightarrow> 'w snapDB \<Rightarrow> 'w snap_event list \<Rightarrow> Snapshotter \<Rightarrow> snapdir \<Rightarrow> 'w \<Rightarrow>
   (Snapshotter \<times> snapdir \<times> 'w) outcome" where
  "snapshotLoop k sha conv db evs s d w = (if wrap_int64 (sc_IntervalSeconds (sn_cfg s) * 1000000000) \<le> 0 then Panics
     else snap_ticks k sha conv db evs s d w)"

text \<open>\<open>Start\<close> up to the point where it starts the loop; \<open>mkdirErr\<close> is the result of \<open>os.MkdirAll\<close>.\<close>

definition startSnapshotter ::
  "(SnapshotInfo list \<Rightarrow> SnapshotInfo list) \<Rightarrow> 'w prunerDB \<Rightarrow> snap_io \<Rightarrow> goerror option \<Rightarrow> signing_identity option \<Rightarrow>
   Snapshotter \<Rightarrow> snapdir \<Rightarrow> 'w \<Rightarrow> Snapshotter \<times> snapdir \<times> 'w \<times> goerror option" where
  "startSnapshotter srt db io mkdirErr ident s d w = (case mkdirErr of
     Some e \<Rightarrow> (s, d, w, Some (Wrapped ''failed to create snapshot directory: '' e []))
   | None \<Rightarrow> (let s = scanExisting d (s\<lparr>sn_identity := ident\<rparr>) in
       case enforceSnapshotLimit srt db io s d w of (s, d, w, _) \<Rightarrow> (s, d, w, None)))"

definition stopSnapshotter :: "Snapshotter \<Rightarrow> Snapshotter outcome" where
  "stopSnapshotter s = (if sn_stopClosed s then Panics else Returns (s\<lparr>sn_stopClosed := True\<rparr>))"

section \<open>Import\<close>

record ImportResult =
  ir_StartBlock :: height
  ir_EndBlock :: height

text \<open>\<open>io.ReadFull\<close>: an error unless all \<open>n\<close> bytes are there.\<close>

definition ReadFull :: "nat \<Rightarrow> bytes \<times> goerror option \<Rightarrow> (bytes \<times> bytes \<times> goerror option) result" where
  "ReadFull n r = (case r of (content, readErr) \<Rightarrow>
     if length content \<ge> n then Inr (take n content, drop n content, readErr)
     else Inl (case readErr of Some e \<Rightarrow> e | None \<Rightarrow> Sentinel (if content = [] then ''EOF'' else ''unexpected EOF'')))"

definition ImportKV :: "codecs \<Rightarrow> 'w snapDB \<Rightarrow> (string \<Rightarrow> bytes option) \<Rightarrow> string \<Rightarrow> 'w \<Rightarrow> 'w \<times> ImportResult result" where
  "ImportKV k db fs path w = (case open_file fs path of
     Inl e \<Rightarrow> (w, Inl (Wrapped ''open snapshot: '' e []))
   | Inr f \<Rightarrow> (case gunzip k f of
       Inl e \<Rightarrow> (w, Inl (Wrapped ''gzip reader: '' e []))
     | Inr r \<Rightarrow> (case ReadFull 4 r of
         Inl e \<Rightarrow> (w, Inl (Wrapped ''read header length: '' e []))
       | Inr (lenBuf, r) \<Rightarrow> (case ReadFull (be32_read lenBuf) r of
           Inl e \<Rightarrow> (w, Inl (Wrapped ''read header: '' e []))
         | Inr (headerBytes, r) \<Rightarrow> (case json_Unmarshal_header k headerBytes of
             Inl e \<Rightarrow> (w, Inl (Wrapped ''parse header: '' e []))
           | Inr hdr \<Rightarrow> if kh_Magic hdr \<noteq> ''DFKV'' then (w, Inl (ErrMsg (''invalid snapshot magic: '' @ quoted (kh_Magic hdr)
                 @ '' (expected '' @ quoted ''DFKV'' @ '')'')))
               else (case sw_ImportRawKVs db w r of
                 (w, Inl e) \<Rightarrow> (w, Inl (Wrapped ''import raw KVs: '' e []))
               | (w, Inr _) \<Rightarrow> (w, Inr \<lparr>ir_StartBlock = kh_StartBlock hdr, ir_EndBlock = kh_EndBlock hdr\<rparr>)))))))"

fun RebuildAllIndexes :: "'w snapDB \<Rightarrow> string list \<Rightarrow> 'w \<Rightarrow> 'w \<times> goerror option" where
  "RebuildAllIndexes db [] w = (w, None)"
| "RebuildAllIndexes db (colName # rest) w = (case sw_RebuildIndexes db w colName of
     (w, Some e) \<Rightarrow> (w, Some (Wrapped (''failed to rebuild indexes for '' @ colName @ '': '') e []))
   | (w, None) \<Rightarrow> RebuildAllIndexes db rest w)"

end
