(* ===== verification/Merkle.thy ===== *)
theory Merkle
  imports Snapshot_Sign
begin

text \<open>
  The Merkle root of a snapshot: the level-by-level computation of \<open>signing.go\<close> is the root of the tree that
  splits a list at the largest power of two below its length, the root binds the list it was computed from,
  and the signature over it is accepted exactly for a file with these roots.
\<close>

section \<open>The tree\<close>

text \<open>The largest power of two below \<open>n\<close>.\<close>

fun split_point :: "nat \<Rightarrow> nat" where
  "split_point n = (if n \<le> 2 then 1 else 2 * split_point ((n + 1) div 2))"

declare split_point.simps [simp del]

lemma split_point_spec: "2 \<le> n \<Longrightarrow> \<exists>j. split_point n = 2 ^ j \<and> 2 ^ j < n \<and> n \<le> 2 ^ (j + 1)"
proof (induction n rule: split_point.induct)
  case (1 n)
  show ?case
  proof (cases "n \<le> 2")
    case True
    then show ?thesis using 1(2) by (intro exI [of _ 0]) (simp add: split_point.simps)
  next
    case False
    then obtain j where "split_point ((n + 1) div 2) = 2 ^ j" "2 ^ j < (n + 1) div 2" "(n + 1) div 2 \<le> 2 ^ (j + 1)" using 1 by force
    moreover have "2 * x < n \<and> n \<le> 4 * x" if "x < (n + 1) div 2" "(n + 1) div 2 \<le> 2 * x" for x using that by presburger
    from this [of "2 ^ j"] calculation have "2 * 2 ^ j < n \<and> n \<le> 4 * 2 ^ j" by simp
    ultimately show ?thesis using False by (intro exI [of _ "j + 1"]) (simp add: split_point.simps [of n])
  qed
qed

lemma split_point_bounds: "2 \<le> n \<Longrightarrow> 0 < split_point n \<and> split_point n < n"
  using split_point_spec [of n] by auto

function tree_root :: "(bytes \<Rightarrow> bytes) \<Rightarrow> bytes list \<Rightarrow> bytes" where
  "tree_root sha hs = (if length hs \<le> 1 then hd hs
     else sha (tree_root sha (take (split_point (length hs)) hs) @ tree_root sha (drop (split_point (length hs)) hs)))"
  by pat_completeness auto
termination
proof (relation "measure (\<lambda>(sha, hs). length hs)", goal_cases)
  case (2 sha hs)
  then show ?case using split_point_bounds [of "length hs"] by auto
next
  case (3 sha hs)
  then show ?case using split_point_bounds [of "length hs"] by auto
qed simp

declare tree_root.simps [simp del]

lemma split_point_2 [simp]: "split_point 2 = 1" "split_point (Suc (Suc 0)) = 1"
  by (subst split_point.simps, simp)+

lemma tree_root_single [simp]: "tree_root sha [h] = h"
  by (subst tree_root.simps) simp

lemma tree_root_pair: "tree_root sha [a, b] = sha (a @ b)"
  by (subst tree_root.simps) simp

section \<open>Levels and tree\<close>

lemma merkle_level_append: "even (length xs) \<Longrightarrow> merkle_level sha (xs @ ys) = merkle_level sha xs @ merkle_level sha ys"
  by (induction sha xs rule: merkle_level.induct) auto

lemma tree_root_level: "2 \<le> length hs \<Longrightarrow> tree_root sha (merkle_level sha hs) = tree_root sha hs"
proof (induction "length hs" arbitrary: hs rule: less_induct)
  case less
  let ?n = "length hs" and ?l = "merkle_level sha hs"
  show ?case
  proof (cases "?n = 2")
    case True
    then obtain a b where "hs = [a, b]" by (cases hs; cases "tl hs") auto
    then show ?thesis by (simp add: tree_root_pair)
  next
    case False
    define m where "m = split_point ((?n + 1) div 2)"
    have n: "3 \<le> ?n" "length ?l = (?n + 1) div 2" "2 \<le> length ?l" using False less(2) by (auto simp: length_merkle_level)
    have sp: "split_point ?n = 2 * m" "0 < m" "m < (?n + 1) div 2"
      using n split_point_bounds [of "(?n + 1) div 2"] by (auto simp: split_point.simps [of ?n] m_def)
    then have len: "2 * m < ?n" by linarith
    have l: "?l = merkle_level sha (take (2 * m) hs) @ merkle_level sha (drop (2 * m) hs)"
      using merkle_level_append [of "take (2 * m) hs" sha "drop (2 * m) hs"] len by simp
    have m: "length (merkle_level sha (take (2 * m) hs)) = m" using len by (simp add: length_merkle_level)
    have left: "tree_root sha (merkle_level sha (take (2 * m) hs)) = tree_root sha (take (2 * m) hs)"
      using less(1) [of "take (2 * m) hs"] len sp(2) by simp
    have right: "tree_root sha (merkle_level sha (drop (2 * m) hs)) = tree_root sha (drop (2 * m) hs)"
    proof (cases "?n - 2 * m = 1")
      case True
      then have "length (drop (2 * m) hs) = 1" by simp
      then obtain a where "drop (2 * m) hs = [a]" by (cases "drop (2 * m) hs") auto
      then show ?thesis by simp
    next
      case False
      then show ?thesis using less(1) [of "drop (2 * m) hs"] len sp(2) by simp
    qed
    have "tree_root sha ?l = sha (tree_root sha (take m ?l) @ tree_root sha (drop m ?l))"
      using n sp by (subst tree_root.simps) (simp add: m_def)
    also have "\<dots> = sha (tree_root sha (take (2 * m) hs) @ tree_root sha (drop (2 * m) hs))" by (simp add: l m left right)
    also have "\<dots> = tree_root sha hs" using n sp by (subst (3) tree_root.simps) simp
    finally show ?thesis .
  qed
qed

lemma merkle_up_root: "hs \<noteq> [] \<Longrightarrow> hd (merkle_up sha hs) = tree_root sha hs"
proof (induction sha hs rule: merkle_up.induct)
  case (1 sha hs)
  show ?case
  proof (cases "length hs > 1")
    case True
    have "0 < length (merkle_level sha hs)" using True unfolding length_merkle_level by presburger
    then have "merkle_level sha hs \<noteq> []" by simp
    then show ?thesis using 1 True by (simp add: merkle_up.simps [of sha hs] tree_root_level)
  next
    case False
    then show ?thesis using 1(2) by (simp add: merkle_up.simps [of sha hs] tree_root.simps [of sha hs])
  qed
qed

section \<open>Binding\<close>

text \<open>Everything that is hashed when the root of \<open>rs\<close> is computed.\<close>

function hashed :: "(bytes \<Rightarrow> bytes) \<Rightarrow> bytes list \<Rightarrow> bytes set" where
  "hashed sha rs = (if length rs \<le> 1 then set rs
     else insert (tree_root sha (map sha (take (split_point (length rs)) rs)) @ tree_root sha (map sha (drop (split_point (length rs)) rs)))
       (hashed sha (take (split_point (length rs)) rs) \<union> hashed sha (drop (split_point (length rs)) rs)))"
  by pat_completeness auto
termination
proof (relation "measure (\<lambda>(sha, rs). length rs)", goal_cases)
  case (2 sha rs)
  then show ?case using split_point_bounds [of "length rs"] by auto
next
  case (3 sha rs)
  then show ?case using split_point_bounds [of "length rs"] by auto
qed simp

declare hashed.simps [simp del]

lemma tree_root_split:
  assumes "2 \<le> length rs"
  obtains as bs where "rs = as @ bs" "as \<noteq> []" "bs \<noteq> []" "length as < length rs" "length bs < length rs"
    "tree_root sha (map sha rs) = sha (tree_root sha (map sha as) @ tree_root sha (map sha bs))"
    "hashed sha rs = insert (tree_root sha (map sha as) @ tree_root sha (map sha bs)) (hashed sha as \<union> hashed sha bs)"
proof
  let ?k = "split_point (length rs)"
  note k = split_point_bounds [OF assms]
  show "rs = take ?k rs @ drop ?k rs" by simp
  show "take ?k rs \<noteq> []" "drop ?k rs \<noteq> []" "length (take ?k rs) < length rs" "length (drop ?k rs) < length rs" using k by auto
  show "tree_root sha (map sha rs) = sha (tree_root sha (map sha (take ?k rs)) @ tree_root sha (map sha (drop ?k rs)))"
    using assms by (subst tree_root.simps) (simp add: take_map drop_map)
  show "hashed sha rs = insert (tree_root sha (map sha (take ?k rs)) @ tree_root sha (map sha (drop ?k rs)))
      (hashed sha (take ?k rs) \<union> hashed sha (drop ?k rs))" using assms by (subst hashed.simps) simp
qed

text \<open>A nonempty list: its root is a hash of one of the inputs, a leaf or a pair.\<close>

lemma tree_root_is_hash:
  assumes "rs \<noteq> []"
  obtains r where "rs = [r]" "tree_root sha (map sha rs) = sha r" "r \<in> hashed sha rs"
  | as bs where "rs = as @ bs" "as \<noteq> []" "bs \<noteq> []" "length as < length rs" "length bs < length rs"
    "tree_root sha (map sha rs) = sha (tree_root sha (map sha as) @ tree_root sha (map sha bs))"
    "hashed sha rs = insert (tree_root sha (map sha as) @ tree_root sha (map sha bs)) (hashed sha as \<union> hashed sha bs)"
proof (cases "2 \<le> length rs")
  case True
  then show ?thesis by (rule tree_root_split [of rs sha]) (rule that(2))
next
  case False
  then obtain r where "rs = [r]" using assms by (cases rs) (auto simp: Suc_le_eq)
  then show ?thesis using that(1) [of r] by (simp add: hashed.simps [of sha "[r]"])
qed

lemma tree_root_length: "\<forall>x. length (sha x) = 32 \<Longrightarrow> rs \<noteq> [] \<Longrightarrow> length (tree_root sha (map sha rs)) = 32"
  by (rule tree_root_is_hash [of rs sha]) simp_all

lemma tree_root_binding:
  assumes len: "\<forall>x. length (sha x) = 32"
  shows "rs \<noteq> [] \<Longrightarrow> rs' \<noteq> [] \<Longrightarrow> \<forall>r \<in> set rs \<union> set rs'. length r = 32 \<Longrightarrow>
    inj_on sha (hashed sha rs \<union> hashed sha rs') \<Longrightarrow>
    tree_root sha (map sha rs) = tree_root sha (map sha rs') \<Longrightarrow> rs = rs'"
proof (induction "length rs" arbitrary: rs rs' rule: less_induct)
  case less
  note L = tree_root_length [OF len]
  have pair: "length (tree_root sha (map sha as) @ tree_root sha (map sha bs)) = 64" if "as \<noteq> []" "bs \<noteq> []" for as bs
    using L that by simp
  show ?case
  proof (cases rule: tree_root_is_hash [OF less(2), of sha])
    case (1 r)
    note one = this
    show ?thesis
    proof (cases rule: tree_root_is_hash [OF less(3), of sha])
      case (1 r')
      then show ?thesis using one less(5,6) by (auto simp: inj_on_def)
    next
      case (2 as bs)
      then have "r = tree_root sha (map sha as) @ tree_root sha (map sha bs)"
        using one less(5,6) by (auto simp: inj_on_def)
      then have "length r = 64" using pair 2 by simp
      then show ?thesis using one less(4) by simp
    qed
  next
    case (2 as bs)
    note two = this
    show ?thesis
    proof (cases rule: tree_root_is_hash [OF less(3), of sha])
      case (1 r)
      then have "r = tree_root sha (map sha as) @ tree_root sha (map sha bs)"
        using two less(5,6) by (auto simp: inj_on_def)
      then have "length r = 64" using pair two by simp
      then show ?thesis using 1 less(4) by simp
    next
      case (2 as' bs')
      have eq: "tree_root sha (map sha as) @ tree_root sha (map sha bs) = tree_root sha (map sha as') @ tree_root sha (map sha bs')"
        using less(6) unfolding two(6) 2(6) by (rule inj_onD [OF less(5)]) (simp_all add: two(7) 2(7))
      then have parts: "tree_root sha (map sha as) = tree_root sha (map sha as')" "tree_root sha (map sha bs) = tree_root sha (map sha bs')"
        using L two(2,3) 2(2,3) by simp_all
      have inj: "inj_on sha (hashed sha as \<union> hashed sha as')" "inj_on sha (hashed sha bs \<union> hashed sha bs')"
        using less(5) unfolding two(7) 2(7) by (auto elim: inj_on_subset)
      have lens: "\<forall>r \<in> set as \<union> set as'. length r = 32" "\<forall>r \<in> set bs \<union> set bs'. length r = 32"
        using less(4) two(1) 2(1) by auto
      have "as = as'" by (rule less(1) [OF two(4,2) 2(2) lens(1) inj(1) parts(1)])
      moreover have "bs = bs'" by (rule less(1) [OF two(5,3) 2(3) lens(2) inj(2) parts(2)])
      ultimately show ?thesis using two(1) 2(1) by simp
    qed
  qed
qed

section \<open>Properties\<close>

text \<open>The root computed level by level is the root of the recursive tree. For a nonempty list of block
  roots, \<open>ComputeSnapshotMerkleRoot\<close> hashes every block root and combines the hashes in the tree that splits
  a list at the largest power of two below its length, whatever the number of blocks.\<close>

theorem merkle_root_tree:
  "ComputeSnapshotMerkleRoot sha roots = (if roots = [] then None else Some (tree_root sha (map sha roots)))"
  by (simp add: ComputeSnapshotMerkleRoot_def merkle_up_root)

text \<open>The Merkle root binds the signed blocks. If no two of the values hashed for two lists of 32-byte block
  roots collide, equal snapshot roots mean equal lists: no block root can be dropped, added, changed or moved,
  and no inner node can pass for a block root.\<close>

theorem merkle_root_binding:
  assumes "\<forall>x. length (sha x) = 32" "\<forall>r \<in> set rs \<union> set rs'. length r = 32"
    and "inj_on sha (hashed sha rs \<union> hashed sha rs')"
    and "ComputeSnapshotMerkleRoot sha rs = ComputeSnapshotMerkleRoot sha rs'"
  shows "rs = rs'"
proof (cases "rs = [] \<or> rs' = []")
  case True
  then show ?thesis using assms(4) by (auto simp: ComputeSnapshotMerkleRoot_def split: if_splits)
next
  case False
  then have "tree_root sha (map sha rs) = tree_root sha (map sha rs')"
    using assms(4) by (simp add: ComputeSnapshotMerkleRoot_def merkle_up_root)
  then show ?thesis using tree_root_binding [OF assms(1) _ _ assms(2,3)] False by simp
qed

text \<open>A function of 32-byte results that tells these inputs apart.\<close>

definition sample_sha :: "bytes \<Rightarrow> bytes" where
  "sample_sha x = (if length x = 32 then x else take 32 (drop 16 x @ replicate 32 0))"

lemma sample_sha_length: "length (sample_sha x) = 32"
  by (auto simp: sample_sha_def min_def)

lemma sample_roots_hashed:
  "hashed sample_sha [a, b] = {sample_sha a @ sample_sha b, b, a}"
  by (simp add: hashed.simps [of sample_sha "[a, b]"] hashed.simps [of sample_sha "[a]"] hashed.simps [of sample_sha "[b]"])

abbreviation (input) root1 :: bytes where "root1 \<equiv> replicate 32 1"
abbreviation (input) root2 :: bytes where "root2 \<equiv> replicate 32 2"

lemma sample_no_collision: "inj_on sample_sha (hashed sample_sha [root1, root2] \<union> hashed sample_sha [root2, root1])"
  unfolding sample_roots_hashed inj_on_def by code_simp

theorem merkle_root_binding_witness:
  "ComputeSnapshotMerkleRoot sample_sha [root1, root2] \<noteq> ComputeSnapshotMerkleRoot sample_sha [root2, root1]"
proof
  assume eq: "ComputeSnapshotMerkleRoot sample_sha [root1, root2] = ComputeSnapshotMerkleRoot sample_sha [root2, root1]"
  have "[root1, root2] = [root2, root1 :: bytes]"
    by (rule merkle_root_binding [OF _ _ sample_no_collision eq]) (auto simp: sample_sha_length)
  moreover have "root1 \<noteq> (root2 :: bytes)" by code_simp
  ultimately show False by simp
qed

text \<open>What the database returns for a stored document: integers as \<open>int64\<close>, lists as \<open>[]any\<close>.\<close>

fun stored_value :: "any \<Rightarrow> any" where
  "stored_value (AInt n) = AInt64 n"
| "stored_value (AStrings ss) = ASlice (map AString ss)"
| "stored_value v = v"

definition stored_doc :: "doc \<Rightarrow> doc" where
  "stored_doc d = (\<lambda>f. map_option stored_value (d f))"

lemma stored_signature: "ss_Version sig = 1 \<Longrightarrow> parseSnapshotSignatureDoc (stored_doc (signature_doc sig)) = sig"
proof -
  have "List.map_filter as_string (map AString ss) = ss" for ss by (induction ss) (simp_all add: List.map_filter_simps)
  then show "ss_Version sig = 1 \<Longrightarrow> ?thesis"
    by (cases sig) (simp add: parseSnapshotSignatureDoc_def stored_doc_def signature_doc_def mget_def string_or_empty_def
      int64_or_zero_def parseBlockSigMerkleRoots_def)
qed

text \<open>A signing identity whose public key, read back from its text, accepts its signatures.\<close>

definition signer_ok :: "crypto_lib \<Rightarrow> signing_identity \<Rightarrow> bool" where
  "signer_ok cr i \<longleftrightarrow> isFullIdentity i \<and> key_of i \<in> {KeyTypeSecp256k1, KeyTypeEd25519}
     \<and> (\<exists>verify. PublicKeyFromString cr (key_of i) (publicKeyText i) = Inr verify \<and> (\<forall>m s. Sign i m = Inr s \<longrightarrow> verify m s = Inr True))"

lemma signed_by:
  assumes "signer_ok cr i" "Sign i mroot = Inr v"
  obtains t verify where "signMerkleRoot (Some i) mroot = Inr (t, publicKeyText i, v)" "resolveKeyType t = Inr (key_of i)"
    "PublicKeyFromString cr (key_of i) (publicKeyText i) = Inr verify" "verify mroot v = Inr True"
  using assms that by (auto simp: signer_ok_def signMerkleRoot_def resolveKeyType_def)

lemma hex_encode_inject: "hex_encode a = hex_encode b \<longleftrightarrow> a = b"
  by (metis hex_decode_encode sum.inject(2))

text \<open>C23: a signed snapshot verifies exactly when its block roots are the signed ones. For the signature that
  \<open>signSnapshotWithRoots\<close> computes over the roots of a range, written to the database and read back,
  \<open>VerifySnapshotWithSig\<close> reports a file as valid if and only if the block roots extracted from it are the
  signed list, provided hashing does not collide on the values involved.\<close>

theorem snapshot_signature_exact:
  assumes "signer_ok cr i" "ComputeSnapshotMerkleRoot sha roots = Some mroot" "Sign i mroot = Inr v"
    and "\<forall>x. length (sha x) = 32" "\<forall>r \<in> set roots. length r = 32"
    and "\<And>rs. extractBlockSigMerkleRoots k fs path = Inr rs \<Longrightarrow> (\<forall>r \<in> set rs. length r = 32) \<and> inj_on sha (hashed sha roots \<union> hashed sha rs)"
  shows "\<exists>signedBy. signMerkleRoot (Some i) mroot = Inr signedBy \<and>
    (let sig = signature_data name s e mroot n createdAt roots signedBy in
      vr_Valid (fst (VerifySnapshotWithSig k sha cr fs path (parseSnapshotSignatureDoc (stored_doc (signature_doc sig)))))
        \<longleftrightarrow> extractBlockSigMerkleRoots k fs path = Inr roots)"
proof -
  obtain t verify where S: "signMerkleRoot (Some i) mroot = Inr (t, publicKeyText i, v)" "resolveKeyType t = Inr (key_of i)"
    "PublicKeyFromString cr (key_of i) (publicKeyText i) = Inr verify" "verify mroot v = Inr True"
    by (rule signed_by [OF assms(1,3)])
  let ?sig = "signature_data name s e mroot n createdAt roots (t, publicKeyText i, v)"
  have crypt: "verifyCryptoSignature cr ?sig r = (r\<lparr>vr_SignatureValid := True\<rparr>, None)" for r
    by (simp add: verifyCryptoSignature_def signature_data_def S)
  have "vr_Valid (fst (VerifySnapshotWithSig k sha cr fs path ?sig))
      \<longleftrightarrow> (\<exists>rs. extractBlockSigMerkleRoots k fs path = Inr rs \<and> ComputeSnapshotMerkleRoot sha rs = Some mroot)"
    by (auto simp: VerifySnapshotWithSig_def verifyMerkleRoot_def crypt Let_def hex_encode_inject split: sum.splits option.splits)
      (auto simp: signature_data_def hex_encode_inject)
  also have "\<dots> \<longleftrightarrow> extractBlockSigMerkleRoots k fs path = Inr roots"
  proof
    assume "\<exists>rs. extractBlockSigMerkleRoots k fs path = Inr rs \<and> ComputeSnapshotMerkleRoot sha rs = Some mroot"
    then obtain rs where rs: "extractBlockSigMerkleRoots k fs path = Inr rs" "ComputeSnapshotMerkleRoot sha rs = Some mroot" by blast
    have "tree_root sha (map sha roots) = tree_root sha (map sha rs)" "roots \<noteq> []" "rs \<noteq> []"
      using assms(2) rs(2) by (auto simp: ComputeSnapshotMerkleRoot_def merkle_up_root split: if_splits)
    then have "roots = rs" using tree_root_binding [OF assms(4), of roots rs] assms(5,6) rs(1) by blast
    then show "extractBlockSigMerkleRoots k fs path = Inr roots" using rs(1) by simp
  qed (use assms(2) in simp)
  finally show ?thesis using S(1) stored_signature [of ?sig] by (simp add: signature_data_def)
qed

text \<open>A file of two lines, each of which decodes to a block signature with the line as its mroot.\<close>

definition sample_codecs :: codecs where
  "sample_codecs = \<lparr>gzip = id, gunzip = \<lambda>b. Inr (b, None),
     json_entry = \<lambda>l. Inr (''block_signature'', Some [''merkleRoot'' \<mapsto> AString (hex_encode l)]),
     json_sig = \<lambda>_. Inl (ErrMsg ''unexpected end of JSON input''),
     json_Marshal_header = \<lambda>_. Inl (ErrMsg ''unsupported value''), json_Unmarshal_header = \<lambda>b. Inl (ErrMsg ''unexpected end of JSON input'')\<rparr>"

definition sample_identity :: signing_identity where
  "sample_identity = \<lparr>isFullIdentity = True, key_of = KeyTypeSecp256k1, publicKeyText = ''02a1b2c3d4e5f60718'', Sign = Inr\<rparr>"

definition sample_crypto :: crypto_lib where
  "sample_crypto = \<lparr>PublicKeyFromString = \<lambda>_ _. Inr (\<lambda>m s. Inr (m = s))\<rparr>"

definition sample_fs :: "string \<Rightarrow> bytes option" where
  "sample_fs = [''snap.jsonl'' \<mapsto> root1 @ [10] @ root2 @ [10]]"

lemma sample_extract: "extractBlockSigMerkleRoots sample_codecs sample_fs ''snap.jsonl'' = Inr [root1, root2]"
proof -
  have "raw_lines [] (root1 @ [10] @ root2 @ [10]) = [root1, root2]" by code_simp
  then have "scan_lines (root1 @ [10] @ root2 @ [10]) None = ([root1, root2], None)" by (simp add: scan_lines_def drop_cr_def)
  then show ?thesis
    by (simp add: extractBlockSigMerkleRoots_def open_file_def sample_fs_def suffix_def sample_codecs_def entry_root_def root_of_def
        mget_def List.map_filter_simps) (simp add: hex_encode_def hex_byte_def)
qed

theorem snapshot_signature_exact_witness:
  "\<exists>mroot signedBy. ComputeSnapshotMerkleRoot sample_sha [root1, root2] = Some mroot \<and> signMerkleRoot (Some sample_identity) mroot = Inr signedBy \<and>
    vr_Valid (fst (VerifySnapshotWithSig sample_codecs sample_sha sample_crypto sample_fs ''snap.jsonl'' (parseSnapshotSignatureDoc
      (stored_doc (signature_doc (signature_data ''snap.jsonl'' 10 11 mroot 2 ''2026-01-01T00:00:00Z'' [root1, root2] signedBy))))))"
proof -
  obtain mroot where mroot: "ComputeSnapshotMerkleRoot sample_sha [root1, root2] = Some mroot" by (simp add: ComputeSnapshotMerkleRoot_def)
  have "signer_ok sample_crypto sample_identity" by (simp add: signer_ok_def sample_crypto_def sample_identity_def)
  moreover have "Sign sample_identity mroot = Inr mroot" by (simp add: sample_identity_def)
  moreover have "inj_on sample_sha (hashed sample_sha [root1, root2] \<union> hashed sample_sha [root1, root2])"
    using sample_no_collision by (auto intro: inj_on_subset)
  ultimately show ?thesis
    using snapshot_signature_exact [of sample_crypto sample_identity sample_sha "[root1, root2]" mroot mroot sample_codecs sample_fs
      "''snap.jsonl''" "''snap.jsonl''" 10 11 2 "''2026-01-01T00:00:00Z''"] mroot sample_extract sample_sha_length
    by (auto simp: Let_def)
qed

end
