(* ===== verification/Snapshot_Props.thy ===== *)
theory Snapshot_Props
  imports Snapshots Merkle
begin

text \<open>
  Properties of the snapshotter: the files of its directory are complete exports of disjoint aligned ranges
  whatever fails, the limit on their number keeps the newest, and an imported file restores what was exported.
\<close>

section \<open>File names\<close>

lemma split_char_single: "c \<notin> set s \<Longrightarrow> split_char c s = [s]"
  by (induction s) auto

lemma split_char_append: "c \<notin> set a \<Longrightarrow> split_char c (a @ c # b) = a # split_char c b"
  by (induction a) auto

lemma trim_suffix_append [simp]: "trim_suffix (s @ suf) suf = s"
  by (simp add: trim_suffix_def suffix_def)

lemma itoa_no_underscore: "CHR ''_'' \<notin> set (itoa n)"
proof
  assume "CHR ''_'' \<in> set (itoa n)"
  from itoa_chars [OF this] obtain d where "d < 10" "CHR ''_'' = digit_char d" by auto
  then show False using digit_char_not_sep [of d] by simp
qed

lemma name_range_snapshot [simp]: "name_range (snapshot_name s e) = Some (itoa s, itoa e)"
proof -
  have "split_char (CHR ''_'') (''snapshot'' @ CHR ''_'' # itoa s @ CHR ''_'' # itoa e) = [''snapshot'', itoa s, itoa e]"
    using itoa_no_underscore by (subst split_char_append, simp, subst split_char_append, simp, simp add: split_char_single)
  moreover have "trim_suffix (snapshot_name s e) snap_suffix = ''snapshot'' @ CHR ''_'' # itoa s @ CHR ''_'' # itoa e"
    using trim_suffix_append [of "''snapshot'' @ CHR ''_'' # itoa s @ CHR ''_'' # itoa e" snap_suffix] by (simp add: snapshot_name_def)
  ultimately show ?thesis by (simp add: name_range_def)
qed

lemma snap_glob_snapshot [simp]: "snap_glob (snapshot_name s e)"
  by (auto simp: snap_glob_def snapshot_name_def suffix_def)

lemma snap_glob_tmp [simp]: "\<not> snap_glob (n @ ''.tmp'')"
proof
  assume "snap_glob (n @ ''.tmp'')"
  then obtain z where "n @ ''.tmp'' = z @ snap_suffix" by (auto simp: snap_glob_def suffix_def)
  from arg_cong [OF this, of last] show False by simp
qed

lemma snapshot_name_inject [simp]: "snapshot_name s e = snapshot_name s' e' \<longleftrightarrow> s = s' \<and> e = e'"
  using name_range_snapshot [of s e] name_range_snapshot [of s' e'] by (metis itoa_inject option.inject prod.inject)

section \<open>The next range\<close>

text \<open>Where the snapshotter stands: at the start, or at the end of an aligned range.\<close>

definition cursor :: "int \<Rightarrow> height \<Rightarrow> bool" where
  "cursor bpf lst \<longleftrightarrow> lst = 0 \<or> 0 < lst \<and> bpf dvd lst + 1"

lemma sdiv_nonneg: "0 \<le> (x :: int) \<Longrightarrow> 0 < b \<Longrightarrow> x sdiv b = x div b"
  by (cases "x = 0") (simp_all add: signed_divide_int_def sgn_if)

lemma align_up_spec:
  assumes "0 < bpf" "0 < lowest"
  obtains s where "align_up bpf lowest = Returns s" "bpf dvd s" "lowest \<le> s" "s < lowest + bpf"
proof
  let ?q = "(lowest + bpf - 1) div bpf"
  show "align_up bpf lowest = Returns (?q * bpf)" using assms by (simp add: align_up_def sdiv_nonneg)
  show "bpf dvd ?q * bpf" by simp
  have "?q * bpf + (lowest + bpf - 1) mod bpf = lowest + bpf - 1" by (rule div_mult_mod_eq)
  moreover have "0 \<le> (lowest + bpf - 1) mod bpf" "(lowest + bpf - 1) mod bpf < bpf" using assms by simp_all
  ultimately show "lowest \<le> ?q * bpf" "?q * bpf < lowest + bpf" by linarith+
qed

lemma dvd_le_between: "(b :: int) dvd s \<Longrightarrow> b dvd t \<Longrightarrow> s < t + b \<Longrightarrow> 0 < b \<Longrightarrow> s \<le> t"
proof -
  assume a: "b dvd s" "b dvd t" "s < t + b" "0 < b"
  then obtain p q where pq: "s = b * p" "t = b * q" by (auto elim!: dvdE)
  then have "b * p < b * (q + 1)" using a(3) by (simp add: distrib_left)
  then show "s \<le> t" using a(4) pq by simp
qed

text \<open>The chosen range is the lowest aligned one that is still stored and not yet in a snapshot.\<close>

lemma next_range:
  assumes "0 < BlocksPerFile c" "cursor (BlocksPerFile c) lst" "0 < lowest"
    and "nextSnapshotRange c lst lowest highest = Returns (Some (s, e))"
  shows "BlocksPerFile c dvd s" "lowest \<le> s" "lst < s" "e = s + BlocksPerFile c - 1" "e \<le> highest"
    and "\<And>t. BlocksPerFile c dvd t \<Longrightarrow> lowest \<le> t \<Longrightarrow> lst < t \<Longrightarrow> s \<le> t"
proof -
  let ?b = "BlocksPerFile c"
  obtain a where a: "align_up ?b lowest = Returns a" "?b dvd a" "lowest \<le> a" "a < lowest + ?b" by (rule align_up_spec [OF assms(1,3)])
  have s: "s = (if lst = 0 \<or> lst + 1 < lowest then a else lst + 1)" "e = s + ?b - 1" "e \<le> highest"
    using assms(4) a(3) by (auto simp: nextSnapshotRange_def Let_def a(1) split: if_splits)
  show "?b dvd s" "lowest \<le> s" "lst < s" "e = s + ?b - 1" "e \<le> highest"
    using s a assms(2,3) by (auto simp: cursor_def split: if_splits)
  show "s \<le> t" if "?b dvd t" "lowest \<le> t" "lst < t" for t
    using s(1) that a dvd_le_between [OF a(2) that(1) _ assms(1)] by (auto split: if_splits)
qed

section \<open>The archive\<close>

definition archived :: "int \<Rightarrow> string \<Rightarrow> height \<Rightarrow> bool" where
  "archived bpf n s \<longleftrightarrow> n = snapshot_name s (s + bpf - 1) \<and> bpf dvd s \<and> 0 \<le> s \<and> s + bpf - 1 < 2 ^ 63"

definition complete_export :: "codecs \<Rightarrow> blockRanges option \<Rightarrow> 'w snapDB \<Rightarrow> height \<Rightarrow> height \<Rightarrow> bytes \<Rightarrow> bool" where
  "complete_export k conv db s e b \<longleftrightarrow> (\<exists>hdr hb kvs io w n total. b = gzip k (be32 (length hb) @ hb @ kvs @ be32 0)
     \<and> json_Marshal_header k hdr = Inr hb \<and> kh_Magic hdr = ''DFKV'' \<and> kh_StartBlock hdr = s \<and> kh_EndBlock hdr = e
     \<and> exportCollectionKVs conv db io s e 2 w = Inr (kvs, n, total))"

definition archive :: "codecs \<Rightarrow> blockRanges option \<Rightarrow> 'w snapDB \<Rightarrow> int \<Rightarrow> height \<Rightarrow> snapdir \<Rightarrow> bool" where
  "archive k conv db bpf lst d \<longleftrightarrow> distinct (map fst d) \<and> (\<forall>n f. map_of d n = Some f \<longrightarrow> snap_glob n \<longrightarrow>
     (\<exists>s. archived bpf n s \<and> s + bpf - 1 \<le> lst \<and> complete_export k conv db s (s + bpf - 1) (sf_bytes f)))"

lemma archive_mono: "archive k conv db bpf lst d \<Longrightarrow> lst \<le> lst2 \<Longrightarrow> archive k conv db bpf lst2 d"
  unfolding archive_def by (meson order_trans)

lemma archive_delete: "archive k conv db bpf lst d \<Longrightarrow> archive k conv db bpf lst (AList.delete n d)"
  by (auto simp: archive_def AList.distinct_delete delete_conv' split: if_splits)

lemma archive_update_other: "archive k conv db bpf lst d \<Longrightarrow> \<not> snap_glob n \<Longrightarrow> archive k conv db bpf lst (AList.update n f d)"
  by (auto simp: archive_def AList.distinct_update update_conv' split: if_splits)

lemma archive_add:
  assumes "archive k conv db bpf lst d" "archived bpf n s" "lst \<le> s + bpf - 1" "complete_export k conv db s (s + bpf - 1) (sf_bytes f)"
  shows "archive k conv db bpf (s + bpf - 1) (AList.update n f d)"
proof -
  have "archive k conv db bpf (s + bpf - 1) d" using assms(1,3) by (rule archive_mono)
  then show ?thesis using assms(2,4) by (auto simp: archive_def AList.distinct_update update_conv' split: if_splits)
qed

lemma remove_expired_archive:
  "remove_expired db io s infos d w errs = (d', w', errs') \<Longrightarrow> archive k conv sdb bpf lst d \<Longrightarrow> archive k conv sdb bpf lst d'"
  by (induction infos arbitrary: d w errs) (auto simp: Let_def archive_delete split: option.splits if_splits)

lemma enforce_archive:
  assumes "enforceSnapshotLimit srt db io s d w = (s', d', w', e)" "archive k conv sdb bpf lst d"
  shows "archive k conv sdb bpf lst d' \<and> sn_cfg s' = sn_cfg s \<and> lastSnapshotBlock s' = lastSnapshotBlock s"
  using assms remove_expired_archive
  by (auto simp: enforceSnapshotLimit_def Let_def split: if_splits prod.splits list.splits)

lemma write_contents:
  assumes "writeKVSnapshotContents k conv db io blockSigCol s e w = Inr (content, roots)"
  shows "complete_export k conv db s e (gzip k content)"
proof -
  define rs where "rs = (case getBlockSigMerkleRoots (pr_Exec (sw_prune db) w) blockSigCol s e of Inl _ \<Rightarrow> [] | Inr (rs, _) \<Rightarrow> rs)"
  obtain hb kvs n total where "json_Marshal_header k \<lparr>kh_Magic = ''DFKV'', kh_Version = 1, kh_StartBlock = s, kh_EndBlock = e,
      kh_CreatedAt = io_headerTime io, kh_BlockSigMerkleRoots = map hex_encode rs\<rparr> = Inr hb"
    "exportCollectionKVs conv db io s e 2 w = Inr (kvs, n, total)" "content = be32 (length hb) @ hb @ kvs @ be32 0"
    using assms by (auto simp: writeKVSnapshotContents_def Let_def rs_def [symmetric] split: option.splits sum.splits prod.splits)
  then show ?thesis unfolding complete_export_def by force
qed

lemma write_file_archive:
  assumes "writeKVSnapshotFile k conv db io blockSigCol (snapshot_name s (s + bpf - 1)) s (s + bpf - 1) d w = (d', r)"
    and "archive k conv db bpf lst d"
  shows "archive k conv db bpf lst d' \<and> (\<exists>e. r = Inl e)
    \<or> (\<exists>roots f tmp. r = Inr roots \<and> d' = AList.update (snapshot_name s (s + bpf - 1)) f (AList.delete tmp d)
        \<and> complete_export k conv db s (s + bpf - 1) (sf_bytes f))"
proof (cases "writeKVSnapshotContents k conv db io blockSigCol s (s + bpf - 1) w")
  case (Inl e)
  then show ?thesis using assms
    by (auto simp: writeKVSnapshotFile_def Let_def intro!: archive_delete archive_update_other split: option.splits)
next
  case (Inr cr)
  obtain content roots where cr: "cr = (content, roots)" by (cases cr)
  note C = write_contents [OF Inr [unfolded cr]]
  show ?thesis
  proof (cases "r")
    case (Inl e)
    then show ?thesis using assms Inr cr
      by (auto simp: writeKVSnapshotFile_def Let_def intro!: archive_delete archive_update_other split: option.splits)
  next
    case (Inr roots')
    note R = this
    have "d' = AList.update (snapshot_name s (s + bpf - 1)) \<lparr>sf_bytes = gzip k content, sf_mtime = io_mtime io\<rparr>
        (AList.delete (snapshot_name s (s + bpf - 1) @ ''.tmp'') d)"
      using assms(1) R \<open>writeKVSnapshotContents k conv db io blockSigCol s (s + bpf - 1) w = Inr cr\<close> cr
      by (auto simp: writeKVSnapshotFile_def Let_def split: option.splits)
    then show ?thesis using C R by (metis snap_file.select_convs(1))
  qed
qed

text \<open>Stored heights are not negative and fit the 64 bits of the source.\<close>

definition heights_ok :: "blockRanges option \<Rightarrow> bool" where
  "heights_ok conv \<longleftrightarrow> (\<forall>c exec n. conv = Some c \<longrightarrow> (LowestStored c exec = Inr n \<longrightarrow> 0 \<le> n) \<and> (HighestStored c exec = Inr n \<longrightarrow> n < 2 ^ 63))"

lemma tick_archive:
  assumes b: "0 < BlocksPerFile (sn_cfg s)" and h: "heights_ok conv" and cu: "cursor (BlocksPerFile (sn_cfg s)) (lastSnapshotBlock s)"
    and ar: "archive k conv db (BlocksPerFile (sn_cfg s)) (lastSnapshotBlock s) d"
    and step: "checkAndSnapshot srt k sha conv db io s d w = Returns (s', d', w', err)"
  shows "sn_cfg s' = sn_cfg s \<and> cursor (BlocksPerFile (sn_cfg s)) (lastSnapshotBlock s')
    \<and> archive k conv db (BlocksPerFile (sn_cfg s)) (lastSnapshotBlock s') d' \<and> lastSnapshotBlock s \<le> lastSnapshotBlock s'"
proof -
  let ?b = "BlocksPerFile (sn_cfg s)"
  have "s' = s \<and> d' = d \<or> (\<exists>c lowest highest a e. conv = Some c \<and> LowestStored c (pr_Exec (sw_prune db) w) = Inr lowest \<and> lowest \<noteq> 0
      \<and> HighestStored c (pr_Exec (sw_prune db) w) = Inr highest
      \<and> nextSnapshotRange (sn_cfg s) (lastSnapshotBlock s) lowest highest = Returns (Some (a, e))
      \<and> (\<exists>w1 e1. createKVSnapshot k sha conv db io s a e d w = Returns (d', w1, Some e1) \<and> s' = s
         \<or> (\<exists>d1 w2 e2. createKVSnapshot k sha conv db io s a e d w = Returns (d1, w1, None) \<and>
             enforceSnapshotLimit srt (sw_prune db) io (s\<lparr>lastSnapshotBlock := e, totalSnapshots := totalSnapshots s + 1\<rparr>) d1 w1
               = (s', d', w2, e2))))"
    using step by (auto simp: checkAndSnapshot_def Let_def split: option.splits sum.splits if_splits outcome.splits prod.splits)
  moreover have ?thesis if stay: "s' = s \<and> d' = d" using stay cu ar by simp
  moreover have ?thesis
    if c: "conv = Some c" "LowestStored c (pr_Exec (sw_prune db) w) = Inr lowest" "lowest \<noteq> 0"
      "HighestStored c (pr_Exec (sw_prune db) w) = Inr highest"
      and n: "nextSnapshotRange (sn_cfg s) (lastSnapshotBlock s) lowest highest = Returns (Some (a, e))"
      and fin: "\<exists>w1 e1. createKVSnapshot k sha conv db io s a e d w = Returns (d', w1, Some e1) \<and> s' = s
         \<or> (\<exists>d1 w2 e2. createKVSnapshot k sha conv db io s a e d w = Returns (d1, w1, None) \<and>
             enforceSnapshotLimit srt (sw_prune db) io (s\<lparr>lastSnapshotBlock := e, totalSnapshots := totalSnapshots s + 1\<rparr>) d1 w1
               = (s', d', w2, e2))" for c lowest highest a e
  proof -
    have pos: "0 < lowest" "highest < 2 ^ 63" using h c unfolding heights_ok_def by force+
    note N = next_range [OF b cu pos(1) n]
    have e: "e = a + ?b - 1" by (rule N(4))
    obtain d1 r where W: "writeKVSnapshotFile k conv db io (sn_blockSigCollection s) (snapshot_name a e) a e d w = (d1, r)" by force
    note F = write_file_archive [OF W [unfolded e] ar]
    have arch: "archived ?b (snapshot_name a e) a" using N pos by (auto simp: archived_def)
    have ge: "lastSnapshotBlock s \<le> a + ?b - 1" using N(3) b by linarith
    have added: "archive k conv db ?b e d1" if "r = Inr roots" for roots
      using F that archive_add [OF archive_delete [OF ar] arch [unfolded e] ge] by (auto simp: e)
    have kept: "archive k conv db ?b (lastSnapshotBlock s) d1" if "r = Inl x" for x using F that by blast
    from fin obtain w1 where "(\<exists>e1. createKVSnapshot k sha conv db io s a e d w = Returns (d', w1, Some e1) \<and> s' = s)
      \<or> (\<exists>dd w2 e2. createKVSnapshot k sha conv db io s a e d w = Returns (dd, w1, None) \<and>
             enforceSnapshotLimit srt (sw_prune db) io (s\<lparr>lastSnapshotBlock := e, totalSnapshots := totalSnapshots s + 1\<rparr>) dd w1
               = (s', d', w2, e2))" by blast
    then show ?thesis
    proof (elim disjE exE conjE)
      fix e1 assume cr: "createKVSnapshot k sha conv db io s a e d w = Returns (d', w1, Some e1)" and s': "s' = s"
      have "(\<exists>x. r = Inl x) \<and> d' = d1"
        using cr by (auto simp: createKVSnapshot_def Let_def W signSnapshotWithRoots_def split: sum.splits outcome.splits option.splits prod.splits if_splits)
      then show ?thesis using kept cu s' by auto
    next
      fix dd w2 e2 assume cr: "createKVSnapshot k sha conv db io s a e d w = Returns (dd, w1, None)"
        and en: "enforceSnapshotLimit srt (sw_prune db) io (s\<lparr>lastSnapshotBlock := e, totalSnapshots := totalSnapshots s + 1\<rparr>) dd w1 = (s', d', w2, e2)"
      have "(\<exists>x. r = Inr x) \<and> dd = d1"
        using cr by (auto simp: createKVSnapshot_def Let_def W split: sum.splits outcome.splits option.splits prod.splits)
      then have "archive k conv db ?b e dd" using added by auto
      from enforce_archive [OF en this] show ?thesis
        using N e ge b pos by (auto simp: cursor_def)
    qed
  qed
  ultimately show ?thesis by blast
qed

section \<open>Start and loop\<close>

lemma archived_end: "archived bpf n a \<Longrightarrow> 0 < bpf \<Longrightarrow> name_range n = Some (itoa a, itoa (a + bpf - 1)) \<and> ParseInt (itoa (a + bpf - 1)) 10 = (a + bpf - 1, None)
    \<and> ParseInt (itoa a) 10 = (a, None)"
  by (auto simp: archived_def intro!: ParseInt_decimal)

lemma archived_unique: "archived bpf n a \<Longrightarrow> archived bpf n b \<Longrightarrow> a = b"
  by (auto simp: archived_def)

lemma scan_highest:
  assumes "0 < bpf" "\<forall>n \<in> set names. \<exists>a. archived bpf n a"
  defines "f \<equiv> \<lambda>base hi. case name_range base of None \<Rightarrow> hi
         | Some (_, b) \<Rightarrow> (case ParseInt b 10 of (end, None) \<Rightarrow> if end > hi then end else hi | _ \<Rightarrow> hi)"
  shows "hi \<le> fold f names hi \<and> (\<forall>n \<in> set names. \<forall>a. archived bpf n a \<longrightarrow> a + bpf - 1 \<le> fold f names hi)
    \<and> (fold f names hi = hi \<or> (\<exists>n \<in> set names. \<exists>a. archived bpf n a \<and> fold f names hi = a + bpf - 1))"
  using assms(2)
proof (induction names arbitrary: hi)
  case (Cons n names)
  obtain a where a: "archived bpf n a" using Cons.prems by auto
  let ?h = "f n hi" and ?r = "fold f names (f n hi)"
  have h: "?h = (if a + bpf - 1 > hi then a + bpf - 1 else hi)" using archived_end [OF a assms(1)] by (simp add: f_def)
  then have h3: "hi \<le> ?h" "a + bpf - 1 \<le> ?h" "?h = hi \<or> ?h = a + bpf - 1" by auto
  have I: "?h \<le> ?r" "\<forall>m \<in> set names. \<forall>c. archived bpf m c \<longrightarrow> c + bpf - 1 \<le> ?r"
    "?r = ?h \<or> (\<exists>m \<in> set names. \<exists>c. archived bpf m c \<and> ?r = c + bpf - 1)" using Cons.IH [of ?h] Cons.prems by auto
  have "\<forall>m \<in> set (n # names). \<forall>c. archived bpf m c \<longrightarrow> c + bpf - 1 \<le> ?r"
    using I(1,2) h3(2) archived_unique [OF a] by auto
  moreover have "?r = hi \<or> (\<exists>m \<in> set (n # names). \<exists>c. archived bpf m c \<and> ?r = c + bpf - 1)"
    using I(3) h3(3) a by (metis list.set_intros)
  ultimately show ?case using I(1) h3(1) by simp
qed simp

lemma archive_glob: "archive k conv db bpf lst d \<Longrightarrow> n \<in> set (Glob d) \<Longrightarrow> \<exists>f a. map_of d n = Some f \<and> archived bpf n a \<and> a + bpf - 1 \<le> lst"
  unfolding archive_def Glob_def by (auto simp: eq_key_imp_eq_value)  (metis map_of_is_SomeI)

lemma glob_mem: "map_of d n = Some f \<Longrightarrow> snap_glob n \<Longrightarrow> n \<in> set (Glob d)"
  unfolding Glob_def by (auto dest!: map_of_SomeD intro: rev_image_eqI)

lemma start_archive:
  assumes b: "0 < BlocksPerFile (sn_cfg s)" and ar: "archive k conv db (BlocksPerFile (sn_cfg s)) lst d"
    and st: "startSnapshotter srt pdb io None ident s d w = (s', d', w', err)"
  shows "sn_cfg s' = sn_cfg s \<and> cursor (BlocksPerFile (sn_cfg s)) (lastSnapshotBlock s')
    \<and> archive k conv db (BlocksPerFile (sn_cfg s)) (lastSnapshotBlock s') d'"
proof -
  let ?b = "BlocksPerFile (sn_cfg s)" and ?s = "scanExisting d (s\<lparr>sn_identity := ident\<rparr>)"
  have names: "\<forall>n \<in> set (Glob d). \<exists>a. archived ?b n a" using archive_glob [OF ar] by blast
  have hi: "cursor ?b (lastSnapshotBlock ?s)" "0 \<le> lastSnapshotBlock ?s"
    "\<And>n a. n \<in> set (Glob d) \<Longrightarrow> archived ?b n a \<Longrightarrow> a + ?b - 1 \<le> lastSnapshotBlock ?s"
    using scan_highest [OF b names, of 0] by (auto simp: scanExisting_def Let_def cursor_def archived_def)
  have "archive k conv db ?b (lastSnapshotBlock ?s) d"
    using ar hi(3) glob_mem unfolding archive_def by metis
  moreover have "\<exists>e. enforceSnapshotLimit srt pdb io ?s d w = (s', d', w', e)"
    using st by (auto simp: startSnapshotter_def Let_def split: prod.splits)
  moreover have "sn_cfg ?s = sn_cfg s" by (simp add: scanExisting_def Let_def)
  ultimately show ?thesis using enforce_archive hi(1) by metis
qed

lemma ticks_archive:
  "heights_ok conv \<Longrightarrow> snap_ticks k sha conv db evs s d w = Returns (s', d', w') \<Longrightarrow> 0 < BlocksPerFile (sn_cfg s) \<Longrightarrow>
    cursor (BlocksPerFile (sn_cfg s)) (lastSnapshotBlock s) \<Longrightarrow> archive k conv db (BlocksPerFile (sn_cfg s)) (lastSnapshotBlock s) d \<Longrightarrow>
    archive k conv db (BlocksPerFile (sn_cfg s)) (lastSnapshotBlock s') d'"
proof (induction k sha conv db evs s d w rule: snap_ticks.induct)
  case (4 k sha conv db srt io evs s d w)
  obtain s1 d1 w1 n e where t: "timedCheckAndSnapshot srt k sha conv db io s d w = Returns (s1, d1, w1, n, e)"
    using 4(3) by (auto split: outcome.splits)
  then have c: "checkAndSnapshot srt k sha conv db io s d w = Returns (s1, d1, w1, e)"
    by (auto simp: timedCheckAndSnapshot_def split: outcome.splits)
  have T: "sn_cfg s1 = sn_cfg s" "cursor (BlocksPerFile (sn_cfg s)) (lastSnapshotBlock s1)"
    "archive k conv db (BlocksPerFile (sn_cfg s)) (lastSnapshotBlock s1) d1"
    using tick_archive [OF 4(4,2,5,6) c] by auto
  show ?case using 4(1) [OF t refl refl refl refl 4(2)] 4(3,4) T t by simp
qed auto

lemma aligned_disjoint:
  assumes "0 < bpf" "bpf dvd a" "bpf dvd b" "a \<noteq> b"
  shows "{a..a + bpf - 1} \<inter> {b..b + bpf - (1::int)} = {}"
proof -
  have "a + bpf \<le> b \<or> b + bpf \<le> a"
    using dvd_le_between [OF assms(2,3) _ assms(1)] dvd_le_between [OF assms(3,2) _ assms(1)] assms(4) by linarith
  then show ?thesis by auto
qed

definition ranges_disjoint :: "int \<Rightarrow> snapdir \<Rightarrow> bool" where
  "ranges_disjoint bpf d \<longleftrightarrow> (\<forall>n \<in> set (Glob d). \<forall>n' \<in> set (Glob d). \<forall>a b. n \<noteq> n' \<longrightarrow> archived bpf n a \<longrightarrow> archived bpf n' b \<longrightarrow>
     {a..a + bpf - 1} \<inter> {b..b + bpf - 1} = {})"

section \<open>Properties\<close>


text \<open>A database that holds blocks 1 to 25, an export that is empty, and a cycle without failures.\<close>

definition sample_ranges :: blockRanges where
  "sample_ranges = \<lparr>LowestStored = \<lambda>_. Inr 1, HighestStored = \<lambda>_. Inr 25, DocIDsByRange = \<lambda>_ _ _. Inr []\<rparr>"

definition sample_exec :: exec_request where
  "sample_exec q = \<lparr>gql_Errors = [], gql_Data = ANil\<rparr>"

definition sample_snapDB :: "unit snapDB" where
  "sample_snapDB = \<lparr>sw_block = \<lparr>NewTxn = \<lambda>w. (w, None), GetCollectionByName = \<lambda>_ _. None, NewDocFromMap = \<lambda>_ _. None,
       AddDocument = \<lambda>_ _ _ _. (None, []), AddManyDocuments = \<lambda>_ _ _. (None, []), Commit = \<lambda>w _. (w, None), DocIDString = \<lambda>_ _. [],
       ExecRequest = \<lambda>_. sample_exec\<rparr>,
     sw_prune = \<lparr>pr_Exec = \<lambda>_. sample_exec, pr_GetCollection = \<lambda>_ _. None, PurgeByDocIDs = \<lambda>w _ _ _. (w, None),
       NewDocIDFromString = \<lambda>_. None\<rparr>,
     sw_Export = \<lambda>_ _ _. Inr (be32 0, 0), sw_ImportRawKVs = \<lambda>w _. (w, Inr 0), sw_RebuildIndexes = \<lambda>w _. (w, None)\<rparr>"

definition sample_io :: snap_io where
  "sample_io = \<lparr>io_ctx = None, io_create = None, io_write = \<lambda>_. None, io_gzclose = None, io_close = None, io_rename = None,
     io_remove = \<lambda>_. None, io_stat = \<lambda>_. False, io_partial = [], io_mtime = 0, io_headerTime = [], io_signTime = []\<rparr>"

definition sample_header :: kvSnapshotHeader where
  "sample_header = \<lparr>kh_Magic = ''DFKV'', kh_Version = 1, kh_StartBlock = 10, kh_EndBlock = 19, kh_CreatedAt = [],
     kh_BlockSigMerkleRoots = []\<rparr>"

definition plain_codecs :: codecs where
  "plain_codecs = sample_codecs\<lparr>json_Marshal_header := \<lambda>h. if h = sample_header then Inr [] else Inl (ErrMsg ''unsupported value''),
     json_Unmarshal_header := \<lambda>_. Inr sample_header\<rparr>"

definition sample_snapshotter :: Snapshotter where
  "sample_snapshotter = NewSnapshotter \<lparr>sc_Enabled = True, sc_Dir = ''./snapshots'', BlocksPerFile = 10, sc_IntervalSeconds = 60,
     MaxSnapshots = 2\<rparr> True None None"

definition sample_written :: snapdir where
  "sample_written = [(snapshot_name 10 19, \<lparr>sf_bytes = be32 0 @ be32 0, sf_mtime = 0\<rparr>)]"

lemma sample_start: "startSnapshotter id (sw_prune sample_snapDB) sample_io None None sample_snapshotter [] () = (sample_snapshotter, [], (), None)"
  by (simp add: startSnapshotter_def scanExisting_def Glob_def sample_snapshotter_def NewSnapshotter_def enforceSnapshotLimit_def
      ListSnapshots_def List.map_filter_simps)

lemma sample_cycle:
  "checkAndSnapshot id plain_codecs sample_sha (Some sample_ranges) sample_snapDB sample_io sample_snapshotter [] ()
     = Returns (sample_snapshotter\<lparr>lastSnapshotBlock := 19, totalSnapshots := 1\<rparr>, sample_written, (), None)"
proof -
  have r: "nextSnapshotRange (sn_cfg sample_snapshotter) (lastSnapshotBlock sample_snapshotter) 1 25 = Returns (Some (10, 19))"
    by (simp add: nextSnapshotRange_def align_up_def signed_divide_int_def sample_snapshotter_def NewSnapshotter_def)
  have f: "writeKVSnapshotFile plain_codecs (Some sample_ranges) sample_snapDB sample_io c (snapshot_name 10 19) 10 19 [] () = (sample_written, Inr [])" for c
    by (simp add: writeKVSnapshotFile_def writeKVSnapshotContents_def Let_def sample_io_def getBlockSigMerkleRoots_def sample_snapDB_def
        sample_exec_def plain_codecs_def sample_codecs_def exportCollectionKVs_def sample_ranges_def sample_written_def sample_header_def)
  have c: "createKVSnapshot plain_codecs sample_sha (Some sample_ranges) sample_snapDB sample_io sample_snapshotter 10 19 [] ()
      = Returns (sample_written, (), None)"
    by (simp add: createKVSnapshot_def f signSnapshotWithRoots_def ComputeSnapshotMerkleRoot_def)
  have "length (List.map_filter (snapshot_info sample_io sample_written) (Glob sample_written)) \<le> 1"
    by (simp add: Glob_def sample_written_def List.map_filter_simps split: option.splits)
  then have "enforceSnapshotLimit id (sw_prune sample_snapDB) sample_io (sample_snapshotter\<lparr>lastSnapshotBlock := 19, totalSnapshots := 1\<rparr>) sample_written ()
      = (sample_snapshotter\<lparr>lastSnapshotBlock := 19, totalSnapshots := 1\<rparr>, sample_written, (), None)"
    by (simp add: enforceSnapshotLimit_def sample_snapshotter_def NewSnapshotter_def ListSnapshots_def)
  moreover have "totalSnapshots sample_snapshotter = 0" by (simp add: sample_snapshotter_def NewSnapshotter_def)
  moreover have "LowestStored sample_ranges q = Inr 1" "HighestStored sample_ranges q = Inr 25" for q by (simp_all add: sample_ranges_def)
  ultimately show ?thesis by (simp add: checkAndSnapshot_def r c)
qed


section \<open>Retention\<close>

lemma map_filter_all: "\<forall>x \<in> set xs. g x \<noteq> None \<Longrightarrow> List.map_filter g xs = map (the \<circ> g) xs"
  by (simp add: List.map_filter_def)

lemma snapshot_info_archived:
  assumes "archived bpf n a" "0 < bpf" "map_of d n = Some f" "\<not> io_stat io n"
  shows "snapshot_info io d n = Some \<lparr>si_Filename = n, si_StartBlock = a, si_EndBlock = a + bpf - 1,
    si_SizeBytes = int (length (sf_bytes f)), si_CreatedAt = sf_mtime f\<rparr>"
  using archived_end [OF assms(1,2)] assms(3,4) by (simp add: snapshot_info_def)

lemma map_of_fold_delete: "map_of (fold AList.delete ns d) n = (if n \<in> set ns then None else map_of d n)"
  by (induction ns arbitrary: d) (auto simp: delete_conv')

lemma distinct_fold_delete: "distinct (map fst d) \<Longrightarrow> distinct (map fst (fold AList.delete ns d))"
  by (induction ns arbitrary: d) (auto simp: AList.distinct_delete)

lemma remove_expired_all:
  assumes "\<forall>n. io_remove io n = None"
  shows "distinct (map si_Filename infos) \<Longrightarrow> \<forall>i \<in> set infos. map_of d (si_Filename i) \<noteq> None \<Longrightarrow>
    \<exists>w'. remove_expired db io s infos d w errs = (fold AList.delete (map si_Filename infos) d, w', errs)"
proof (induction infos arbitrary: d w)
  case (Cons i infos)
  have "\<forall>j \<in> set infos. map_of (AList.delete (si_Filename i) d) (si_Filename j) \<noteq> None"
    using Cons.prems by (simp add: delete_conv') (metis imageI)
  with Cons assms show ?case by (auto simp: Let_def)
qed simp

lemma set_glob: "set (Glob d) = {n. snap_glob n \<and> map_of d n \<noteq> None}"
  by (auto simp: Glob_def map_of_eq_None_iff image_iff)

lemma distinct_glob: "distinct (map fst d) \<Longrightarrow> distinct (Glob d)"
  by (simp add: Glob_def)

lemma listed:
  assumes "0 < bpf" "archive k conv db bpf lst d" "\<forall>n. \<not> io_stat io n" "sorts_by si_StartBlock srt"
  shows "mset (map si_Filename (ListSnapshots srt io d)) = mset (Glob d)"
    and "i \<in> set (ListSnapshots srt io d) \<Longrightarrow> archived bpf (si_Filename i) (si_StartBlock i) \<and> si_Filename i \<in> set (Glob d)"
proof -
  let ?g = "snapshot_info io d"
  have g: "\<exists>i. ?g n = Some i \<and> si_Filename i = n \<and> archived bpf n (si_StartBlock i)" if n: "n \<in> set (Glob d)" for n
  proof -
    obtain f a where "map_of d n = Some f" "archived bpf n a" using archive_glob [OF assms(2) n] by blast
    then show ?thesis using snapshot_info_archived [of bpf n a d f io] assms(1,3) by simp
  qed
  then have L: "List.map_filter ?g (Glob d) = map (the \<circ> ?g) (Glob d)" by (intro map_filter_all) force
  have "si_Filename (the (?g n)) = n" if "n \<in> set (Glob d)" for n using g [OF that] by auto
  then have "map si_Filename (map (the \<circ> ?g) (Glob d)) = Glob d" by (auto intro!: map_idI)
  then show "mset (map si_Filename (ListSnapshots srt io d)) = mset (Glob d)"
    unfolding ListSnapshots_def L using sorts_by_mset [OF assms(4)] by (metis mset_map)
  show "archived bpf (si_Filename i) (si_StartBlock i) \<and> si_Filename i \<in> set (Glob d)" if "i \<in> set (ListSnapshots srt io d)"
  proof -
    have "i \<in> set (map (the \<circ> ?g) (Glob d))" using that unfolding ListSnapshots_def L sorts_by_set [OF assms(4)] .
    then obtain n where "n \<in> set (Glob d)" "i = the (?g n)" by auto
    then show ?thesis using g [of n] by auto
  qed
qed

lemma removed_prefix:
  assumes dist: "distinct (map fst d)" and files: "mset (map si_Filename infos) = mset (Glob d)"
    and d'_def: "d' = fold AList.delete (map si_Filename (take m infos)) d"
  shows "set (Glob d') = si_Filename ` set (drop m infos)" "length (Glob d') = length infos - m"
    "map_of d' n = map_of d n \<or> n \<in> set (Glob d) - set (Glob d')"
proof -
  let ?t = "map si_Filename (take m infos)" and ?r = "map si_Filename (drop m infos)"
  have parts: "map si_Filename infos = ?t @ ?r" by (simp flip: map_append)
  have "distinct (map si_Filename infos)" using files distinct_glob [OF dist] by (metis mset_eq_imp_distinct_iff)
  then have dn: "set ?t \<inter> set ?r = {}" "distinct ?r" unfolding parts distinct_append by blast+
  have G: "set (Glob d) = set ?t \<union> set ?r" using files unfolding parts by (metis set_append set_mset_mset)
  have G': "set (Glob d') = set (Glob d) - set ?t" unfolding d'_def set_glob map_of_fold_delete by auto
  then have S: "set (Glob d') = set ?r" using G dn(1) by blast
  then show "set (Glob d') = si_Filename ` set (drop m infos)" by simp
  have "distinct (Glob d')" unfolding d'_def by (intro distinct_glob distinct_fold_delete dist)
  then have "length (Glob d') = length ?r" using S dn(2) by (metis distinct_card)
  then show "length (Glob d') = length infos - m" by simp
  show "map_of d' n = map_of d n \<or> n \<in> set (Glob d) - set (Glob d')" using G G' unfolding d'_def map_of_fold_delete by auto
qed

text \<open>C25: the limit keeps the newest snapshots. When the file system does not fail, \<open>enforceSnapshotLimit\<close> leaves
  at most \<open>max_snapshots\<close> snapshot files (100 when the setting is zero), every file it removes covers older blocks
  than every file it leaves, the files it leaves are unchanged, and files that are no snapshots stay.\<close>

theorem snapshot_retention:
  assumes "sorts_by si_StartBlock srt" "0 < bpf" "archive k conv sdb bpf lst d" "\<forall>n. io_remove io n = None \<and> \<not> io_stat io n"
    and "0 \<le> MaxSnapshots (sn_cfg s)" "enforceSnapshotLimit srt db io s d w = (s', d', w', err)"
  shows "err = None
    \<and> int (length (Glob d')) = min (int (length (Glob d))) (if MaxSnapshots (sn_cfg s) = 0 then 100 else MaxSnapshots (sn_cfg s))
    \<and> (\<forall>n. map_of d' n = map_of d n \<or> n \<in> set (Glob d) - set (Glob d'))
    \<and> (\<forall>n \<in> set (Glob d) - set (Glob d'). \<forall>n' \<in> set (Glob d'). \<forall>a b. archived bpf n a \<longrightarrow> archived bpf n' b \<longrightarrow> a < b)"
proof -
  define limit where "limit = (if MaxSnapshots (sn_cfg s) = 0 then 100 else MaxSnapshots (sn_cfg s))"
  let ?infos = "ListSnapshots srt io d"
  have lim: "0 \<le> limit" using assms(5) by (simp add: limit_def)
  have files: "mset (map si_Filename ?infos) = mset (Glob d)"
    and mem: "\<And>i. i \<in> set ?infos \<Longrightarrow> archived bpf (si_Filename i) (si_StartBlock i) \<and> si_Filename i \<in> set (Glob d)"
    using listed [OF assms(2,3) _ assms(1), of io] assms(4) by blast+
  have dist: "distinct (map fst d)" using assms(3) by (simp add: archive_def)
  have len: "length ?infos = length (Glob d)" using files by (metis length_map size_mset)
  show ?thesis
  proof (cases "int (length ?infos) \<le> limit")
    case True
    then have "d' = d \<and> err = None" using assms(5,6) by (auto simp: enforceSnapshotLimit_def Let_def limit_def split: if_splits)
    then show ?thesis using True len by (auto simp: limit_def [symmetric])
  next
    case False
    define m where "m = length ?infos - nat limit"
    have dn: "distinct (map si_Filename (take m ?infos))" unfolding take_map [symmetric]
      using distinct_take files distinct_glob [OF dist] by (metis mset_eq_imp_distinct_iff)
    have "map_of d (si_Filename i) \<noteq> None" if "i \<in> set (take m ?infos)" for i
      using mem [of i] that set_glob [of d] by (auto dest!: in_set_takeD)
    then obtain w2 where R: "remove_expired db io s (take m ?infos) d w [] = (fold AList.delete (map si_Filename (take m ?infos)) d, w2, [])"
      using remove_expired_all [of io "take m ?infos" d db s w "[]"] assms(4) dn by auto
    have d': "d' = fold AList.delete (map si_Filename (take m ?infos)) d" and e: "err = None"
      using assms(5,6) False R by (auto simp: enforceSnapshotLimit_def Let_def limit_def m_def split: if_splits)
    note P = removed_prefix [OF dist files d']
    have order: "a < b" if N: "n \<in> set (Glob d) - set (Glob d')" "n' \<in> set (Glob d')" "archived bpf n a" "archived bpf n' b" for n n' a b
    proof -
      have "set (Glob d) = si_Filename ` (set (take m ?infos) \<union> set (drop m ?infos))"
        unfolding set_append [symmetric] append_take_drop_id using files by (metis list.set_map set_mset_mset)
      then obtain i where i: "i \<in> set (take m ?infos)" "n = si_Filename i" using N(1) P(1) by auto
      obtain j where j: "j \<in> set (drop m ?infos)" "n' = si_Filename j" using N(2) P(1) by blast
      have "si_StartBlock i \<le> si_StartBlock j" using sorts_by_take_drop [OF assms(1)] i(1) j(1) unfolding ListSnapshots_def by blast
      moreover have "archived bpf n (si_StartBlock i)" "archived bpf n' (si_StartBlock j)"
        using mem i j by (auto dest: in_set_takeD in_set_dropD)
      ultimately have "a \<le> b" using archived_unique N(3,4) by metis
      moreover have "n \<noteq> n'" using N(1,2) by blast
      ultimately show ?thesis using N(3,4) by (cases "a = b") (auto simp: archived_def)
    qed
    have "int (length (Glob d')) = limit" using P(2) False lim by (simp add: m_def)
    then show ?thesis using e order P(3) False len by (auto simp: limit_def [symmetric])
  qed
qed

text \<open>Three snapshots and a limit of two.\<close>

definition three_snapshots :: snapdir where
  "three_snapshots = map (\<lambda>a. (snapshot_name a (a + 10 - 1), \<lparr>sf_bytes = be32 0 @ be32 0, sf_mtime = 0\<rparr>)) [20, 0, 10]"

definition open_codecs :: codecs where
  "open_codecs = sample_codecs\<lparr>json_Marshal_header := \<lambda>_. Inr []\<rparr>"

lemma empty_export: "complete_export open_codecs (Some sample_ranges) sample_snapDB a e (be32 0 @ be32 0)"
  unfolding complete_export_def
  by (intro exI [of _ "\<lparr>kh_Magic = ''DFKV'', kh_Version = 1, kh_StartBlock = a, kh_EndBlock = e, kh_CreatedAt = [], kh_BlockSigMerkleRoots = []\<rparr>"]
      exI [of _ "[]"] exI [of _ sample_io] exI [of _ "()"] exI [of _ 2] exI [of _ 0])
    (simp add: open_codecs_def sample_codecs_def exportCollectionKVs_def sample_ranges_def)

lemma three_archive: "archive open_codecs (Some sample_ranges) sample_snapDB 10 29 three_snapshots"
  using empty_export [of 20 29] empty_export [of 0 9] empty_export [of 10 19]
  by (auto simp: archive_def three_snapshots_def archived_def split: if_splits)

theorem snapshot_retention_witness:
  "\<exists>s' d' w'. enforceSnapshotLimit (sort_key si_StartBlock) (sw_prune sample_snapDB) sample_io sample_snapshotter three_snapshots () = (s', d', w', None)
    \<and> length (Glob three_snapshots) = 3 \<and> length (Glob d') = 2
    \<and> (\<forall>n \<in> set (Glob three_snapshots) - set (Glob d'). \<forall>n' \<in> set (Glob d'). \<forall>a b. archived 10 n a \<longrightarrow> archived 10 n' b \<longrightarrow> a < b)"
proof -
  obtain s' d' w' err where r: "enforceSnapshotLimit (sort_key si_StartBlock) (sw_prune sample_snapDB) sample_io sample_snapshotter three_snapshots ()
      = (s', d', w', err)" by (metis surj_pair)
  have g: "length (Glob three_snapshots) = 3" by (simp add: Glob_def three_snapshots_def)
  have m: "MaxSnapshots (sn_cfg sample_snapshotter) = 2" by (simp add: sample_snapshotter_def NewSnapshotter_def)
  show ?thesis using snapshot_retention [OF sorts_by_sort_key _ three_archive _ _ r] g r by (simp add: m sample_io_def)
qed

section \<open>Import\<close>

text \<open>\<open>ExportDocKVs\<close> writes its pairs, each in a frame, and an end marker; \<open>ImportRawKVs\<close> puts the pairs of such a
  stream one after the other.\<close>

definition kv_format :: "'w snapDB \<Rightarrow> ('p \<Rightarrow> bytes) \<Rightarrow> ('w \<Rightarrow> string \<Rightarrow> docID list \<Rightarrow> 'p list) \<Rightarrow> ('p \<Rightarrow> 'w \<Rightarrow> 'w) \<Rightarrow> bool" where
  "kv_format db frame pairs put \<longleftrightarrow>
     (\<forall>w col ids data n. sw_Export db w col ids = Inr (data, n) \<longrightarrow> data = concat (map frame (pairs w col ids)) @ be32 0)
   \<and> (\<forall>w kvs. sw_ImportRawKVs db w (concat (map frame kvs) @ be32 0, None) = (fold put kvs w, Inr (int (length kvs))))"

text \<open>The codecs read back what they wrote; a header has fewer than \<open>2 ^ 32\<close> bytes.\<close>

definition codecs_ok :: "codecs \<Rightarrow> bool" where
  "codecs_ok k \<longleftrightarrow> (\<forall>x. gunzip k (gzip k x) = Inr (x, None))
     \<and> (\<forall>h b. json_Marshal_header k h = Inr b \<longrightarrow> json_Unmarshal_header k b = Inr h \<and> length b < 2 ^ 32)"

text \<open>The pairs of the documents of a range, collection by collection in the order of their names.\<close>

definition exported_pairs :: "('w \<Rightarrow> string \<Rightarrow> docID list \<Rightarrow> 'p list) \<Rightarrow> 'w \<Rightarrow> (string \<times> docID list) list \<Rightarrow> 'p list" where
  "exported_pairs pairs w m = concat (map (\<lambda>col. case map_of m col of None \<Rightarrow> [] | Some ids \<Rightarrow> if ids = [] then [] else pairs w col ids)
     (sort (map fst m)))"

lemma be32_length [simp]: "length (be32 n) = 4"
  by (simp add: be32_def)

lemma be32_read_be32: "n < 2 ^ 32 \<Longrightarrow> be32_read (be32 n) = n"
proof -
  assume n: "n < 2 ^ 32"
  have u: "unat (word_of_nat (x mod 256) :: byte) = x mod 256" for x by (simp add: unat_of_nat)
  define a b c where "a = n div 256" and "b = a div 256" and "c = b div 256"
  have "256 * a + n mod 256 = n" "256 * b + a mod 256 = a" "256 * c + b mod 256 = b" by (simp_all add: a_def b_def c_def)
  moreover have abc: "n div 65536 = b" "n div 16777216 = c" by (simp_all add: a_def b_def c_def flip: div_mult2_eq)
  moreover have "c mod 256 = c" using n unfolding abc(2) [symmetric] by (simp add: less_mult_imp_div_less)
  ultimately have "256 * (256 * (256 * c + b mod 256) + a mod 256) + n mod 256 = n" by simp
  moreover have "be32_read (be32 n) = 256 * (256 * (256 * (c mod 256) + b mod 256) + a mod 256) + n mod 256"
    by (simp only: be32_read_def be32_def list.map fold.simps comp_apply id_apply u) (simp add: abc a_def)
  ultimately show "be32_read (be32 n) = n" using \<open>c mod 256 = c\<close> by simp
qed

lemma export_each_pairs:
  assumes "kv_format db frame pairs put"
  shows "export_each db io w m names n out cnt = Inr (out', n', cnt') \<Longrightarrow>
    out' = out @ concat (map frame (concat (map (\<lambda>col. case map_of m col of None \<Rightarrow> [] | Some ids \<Rightarrow> if ids = [] then [] else pairs w col ids) names)))"
proof (induction names arbitrary: n out cnt)
  case (Cons col names)
  have "strip_sentinel data = concat (map frame (pairs w col ids))" if "sw_Export db w col ids = Inr (data, j)" for ids data j
    using assms that unfolding kv_format_def strip_sentinel_def by fastforce
  then show ?case using Cons.prems by (auto dest!: Cons.IH split: option.splits sum.splits if_splits prod.splits)
qed simp

text \<open>C24: importing a snapshot restores what was exported. A file written by \<open>writeKVSnapshotFile\<close>, read by
  \<open>ImportKV\<close> into any database, puts exactly the key-value pairs of the documents of the range, collection by
  collection, and the import reports the range of the file.\<close>

theorem snapshot_roundtrip:
  assumes "kv_format db frame pairs put" "codecs_ok k" "DocIDsByRange c (pr_Exec (sw_prune db) w) s e = Inr m"
    and "writeKVSnapshotFile k (Some c) db io sigCol name s e d w = (d', Inr roots)"
    and "fs path = map_option sf_bytes (map_of d' name)"
  shows "ImportKV k db fs path w2 = (fold put (exported_pairs pairs w m) w2, Inr \<lparr>ir_StartBlock = s, ir_EndBlock = e\<rparr>)"
proof -
  obtain content where W: "writeKVSnapshotContents k (Some c) db io sigCol s e w = Inr (content, roots)"
    and f: "map_of d' name = Some \<lparr>sf_bytes = gzip k content, sf_mtime = io_mtime io\<rparr>"
    using assms(4) by (auto simp: writeKVSnapshotFile_def Let_def update_conv' split: option.splits sum.splits prod.splits)
  define rs where "rs = (case getBlockSigMerkleRoots (pr_Exec (sw_prune db) w) sigCol s e of Inl _ \<Rightarrow> [] | Inr (rs, _) \<Rightarrow> rs)"
  let ?h = "\<lparr>kh_Magic = ''DFKV'', kh_Version = 1, kh_StartBlock = s, kh_EndBlock = e, kh_CreatedAt = io_headerTime io,
    kh_BlockSigMerkleRoots = map hex_encode rs\<rparr>"
  obtain hb kvs n total where c: "json_Marshal_header k ?h = Inr hb" "export_each db io w m (sort (map fst m)) 2 [] 0 = Inr (kvs, n, total)"
    "content = be32 (length hb) @ hb @ kvs @ be32 0"
    using W assms(3) by (auto simp: writeKVSnapshotContents_def exportCollectionKVs_def Let_def rs_def [symmetric] split: option.splits sum.splits prod.splits)
  have hb: "json_Unmarshal_header k hb = Inr ?h" "be32_read (be32 (length hb)) = length hb" "gunzip k (gzip k content) = Inr (content, None)"
    using assms(2) c(1) be32_read_be32 unfolding codecs_ok_def by blast+
  have "kvs = concat (map frame (exported_pairs pairs w m))"
    using export_each_pairs [OF assms(1) c(2)] by (simp add: exported_pairs_def)
  then have "sw_ImportRawKVs db w2 (kvs @ be32 0, None) = (fold put (exported_pairs pairs w m) w2, Inr (int (length (exported_pairs pairs w m))))"
    using assms(1) unfolding kv_format_def by blast
  then show ?thesis using hb by (simp add: ImportKV_def open_file_def assms(5) f ReadFull_def c(3))
qed

text \<open>A database whose key-value pairs are single bytes.\<close>

definition byte_frame :: "byte \<Rightarrow> bytes" where
  "byte_frame p = [0, 0, 0, 1, p]"

fun byte_frames :: "bytes \<Rightarrow> byte list" where
  "byte_frames (a # b # c # d # p # rest) = (if d = 0 then [] else p # byte_frames rest)"
| "byte_frames _ = []"

definition byte_db :: "bytes snapDB" where
  "byte_db = \<lparr>sw_block = \<lparr>NewTxn = \<lambda>w. (w, None), GetCollectionByName = \<lambda>_ _. None, NewDocFromMap = \<lambda>_ _. None,
       AddDocument = \<lambda>_ _ _ _. (None, []), AddManyDocuments = \<lambda>_ _ _. (None, []), Commit = \<lambda>w _. (w, None), DocIDString = \<lambda>_ _. [],
       ExecRequest = \<lambda>_. sample_exec\<rparr>,
     sw_prune = \<lparr>pr_Exec = \<lambda>_. sample_exec, pr_GetCollection = \<lambda>_ _. None, PurgeByDocIDs = \<lambda>w _ _ _. (w, None),
       NewDocIDFromString = \<lambda>_. None\<rparr>,
     sw_Export = \<lambda>w _ _. Inr (concat (map byte_frame w) @ be32 0, int (length w)),
     sw_ImportRawKVs = \<lambda>w r. (w @ byte_frames (fst r), Inr (int (length (byte_frames (fst r))))),
     sw_RebuildIndexes = \<lambda>w _. (w, None)\<rparr>"

definition byte_ranges :: blockRanges where
  "byte_ranges = \<lparr>LowestStored = \<lambda>_. Inr 1, HighestStored = \<lambda>_. Inr 25, DocIDsByRange = \<lambda>_ _ _. Inr [(''Block'', [''bae-1''])]\<rparr>"

lemma byte_frames_format: "byte_frames (concat (map byte_frame ps) @ be32 0) = ps"
  by (induction ps) (simp_all add: byte_frame_def be32_def)

lemma byte_kv_format: "kv_format byte_db byte_frame (\<lambda>w _ _. w) (\<lambda>p w. w @ [p])"
proof -
  have "fold (\<lambda>p w. w @ [p]) ps w = w @ ps" for ps w :: bytes by (induction ps arbitrary: w) auto
  then show ?thesis by (simp add: kv_format_def byte_db_def byte_frames_format)
qed

lemma plain_codecs_ok: "codecs_ok plain_codecs"
  by (auto simp: codecs_ok_def plain_codecs_def sample_codecs_def split: if_splits)

theorem snapshot_roundtrip_witness:
  "\<exists>d' roots. writeKVSnapshotFile plain_codecs (Some byte_ranges) byte_db sample_io ''Sig'' ''snap'' 10 19 [] [7, 8] = (d', Inr roots)
    \<and> ImportKV plain_codecs byte_db (\<lambda>_. map_option sf_bytes (map_of d' ''snap'')) ''snap'' [5]
      = ([5, 7, 8], Inr \<lparr>ir_StartBlock = 10, ir_EndBlock = 19\<rparr>)"
proof -
  have "\<exists>d' roots. writeKVSnapshotFile plain_codecs (Some byte_ranges) byte_db sample_io ''Sig'' ''snap'' 10 19 [] [7, 8] = (d', Inr roots)"
    by (simp add: writeKVSnapshotFile_def writeKVSnapshotContents_def Let_def sample_io_def getBlockSigMerkleRoots_def byte_db_def
        sample_exec_def plain_codecs_def sample_codecs_def exportCollectionKVs_def byte_ranges_def sample_header_def)
  then obtain d' roots where W: "writeKVSnapshotFile plain_codecs (Some byte_ranges) byte_db sample_io ''Sig'' ''snap'' 10 19 [] [7, 8] = (d', Inr roots)"
    by blast
  have m: "DocIDsByRange byte_ranges (pr_Exec (sw_prune byte_db) [7, 8]) 10 19 = Inr [(''Block'', [''bae-1''])]" by (simp add: byte_ranges_def)
  have "exported_pairs (\<lambda>w _ _. w) [7, 8] [(''Block'', [''bae-1''])] = [7, 8 :: byte]" by (simp add: exported_pairs_def)
  then show ?thesis using snapshot_roundtrip [OF byte_kv_format plain_codecs_ok m W, of _ "''snap''" "[5]"] W by simp
qed

end
