(* ===== verification/Schema_Apply.thy ===== *)
theory Schema_Apply
  imports Chain_Model
begin

text \<open>
  Files \<open>pkg/schema/loader.go\<close>, \<open>pkg/defradb/schema_apply.go\<close>, \<open>pkg/defradb/schema.go\<close> and
  \<open>cmd/build_schema/main.go\<close>: the schema of a chain, and its application to a database, in one document first and
  file by file when some collections exist already.

  The database and the HTTP transport are arguments; what the application relies on is the predicate
  \<open>additive_schema\<close>.
\<close>

section \<open>Loading\<close>

record CollectionEntry =
  ce_Name :: string
  ce_TypeName :: string

definition list_error :: "CollectionNames \<Rightarrow> goerror \<Rightarrow> goerror" where
  "list_error c e = Wrapped (''list collection files for prefix '' @ prefix_of c @ '': '') e []"

definition ListCollections :: "(string \<Rightarrow> string result) \<Rightarrow> CollectionNames \<Rightarrow> CollectionEntry list result" where
  "ListCollections readFile c = (case CollectionFiles readFile c of Inl e \<Rightarrow> Inl (list_error c e)
     | Inr files \<Rightarrow> Inr (map (\<lambda>f. \<lparr>ce_Name = cf_Name f, ce_TypeName = TypeName f\<rparr>) files))"

definition PrecomputeCollectionSDLs :: "(string \<Rightarrow> string result) \<Rightarrow> CollectionNames \<Rightarrow> (string \<Rightarrow> string option) result" where
  "PrecomputeCollectionSDLs readFile c = (case CollectionFiles readFile c of Inl e \<Rightarrow> Inl (list_error c e)
     | Inr files \<Rightarrow> Inr (fold (\<lambda>f m. m(cf_Name f \<mapsto> SDL f)) files (\<lambda>_. None)))"

definition LoadSchemaSDLForChain :: "(string \<Rightarrow> string result) \<Rightarrow> CollectionNames \<Rightarrow> string result" where
  "LoadSchemaSDLForChain readFile c = (case CollectionFiles readFile c of Inl e \<Rightarrow> Inl (list_error c e)
     | Inr files \<Rightarrow> if files = [] then Inl (ErrMsg (''no collection files found for prefix '' @ prefix_of c)) else Inr (MergeSDL files))"

section \<open>The command\<close>

definition collectionSDLByFile :: "(string \<Rightarrow> string result) \<Rightarrow> CollectionNames \<Rightarrow> string \<Rightarrow> string result" where
  "collectionSDLByFile readFile c file = (case CollectionFiles readFile c of Inl e \<Rightarrow> Inl e
     | Inr files \<Rightarrow> (case List.find (\<lambda>f. File f = file) files of Some f \<Rightarrow> Inr (SDL f)
       | None \<Rightarrow> Inl (ErrMsg (''collection file '' @ quoted file @ '' not found for prefix '' @ prefix_of c))))"

record build_flags =
  fl_listFiles :: bool
  fl_chain :: string
  fl_network :: string
  fl_adapter :: string
  fl_file :: string
  fl_prefix :: string

text \<open>The text \<open>run\<close> prints, given the parsed flags (\<open>flags\<close> is the result of \<open>fs.Parse\<close>); writes to the standard
  output succeed.\<close>

definition build_schema_run ::
  "('f, 'c, CollectionNames) registry \<Rightarrow> (string \<Rightarrow> string result) \<Rightarrow> build_flags result \<Rightarrow> string result" where
  "build_schema_run reg readFile flags = (case flags of Inl e \<Rightarrow> Inl e
     | Inr fl \<Rightarrow>
       if fl_prefix fl \<noteq> [] then Inl (ErrMsg ''--prefix is no longer supported; use --chain, --network, and --adapter instead'')
       else (case NewCollections reg (Some \<lparr>ChainName = fl_chain fl, Network = fl_network fl, Hub = [], Adapter = fl_adapter fl\<rparr>) of
         Inl e \<Rightarrow> Inl e
       | Inr c \<Rightarrow>
         if fl_listFiles fl then (case CollectionFiles readFile c of Inl e \<Rightarrow> Inl e
           | Inr files \<Rightarrow> Inr (concat (map (\<lambda>f. File f @ [CHR 10]) files)))
         else if fl_file fl \<noteq> [] then collectionSDLByFile readFile c (fl_file fl)
         else LoadSchemaSDLForChain readFile c))"

section \<open>Applying\<close>

type_synonym 'w apply_schema = "'w \<Rightarrow> string \<Rightarrow> 'w \<times> goerror option"

text \<open>The two backends. \<open>addCollection\<close> is the call of the database; \<open>http_post\<close> sends a document to a URL and
  yields the status and the body, and \<open>bad_url\<close> tells whether the request cannot be built.\<close>

definition db_ApplySchema :: "('w \<Rightarrow> string \<Rightarrow> 'w \<times> goerror option) \<Rightarrow> 'w apply_schema" where
  "db_ApplySchema addCollection = addCollection"

definition http_error :: "int \<Rightarrow> string \<Rightarrow> goerror" where
  "http_error status body = ErrMsg (''schema application failed with status '' @ itoa status @ '': '' @ body)"

definition http_ApplySchema ::
  "(string \<Rightarrow> goerror option) \<Rightarrow> ('w \<Rightarrow> string \<Rightarrow> string \<Rightarrow> 'w \<times> (int \<times> string) result) \<Rightarrow> string \<Rightarrow> 'w apply_schema" where
  "http_ApplySchema bad_url http_post base w sdl = (let schemaURL = base @ ''/api/v0/collections'' in
     case bad_url schemaURL of Some e \<Rightarrow> (w, Some (Wrapped ''failed to create schema request: '' e []))
     | None \<Rightarrow> (case http_post w schemaURL sdl of
         (w, Inl e) \<Rightarrow> (w, Some (Wrapped ''failed to send schema: '' e []))
       | (w, Inr (status, body)) \<Rightarrow> (w, if status = 200 then None else Some (http_error status body))))"

abbreviation ErrStrCollectionAlreadyExists :: string where "ErrStrCollectionAlreadyExists \<equiv> ''collection already exists''"

definition exists_error :: "goerror \<Rightarrow> bool" where
  "exists_error e \<longleftrightarrow> contains (error_text e) ErrStrCollectionAlreadyExists"

fun apply_files :: "'w apply_schema \<Rightarrow> CollectionFile list \<Rightarrow> 'w \<Rightarrow> 'w \<times> goerror option" where
  "apply_files backend [] w = (w, None)"
| "apply_files backend (f # fs) w = (case backend w (SDL f) of
     (w, None) \<Rightarrow> apply_files backend fs w
   | (w, Some e) \<Rightarrow> if exists_error e then apply_files backend fs w
       else (w, Some (Wrapped (''failed to apply collection schema '' @ File f @ '': '') e [])))"

definition applyPerFileWithBackend ::
  "'w apply_schema \<Rightarrow> (string \<Rightarrow> string result) \<Rightarrow> CollectionNames \<Rightarrow> 'w \<Rightarrow> 'w \<times> goerror option" where
  "applyPerFileWithBackend backend readFile c w = (case CollectionFiles readFile c of
     Inl e \<Rightarrow> (w, Some (Wrapped ''failed to list collection files: '' e []))
   | Inr files \<Rightarrow> apply_files backend files w)"

definition applyWithBackend ::
  "'w apply_schema \<Rightarrow> (string \<Rightarrow> string result) \<Rightarrow> CollectionNames \<Rightarrow> 'w \<Rightarrow> 'w \<times> goerror option" where
  "applyWithBackend backend readFile c w = (case LoadSchemaSDLForChain readFile c of
     Inl e \<Rightarrow> (w, Some (Wrapped ''failed to load schema: '' e []))
   | Inr sdl \<Rightarrow> (case backend w sdl of
       (w, None) \<Rightarrow> (w, None)
     | (w, Some e) \<Rightarrow> if exists_error e then applyPerFileWithBackend backend readFile c w
         else (w, Some (Wrapped ''failed to apply schema: '' e []))))"

definition ApplyCollectionSchemas ::
  "('w \<Rightarrow> string \<Rightarrow> 'w \<times> goerror option) \<Rightarrow> (string \<Rightarrow> string result) \<Rightarrow> CollectionNames \<Rightarrow> 'w \<Rightarrow> 'w \<times> goerror option" where
  "ApplyCollectionSchemas addCollection = applyWithBackend (db_ApplySchema addCollection)"

definition ApplyCollectionSchemasViaHTTP ::
  "(string \<Rightarrow> goerror option) \<Rightarrow> ('w \<Rightarrow> string \<Rightarrow> string \<Rightarrow> 'w \<times> (int \<times> string) result) \<Rightarrow> string \<Rightarrow>
   (string \<Rightarrow> string result) \<Rightarrow> CollectionNames \<Rightarrow> 'w \<Rightarrow> 'w \<times> goerror option" where
  "ApplyCollectionSchemasViaHTTP bad_url http_post defraURL = applyWithBackend (http_ApplySchema bad_url http_post defraURL)"

section \<open>What the database promises\<close>

text \<open>Schema changes are additive: a document that declares a collection the database has is refused with the text
  of the source's comment and changes nothing, one whose references cannot be resolved is refused with
  another text, and any other one adds its collections. \<open>has\<close> are the collections of the database, \<open>declares\<close> and
  \<open>refers\<close> the types a document declares and refers to.\<close>

definition additive_schema ::
  "'w apply_schema \<Rightarrow> ('w \<Rightarrow> string set) \<Rightarrow> (string \<Rightarrow> string set) \<Rightarrow> (string \<Rightarrow> string set) \<Rightarrow> bool" where
  "additive_schema backend has declares refers \<longleftrightarrow> (\<forall>w sdl.
     (declares sdl \<inter> has w \<noteq> {} \<longrightarrow> (\<exists>e. backend w sdl = (w, Some e) \<and> exists_error e))
   \<and> (declares sdl \<inter> has w = {} \<longrightarrow> refers sdl \<subseteq> has w \<union> declares sdl \<longrightarrow>
        (\<exists>w'. backend w sdl = (w', None) \<and> has w' = has w \<union> declares sdl))
   \<and> (declares sdl \<inter> has w = {} \<longrightarrow> \<not> refers sdl \<subseteq> has w \<union> declares sdl \<longrightarrow>
        (\<exists>e. backend w sdl = (w, Some e) \<and> \<not> exists_error e)))"

text \<open>Each file declares its own type, and the merged document is the union of the files.\<close>

definition files_declare :: "CollectionFile list \<Rightarrow> (string \<Rightarrow> string set) \<Rightarrow> (string \<Rightarrow> string set) \<Rightarrow> bool" where
  "files_declare files declares refers \<longleftrightarrow> (\<forall>f \<in> set files. declares (SDL f) = {TypeName f})
     \<and> declares (MergeSDL files) = TypeName ` set files \<and> refers (MergeSDL files) = (\<Union>f \<in> set files. refers (SDL f))"

lemma apply_files_result:
  assumes "additive_schema backend has declares refers"
  shows "\<forall>f \<in> set fs. declares (SDL f) = {TypeName f} \<Longrightarrow> apply_files backend fs w = (w', err) \<Longrightarrow>
    has w \<subseteq> has w' \<and> has w' \<subseteq> has w \<union> TypeName ` set fs \<and> (err = None \<longrightarrow> TypeName ` set fs \<subseteq> has w')"
proof (induction fs arbitrary: w)
  case (Cons f fs)
  let ?w1 = "fst (backend w (SDL f))"
  have d: "declares (SDL f) = {TypeName f}" using Cons.prems(1) by simp
  have step: "(\<exists>e. backend w (SDL f) = (w, Some e) \<and> (exists_error e \<longleftrightarrow> TypeName f \<in> has w))
      \<or> (\<exists>w1. backend w (SDL f) = (w1, None) \<and> has w1 = insert (TypeName f) (has w))"
    using assms [unfolded additive_schema_def, rule_format, of "SDL f" w] unfolding d by auto
  then show ?case
  proof (elim disjE exE conjE)
    fix w1 assume "backend w (SDL f) = (w1, None)" "has w1 = insert (TypeName f) (has w)"
    then show ?case using Cons.IH [of w1] Cons.prems by auto
  next
    fix e assume "backend w (SDL f) = (w, Some e)" "exists_error e \<longleftrightarrow> TypeName f \<in> has w"
    then show ?case using Cons.IH [of w] Cons.prems by (auto split: if_splits)
  qed
qed simp

section \<open>Properties\<close>

text \<open>C31: applying the schema is complete and repeatable. Over a database with additive schema changes, an application
  never loses a collection and adds none but those of the chain; when it reports success, every collection of the
  chain exists. It succeeds on a database without any of the collections whose references resolve, and on one that
  has them all, where it changes nothing; so a restart is always possible.\<close>

theorem schema_application:
  assumes "additive_schema backend has declares refers" "CollectionFiles readFile c = Inr files" "files_declare files declares refers"
    and "applyWithBackend backend readFile c w = (w', err)"
  shows "has w \<subseteq> has w' \<and> has w' \<subseteq> has w \<union> TypeName ` set files \<and> (err = None \<longrightarrow> TypeName ` set files \<subseteq> has w')
    \<and> (TypeName ` set files \<inter> has w = {} \<longrightarrow> refers (MergeSDL files) \<subseteq> has w \<union> TypeName ` set files \<longrightarrow> err = None)
    \<and> (TypeName ` set files \<subseteq> has w \<longrightarrow> err = None \<and> has w' = has w)"
proof -
  have ne: "files \<noteq> []" using collect_files_types [of readFile "prefix_of c" "collection_specs c" files] assms(2)
    by (auto simp: CollectionFiles_def collection_specs_def)
  have m: "declares (MergeSDL files) = TypeName ` set files" and d: "\<forall>f \<in> set files. declares (SDL f) = {TypeName f}"
    using assms(3) by (auto simp: files_declare_def)
  have run: "applyWithBackend backend readFile c w = (case backend w (MergeSDL files) of (w, None) \<Rightarrow> (w, None)
      | (w, Some e) \<Rightarrow> if exists_error e then apply_files backend files w else (w, Some (Wrapped ''failed to apply schema: '' e [])))"
    by (simp add: applyWithBackend_def LoadSchemaSDLForChain_def assms(2) ne applyPerFileWithBackend_def cong: option.case_cong prod.case_cong if_cong)
  note L = assms(1) [unfolded additive_schema_def, rule_format, of "MergeSDL files" w, unfolded m]
  show ?thesis
  proof (cases "TypeName ` set files \<inter> has w = {}")
    case True
    then have "\<not> TypeName ` set files \<subseteq> has w" using ne by (cases files) auto
    then show ?thesis using True L assms(4) unfolding run by (auto split: if_splits)
  next
    case False
    then obtain e where "backend w (MergeSDL files) = (w, Some e)" "exists_error e" using L by auto
    then have a: "apply_files backend files w = (w', err)" using assms(4) unfolding run by simp
    have "err = None" if all: "TypeName ` set files \<subseteq> has w"
    proof -
      have "TypeName ` set fs \<subseteq> has w \<Longrightarrow> set fs \<subseteq> set files \<Longrightarrow> apply_files backend fs w = (w, None)" for fs
      proof (induction fs)
        case (Cons f fs)
        then have "declares (SDL f) \<inter> has w \<noteq> {}" using d by auto
        then obtain e where "backend w (SDL f) = (w, Some e)" "exists_error e"
          using assms(1) unfolding additive_schema_def by blast
        then show ?case using Cons by simp
      qed simp
      from this [of files] show ?thesis using a all by simp
    qed
    then show ?thesis using apply_files_result [OF assms(1) d a] False by blast
  qed
qed

text \<open>A database that is the set of its collections. A file holds its own name, and any other document declares them all.\<close>

definition sample_readFile :: "string \<Rightarrow> string result" where
  "sample_readFile p = Inr (drop 12 p)"

abbreviation (input) sample_names :: CollectionNames where "sample_names \<equiv> NewCollectionNames ''P''"

definition sample_types :: "(string \<times> string) list" where
  "sample_types = map (\<lambda>(t, _, f). (f, t)) (collection_specs sample_names)"

definition sample_declares :: "string \<Rightarrow> string set" where
  "sample_declares sdl = (case map_of sample_types sdl of Some t \<Rightarrow> {t} | None \<Rightarrow> snd ` set sample_types)"

definition sample_backend :: "string set apply_schema" where
  "sample_backend w sdl = (if sample_declares sdl \<inter> w \<noteq> {} then (w, Some (ErrMsg ErrStrCollectionAlreadyExists)) else (w \<union> sample_declares sdl, None))"

definition sample_collection_files :: "CollectionFile list" where
  "sample_collection_files = map (\<lambda>(t, n, f). \<lparr>TypeName = t, cf_Name = n, File = f, SDL = f\<rparr>) (collection_specs sample_names)"

lemma sample_CollectionFiles: "CollectionFiles sample_readFile sample_names = Inr sample_collection_files"
proof -
  have "case CollectionFiles sample_readFile sample_names of Inl _ \<Rightarrow> False | Inr fs \<Rightarrow> fs = sample_collection_files" by code_simp
  then show ?thesis by (simp split: sum.splits)
qed

lemma sample_additive: "additive_schema sample_backend id sample_declares (\<lambda>_. {})"
  by (auto simp: additive_schema_def sample_backend_def exists_error_def)

lemma sample_types_of: "list_all (\<lambda>f. map_of sample_types (SDL f) = Some (TypeName f)) sample_collection_files"
    "map_of sample_types (MergeSDL sample_collection_files) = None" "map snd sample_types = map TypeName sample_collection_files"
  by code_simp+

lemma sample_files_declare: "files_declare sample_collection_files sample_declares (\<lambda>_. {})"
  using sample_types_of(1,2) arg_cong [OF sample_types_of(3), of set]
  by (auto simp: files_declare_def sample_declares_def list_all_iff)

theorem schema_application_witness:
  "\<exists>w'. applyWithBackend sample_backend sample_readFile sample_names {} = (w', None) \<and> TypeName ` set sample_collection_files \<subseteq> w'
    \<and> applyWithBackend sample_backend sample_readFile sample_names w' = (w', None)"
proof -
  note T = schema_application [OF sample_additive sample_CollectionFiles sample_files_declare]
  obtain w1 e1 where r1: "applyWithBackend sample_backend sample_readFile sample_names {} = (w1, e1)" by (metis surj_pair)
  obtain w2 e2 where r2: "applyWithBackend sample_backend sample_readFile sample_names w1 = (w2, e2)" by (metis surj_pair)
  from T [OF r1] T [OF r2] show ?thesis using r1 r2 by auto
qed

end
