(* ===== verification/Network_Handler.thy ===== *)
theory Network_Handler
  imports Config Prune_Queue
begin

text \<open>
  Files \<open>pkg/defradb/network_handler.go\<close>, \<open>network_state.go\<close> and \<open>peers.go\<close>: the peers of the embedded database, their
  connection attempts with backoff, the health check, and the reconnection loop with its stop.

  The handler's lock is released while a connection attempt runs or waits; the operations below are the runs in which
  no other operation comes in between, each one step on the state. A Go map is iterated in an unspecified order, given
  as a list of its keys. \<open>conn_env\<close> holds what the attempts of one call see: the results of \<open>DB.Connect\<close>, the
  state of the context and the time. The interleaving of the reconnection loop with \<open>StopNetwork\<close> is a step relation.
\<close>

section \<open>Peer strings\<close>

text \<open>\<open>strings.Split\<close> on a nonempty separator.\<close>

function split_str :: "string \<Rightarrow> string \<Rightarrow> string list" where
  "split_str sep s = (if sep = [] \<or> s = [] then [s]
     else if prefix sep s then [] # split_str sep (drop (length sep) s)
     else case split_str sep (tl s) of p # ps \<Rightarrow> (hd s # p) # ps | [] \<Rightarrow> [s])"
  by pat_completeness auto
termination
  by (relation "measure (\<lambda>(sep, s). length s)") auto

declare split_str.simps [simp del]

record PeerInfo =
  pi_Addresses :: "string list"
  pi_ID :: string

abbreviation (input) p2p_sep :: string where "p2p_sep \<equiv> [CHR 0x2F] @ ''p2p'' @ [CHR 0x2F]"

text \<open>\<open>%v\<close> of a \<open>[]string\<close>.\<close>

definition strings_text :: "string list \<Rightarrow> string" where
  "strings_text ss = ''['' @ join '' '' ss @ '']''"

fun bootstrap_each :: "string list \<Rightarrow> nat \<Rightarrow> string list \<Rightarrow> PeerInfo list \<times> goerror list" where
  "bootstrap_each all i [] = ([], [])"
| "bootstrap_each all i (p # ps) = (case bootstrap_each all (i + 1) ps of (peers, errs) \<Rightarrow>
     (case split_str p2p_sep p of
        [address, peerID] \<Rightarrow> (\<lparr>pi_Addresses = [address], pi_ID = peerID\<rparr> # peers, errs)
      | _ \<Rightarrow> (peers, ErrMsg (''peer at index '' @ itoa (int i) @ '' is invalid and will be skipped. Given: '' @ strings_text all) # errs)))"

definition BootstrapIntoPeers :: "string list \<Rightarrow> PeerInfo list \<times> goerror list" where
  "BootstrapIntoPeers configured = bootstrap_each configured 0 configured"

fun peers_each :: "nat \<Rightarrow> PeerInfo list \<Rightarrow> string list \<times> goerror list" where
  "peers_each i [] = ([], [])"
| "peers_each i (p # ps) = (case peers_each (i + 1) ps of (bs, errs) \<Rightarrow>
     if pi_ID p = [] then (bs, ErrMsg (''peer at index '' @ itoa (int i) @ '' has empty ID and will be skipped'') # errs)
     else case pi_Addresses p of
       [] \<Rightarrow> (bs, ErrMsg (''peer at index '' @ itoa (int i) @ '' has no addresses and will be skipped'') # errs)
     | address # _ \<Rightarrow> ((address @ p2p_sep @ pi_ID p) # bs, errs))"

definition PeersIntoBootstrap :: "PeerInfo list \<Rightarrow> string list \<times> goerror list" where
  "PeersIntoBootstrap peers = peers_each 0 peers"

definition connectToPeers :: "(string list \<Rightarrow> goerror option) \<Rightarrow> string list \<Rightarrow> goerror option" where
  "connectToPeers db_connect ps = (if ps = [] then None
     else case db_connect ps of None \<Rightarrow> None | Some e \<Rightarrow> Some (Wrapped ''error connecting to peer: '' e []))"

text \<open>The text after the last separator.\<close>

definition extractPeerID :: "string \<Rightarrow> string" where
  "extractPeerID m = (case filter (\<lambda>i. take 5 (drop i m) = p2p_sep) (rev [0..<length m - 4]) of
     i # _ \<Rightarrow> drop (i + 5) m | [] \<Rightarrow> [])"

section \<open>State\<close>

datatype ConnectionState = StateDisconnected | StateConnecting | StateConnected | StateReconnecting | StateFailed

fun ConnectionState_String :: "ConnectionState \<Rightarrow> string" where
  "ConnectionState_String StateDisconnected = ''DISCONNECTED''"
| "ConnectionState_String StateConnecting = ''CONNECTING''"
| "ConnectionState_String StateConnected = ''CONNECTED''"
| "ConnectionState_String StateReconnecting = ''RECONNECTING''"
| "ConnectionState_String StateFailed = ''FAILED''"

record PeerState =
  ps_Address :: string
  ps_State :: ConnectionState
  LastAttempt :: "int option"
  RetryCount :: int
  LastError :: "goerror option"
  ConnectedAt :: "int option"

definition IsConnected :: "PeerState \<Rightarrow> bool" where
  "IsConnected p \<longleftrightarrow> ps_State p = StateConnected"

definition IsReachable :: "PeerState \<Rightarrow> bool" where
  "IsReachable p \<longleftrightarrow> ps_State p \<noteq> StateFailed"

definition new_peer :: "string \<Rightarrow> PeerState" where
  "new_peer addr = \<lparr>ps_Address = addr, ps_State = StateDisconnected, LastAttempt = None, RetryCount = 0, LastError = None, ConnectedAt = None\<rparr>"

record NetworkHandler =
  nh_cfg :: DefraDBP2PConfig
  hostRunning :: bool
  networkActive :: bool
  nh_peers :: "string \<Rightarrow> PeerState option"
  nh_bootstrapPeers :: "string list"
  nh_reconnectStop :: bool

record ConnectionStats =
  TotalPeers :: nat
  ConnectedPeers :: nat
  ConnectingPeers :: nat
  DisconnectedPeers :: nat
  FailedPeers :: nat
  st_NetworkActive :: bool
  st_HostRunning :: bool

definition NewNetworkHandler :: "DefraDBP2PConfig \<Rightarrow> NetworkHandler" where
  "NewNetworkHandler c = (let c' = c\<lparr>MaxRetries := (if MaxRetries c = 0 then 5 else MaxRetries c),
       RetryBaseDelayMs := (if RetryBaseDelayMs c = 0 then 1000 else RetryBaseDelayMs c),
       ReconnectIntervalMs := (if ReconnectIntervalMs c = 0 then 60000 else ReconnectIntervalMs c)\<rparr> in
     \<lparr>nh_cfg = c', hostRunning = True, networkActive = False,
      nh_peers = fold (\<lambda>addr m. m(addr \<mapsto> new_peer addr)) (BootstrapPeers c) (\<lambda>_. None), nh_bootstrapPeers = BootstrapPeers c,
      nh_reconnectStop = False\<rparr>)"

section \<open>Connecting\<close>

record conn_env =
  db_connect :: "nat \<Rightarrow> string list \<Rightarrow> goerror option"
  ctx_after :: "nat \<Rightarrow> goerror option"
  ctx_during_wait :: "nat \<Rightarrow> int \<Rightarrow> goerror option"
  time_at :: "nat \<Rightarrow> int"
  time_connected :: "nat \<Rightarrow> int"

text \<open>\<open>1 << attempt\<close> is an \<open>int\<close> of 64 bits, and a duration counts nanoseconds in 64 bits.\<close>

definition peer_delay :: "int \<Rightarrow> nat \<Rightarrow> int" where
  "peer_delay baseDelayMs attempt =
     min (wrap_int64 (wrap_int64 (baseDelayMs * 1000000) * wrap_int64 (2 ^ attempt))) (30 * 1000000000)"

fun connect_attempts :: "conn_env \<Rightarrow> string \<Rightarrow> int \<Rightarrow> int \<Rightarrow> nat \<Rightarrow> nat \<Rightarrow> PeerState \<Rightarrow> PeerState \<times> goerror option" where
  "connect_attempts env addr base maxRetries attempt 0 peer = (peer\<lparr>ps_State := StateFailed\<rparr>,
     Some (wrap_nilable (''failed to connect to peer '' @ addr @ '' after '' @ itoa maxRetries @ '' retries: '') (LastError peer)))"
| "connect_attempts env addr base maxRetries attempt (Suc n) peer =
     (let peer = peer\<lparr>LastAttempt := Some (time_at env attempt), RetryCount := int attempt + 1\<rparr> in
      case connectToPeers (db_connect env attempt) [addr] of
        None \<Rightarrow> (peer\<lparr>ps_State := StateConnected, ConnectedAt := Some (time_connected env attempt), LastError := None\<rparr>, None)
      | Some e \<Rightarrow> (let peer = peer\<lparr>LastError := Some e\<rparr> in
          case ctx_after env attempt of Some c \<Rightarrow> (peer\<lparr>ps_State := StateDisconnected\<rparr>, Some c)
          | None \<Rightarrow> (case ctx_during_wait env attempt (peer_delay base attempt) of Some c \<Rightarrow> (peer\<lparr>ps_State := StateDisconnected\<rparr>, Some c)
            | None \<Rightarrow> connect_attempts env addr base maxRetries (attempt + 1) n peer)))"

definition connectWithRetryLocked :: "conn_env \<Rightarrow> string \<Rightarrow> NetworkHandler \<Rightarrow> NetworkHandler \<times> goerror option" where
  "connectWithRetryLocked env addr nh = (case nh_peers nh addr of
     None \<Rightarrow> (nh, Some (ErrMsg (''peer not found: '' @ addr)))
   | Some peer \<Rightarrow> (let retries = MaxRetries (nh_cfg nh) in
       case connect_attempts env addr (RetryBaseDelayMs (nh_cfg nh)) retries 0 (nat retries) (peer\<lparr>ps_State := StateConnecting, RetryCount := 0\<rparr>) of
         (peer, err) \<Rightarrow> (nh\<lparr>nh_peers := (nh_peers nh)(addr \<mapsto> peer)\<rparr>, err)))"

definition attemptReconnect :: "conn_env \<Rightarrow> string \<Rightarrow> NetworkHandler \<Rightarrow> NetworkHandler" where
  "attemptReconnect env addr nh = (case nh_peers nh addr of None \<Rightarrow> nh
     | Some peer \<Rightarrow> if ps_State peer \<in> {StateConnected, StateConnecting, StateReconnecting} then nh
         else fst (connectWithRetryLocked env addr (nh\<lparr>nh_peers := (nh_peers nh)(addr \<mapsto> peer\<lparr>ps_State := StateReconnecting\<rparr>)\<rparr>)))"

text \<open>One goroutine per peer that is down; \<open>order\<close> is the order in which they run.\<close>

definition reconnectDisconnectedPeers :: "(string \<Rightarrow> conn_env) \<Rightarrow> string list \<Rightarrow> NetworkHandler \<Rightarrow> NetworkHandler" where
  "reconnectDisconnectedPeers envs order nh =
     (let down = filter (\<lambda>addr. case nh_peers nh addr of None \<Rightarrow> False | Some p \<Rightarrow> ps_State p \<in> {StateDisconnected, StateFailed}) order in
      fold (\<lambda>addr. attemptReconnect (envs addr) addr) down nh)"

definition mark_down :: "string \<Rightarrow> PeerState \<Rightarrow> PeerState" where
  "mark_down why p = p\<lparr>ps_State := StateDisconnected, ConnectedAt := None, LastError := Some (ErrMsg why)\<rparr>"

definition forceReconnectAll :: "(string \<Rightarrow> conn_env) \<Rightarrow> string list \<Rightarrow> NetworkHandler \<Rightarrow> NetworkHandler" where
  "forceReconnectAll envs order nh = reconnectDisconnectedPeers envs order
     (nh\<lparr>nh_peers := (\<lambda>addr. map_option (\<lambda>p. if ps_State p = StateConnected then mark_down ''P2P mesh lost - no active peers'' p else p) (nh_peers nh addr))\<rparr>)"

text \<open>\<open>active\<close> is the result of \<open>DB.ActivePeers\<close>, \<open>None\<close> without a node.\<close>

definition checkPeerHealth :: "string list result option \<Rightarrow> NetworkHandler \<Rightarrow> NetworkHandler" where
  "checkPeerHealth active nh = (case active of None \<Rightarrow> nh | Some (Inl _) \<Rightarrow> nh
     | Some (Inr peers) \<Rightarrow> (let connected = set peers \<union> {i \<in> extractPeerID ` set peers. i \<noteq> []} in
         nh\<lparr>nh_peers := (\<lambda>addr. map_option (\<lambda>p.
           if ps_State p \<noteq> StateConnected \<or> addr \<in> connected \<or> extractPeerID addr \<noteq> [] \<and> extractPeerID addr \<in> connected then p
           else mark_down ''peer disconnected: no longer in active peer list'' p) (nh_peers nh addr))\<rparr>))"

section \<open>Operations\<close>

text \<open>\<open>time.NewTicker\<close> panics unless the interval is positive.\<close>

definition startReconnectionLoop :: "NetworkHandler \<Rightarrow> NetworkHandler outcome" where
  "startReconnectionLoop nh = (if \<not> EnableAutoReconnect (nh_cfg nh) then Returns nh
     else if wrap_int64 (ReconnectIntervalMs (nh_cfg nh) * 1000000) \<le> 0 then Panics
     else Returns (nh\<lparr>nh_reconnectStop := True\<rparr>))"

definition StartNetwork :: "(string \<Rightarrow> conn_env) \<Rightarrow> string list \<Rightarrow> NetworkHandler \<Rightarrow> NetworkHandler outcome" where
  "StartNetwork envs order nh = (if networkActive nh then Returns nh
     else startReconnectionLoop ((fold (\<lambda>addr nh. fst (connectWithRetryLocked (envs addr) addr nh)) order nh)\<lparr>networkActive := True\<rparr>))"

text \<open>The state after \<open>StopNetwork\<close>, which then waits for its goroutines.\<close>

definition StopNetwork :: "NetworkHandler \<Rightarrow> NetworkHandler" where
  "StopNetwork nh = (if \<not> networkActive nh then nh
     else nh\<lparr>nh_reconnectStop := False, networkActive := False,
       nh_peers := (\<lambda>addr. map_option (\<lambda>p. p\<lparr>ps_State := StateDisconnected, ConnectedAt := None\<rparr>) (nh_peers nh addr))\<rparr>)"

definition ToggleNetwork :: "(string \<Rightarrow> conn_env) \<Rightarrow> string list \<Rightarrow> NetworkHandler \<Rightarrow> NetworkHandler outcome" where
  "ToggleNetwork envs order nh = (if networkActive nh then Returns (StopNetwork nh) else StartNetwork envs order nh)"

definition SetHostRunning :: "bool \<Rightarrow> NetworkHandler \<Rightarrow> NetworkHandler" where
  "SetHostRunning running nh = nh\<lparr>hostRunning := running\<rparr>"

text \<open>The goroutine that connects the new peer of an active network is part of the operation.\<close>

definition AddPeer :: "conn_env \<Rightarrow> string \<Rightarrow> NetworkHandler \<Rightarrow> NetworkHandler \<times> goerror option" where
  "AddPeer env addr nh = (if nh_peers nh addr \<noteq> None then (nh, Some (ErrMsg (''peer already exists: '' @ addr)))
     else let nh = nh\<lparr>nh_peers := (nh_peers nh)(addr \<mapsto> new_peer addr)\<rparr> in
       (if networkActive nh then attemptReconnect env addr nh else nh, None))"

definition RemovePeer :: "string \<Rightarrow> NetworkHandler \<Rightarrow> NetworkHandler \<times> goerror option" where
  "RemovePeer addr nh = (if nh_peers nh addr = None then (nh, Some (ErrMsg (''peer not found: '' @ addr)))
     else (nh\<lparr>nh_peers := (nh_peers nh)(addr := None)\<rparr>, None))"

text \<open>\<open>PeerState.Copy\<close>: a value has no aliases, so the copy is the value.\<close>

definition GetPeers :: "NetworkHandler \<Rightarrow> string \<Rightarrow> PeerState option" where
  "GetPeers nh = nh_peers nh"

definition GetConnectedPeers :: "string list \<Rightarrow> NetworkHandler \<Rightarrow> string list" where
  "GetConnectedPeers order nh = filter (\<lambda>addr. case nh_peers nh addr of None \<Rightarrow> False | Some p \<Rightarrow> ps_State p = StateConnected) order"

definition GetPeerState :: "string \<Rightarrow> NetworkHandler \<Rightarrow> PeerState option" where
  "GetPeerState addr nh = nh_peers nh addr"

definition count_state :: "ConnectionState set \<Rightarrow> string list \<Rightarrow> NetworkHandler \<Rightarrow> nat" where
  "count_state S order nh = length (filter (\<lambda>addr. case nh_peers nh addr of None \<Rightarrow> False | Some p \<Rightarrow> ps_State p \<in> S) order)"

definition GetConnectionStats :: "string list \<Rightarrow> NetworkHandler \<Rightarrow> ConnectionStats" where
  "GetConnectionStats order nh = \<lparr>TotalPeers = length order, ConnectedPeers = count_state {StateConnected} order nh,
     ConnectingPeers = count_state {StateConnecting, StateReconnecting} order nh, DisconnectedPeers = count_state {StateDisconnected} order nh,
     FailedPeers = count_state {StateFailed} order nh, st_NetworkActive = networkActive nh, st_HostRunning = hostRunning nh\<rparr>"

section \<open>The reconnection loop and its stop\<close>

text \<open>The goroutine reads the field \<open>reconnectStop\<close> each time it enters its select; the detached context is never done.
  \<open>StopNetwork\<close> closes the channel, sets the field to nil and waits for the goroutine.\<close>

datatype loop_pc = AtTop | InSelect bool | Working | Exited
datatype stop_pc = StopNotCalled | StopWaiting | StopReturned

record loop_state =
  ls_field :: bool
  ls_closed :: bool
  ls_loop :: loop_pc
  ls_stop :: stop_pc

inductive loop_step :: "loop_state \<Rightarrow> loop_state \<Rightarrow> bool" where
  enter: "ls_loop s = AtTop \<Longrightarrow> loop_step s (s\<lparr>ls_loop := InSelect (ls_field s)\<rparr>)"
| stopped: "ls_loop s = InSelect True \<Longrightarrow> ls_closed s \<Longrightarrow> loop_step s (s\<lparr>ls_loop := Exited\<rparr>)"
| ticked: "ls_loop s = InSelect b \<Longrightarrow> loop_step s (s\<lparr>ls_loop := Working\<rparr>)"
| worked: "ls_loop s = Working \<Longrightarrow> loop_step s (s\<lparr>ls_loop := AtTop\<rparr>)"
| stop: "ls_stop s = StopNotCalled \<Longrightarrow> loop_step s (s\<lparr>ls_closed := True, ls_field := False, ls_stop := StopWaiting\<rparr>)"
| return: "ls_stop s = StopWaiting \<Longrightarrow> ls_loop s = Exited \<Longrightarrow> loop_step s (s\<lparr>ls_stop := StopReturned\<rparr>)"

definition loop_init :: loop_state where
  "loop_init = \<lparr>ls_field = True, ls_closed = False, ls_loop = AtTop, ls_stop = StopNotCalled\<rparr>"

text \<open>The loop missed the close: it will read a nil channel.\<close>

definition missed :: "loop_state \<Rightarrow> bool" where
  "missed s \<longleftrightarrow> ls_stop s = StopWaiting \<and> \<not> ls_field s \<and> ls_loop s \<in> {AtTop, InSelect False, Working}"

lemma missed_step: "loop_step s s' \<Longrightarrow> missed s \<Longrightarrow> missed s'"
  by (induction rule: loop_step.induct) (auto simp: missed_def)

lemma missed_forever: "loop_step\<^sup>*\<^sup>* s s' \<Longrightarrow> missed s \<Longrightarrow> missed s'"
  by (induction rule: rtranclp_induct) (auto intro: missed_step)

section \<open>Lemmas\<close>

lemma split_str_none: "sep \<noteq> [] \<Longrightarrow> \<not> sublist sep s \<Longrightarrow> split_str sep s = [s]"
proof (induction sep s rule: split_str.induct)
  case (1 sep s)
  show ?case
  proof (cases "s = []")
    case False
    then obtain c t where s: "s = c # t" by (cases s) auto
    have "\<not> prefix sep s" "\<not> sublist sep t" using 1(4) unfolding s by (auto simp: sublist_Cons_right)
    then show ?thesis using 1(2) [of] 1(3) False by (subst split_str.simps) (simp add: s)
  qed (simp add: split_str.simps)
qed

lemma split_str_first:
  assumes "sep \<noteq> []" "\<And>i. i < length a \<Longrightarrow> \<not> prefix sep (drop i (a @ sep @ b))"
  shows "split_str sep (a @ sep @ b) = a # split_str sep b"
  using assms(2)
proof (induction a)
  case Nil
  then show ?case using assms(1) by (subst split_str.simps) simp
next
  case (Cons c a)
  have "\<not> prefix sep (c # a @ sep @ b)" using Cons.prems [of 0] by simp
  moreover have "split_str sep (a @ sep @ b) = a # split_str sep b" using Cons.prems by (intro Cons.IH) force
  ultimately show ?case using assms(1) by (subst split_str.simps) simp
qed

lemma p2p_first:
  assumes "\<not> contains a ''p2p''" "i < length a"
  shows "\<not> prefix p2p_sep (drop i (a @ p2p_sep @ b))"
proof
  assume P: "prefix p2p_sep (drop i (a @ p2p_sep @ b))"
  let ?d = "drop i a"
  have "drop i (a @ p2p_sep @ b) = ?d @ p2p_sep @ b" "?d \<noteq> []" using assms(2) by simp_all
  then obtain c x where d: "?d = c # x" and p: "prefix p2p_sep (c # x @ p2p_sep @ b)" using P by (cases ?d) auto
  show False
  proof (cases "length x \<ge> 3")
    case True
    then obtain p q r y where "x = p # q # r # y" by (metis Suc_le_length_iff numeral_3_eq_3)
    then have "x = ''p2p'' @ y" using p by auto
    then have "a = take i a @ [c] @ ''p2p'' @ y" using d append_take_drop_id [of i a] by simp
    then have "contains a ''p2p''" unfolding contains_def by (metis sublist_appendI append.assoc)
    then show False using assms(1) by simp
  next
    case False
    then consider "x = []" | p where "x = [p]" | p q where "x = [p, q]" by (cases x; cases "tl x"; cases "tl (tl x)") auto
    then show False using p by cases auto
  qed
qed

lemma bootstrap_split:
  assumes "\<not> contains address ''p2p''" "CHR 0x2F \<notin> set peerID"
  shows "split_str p2p_sep (address @ p2p_sep @ peerID) = [address, peerID]"
proof -
  have "\<not> sublist p2p_sep peerID" using assms(2) by (auto simp: sublist_def)
  then have "split_str p2p_sep peerID = [peerID]" by (intro split_str_none) simp
  then show ?thesis using split_str_first [of p2p_sep address peerID] p2p_first [OF assms(1)] by simp
qed

definition plain_peer :: "PeerInfo \<Rightarrow> bool" where
  "plain_peer p \<longleftrightarrow> pi_ID p \<noteq> [] \<and> CHR 0x2F \<notin> set (pi_ID p) \<and> (\<exists>a. pi_Addresses p = [a] \<and> \<not> contains a ''p2p'')"

lemma connect_attempts_result:
  assumes "connect_attempts env addr base m k n p = (p', err)"
  shows "(\<exists>j. k \<le> j \<and> j < k + n \<and> db_connect env j [addr] = None \<and> (\<forall>i. k \<le> i \<longrightarrow> i < j \<longrightarrow> db_connect env i [addr] \<noteq> None)
        \<and> err = None \<and> ps_State p' = StateConnected \<and> ConnectedAt p' = Some (time_connected env j) \<and> LastError p' = None \<and> RetryCount p' = int j + 1)
    \<or> err \<noteq> None \<and> ConnectedAt p' = ConnectedAt p \<and> ps_State p' = StateFailed
        \<and> (\<forall>i. k \<le> i \<longrightarrow> i < k + n \<longrightarrow> db_connect env i [addr] \<noteq> None \<and> ctx_after env i = None \<and> ctx_during_wait env i (peer_delay base i) = None)
    \<or> err \<noteq> None \<and> ConnectedAt p' = ConnectedAt p \<and> ps_State p' = StateDisconnected
        \<and> (\<exists>j. k \<le> j \<and> j < k + n \<and> (err = ctx_after env j \<or> err = ctx_during_wait env j (peer_delay base j)))"
  using assms
proof (induction n arbitrary: k p)
  case (Suc n)
  show ?case
  proof (cases "db_connect env k [addr]")
    case None
    then show ?thesis using Suc.prems by (intro disjI1 exI [of _ k]) (auto simp: connectToPeers_def Let_def)
  next
    case (Some e)
    note fails = this
    show ?thesis
    proof (cases "ctx_after env k = None \<and> ctx_during_wait env k (peer_delay base k) = None")
      case True
      obtain p1 where p1: "connect_attempts env addr base m (k + 1) n p1 = (p', err)" "ConnectedAt p1 = ConnectedAt p"
        using Suc.prems True fails by (auto simp: connectToPeers_def Let_def)
      have le: "k \<le> i \<longleftrightarrow> i = k \<or> k + 1 \<le> i" for i by auto
      from Suc.IH [OF p1(1)] p1(2) True fails show ?thesis
        by (elim disjE exE conjE) (auto simp: le intro: Suc_leD)
    next
      case False
      then obtain c where c: "ctx_after env k = Some c \<or> ctx_after env k = None \<and> ctx_during_wait env k (peer_delay base k) = Some c"
        by (cases "ctx_after env k") auto
      then have r: "err = Some c" "ConnectedAt p' = ConnectedAt p" "ps_State p' = StateDisconnected"
        using Suc.prems fails by (auto simp: connectToPeers_def Let_def)
      have "\<exists>j. k \<le> j \<and> j < k + Suc n \<and> (Some c = ctx_after env j \<or> Some c = ctx_during_wait env j (peer_delay base j))"
        using c by (intro exI [of _ k]) auto
      then show ?thesis using r by simp
    qed
  qed
qed auto

lemma connectWithRetryLocked_frame:
  "fst (connectWithRetryLocked env addr nh) = nh\<lparr>nh_peers := nh_peers (fst (connectWithRetryLocked env addr nh))\<rparr>"
  "b \<noteq> addr \<Longrightarrow> nh_peers (fst (connectWithRetryLocked env addr nh)) b = nh_peers nh b"
  by (auto simp: connectWithRetryLocked_def Let_def split: option.splits prod.splits)

lemma attempts_address: "ps_Address (fst (connect_attempts env addr base m k n p)) = ps_Address p"
  by (induction n arbitrary: k p) (auto simp: Let_def split: option.splits)

section \<open>The peers stay consistent\<close>

text \<open>A settled peer is filed under its address and has a connection time exactly while it is connected.\<close>

definition settled :: "string \<Rightarrow> PeerState \<Rightarrow> bool" where
  "settled addr p \<longleftrightarrow> ps_Address p = addr \<and> ps_State p \<notin> {StateConnecting, StateReconnecting} \<and> (ps_State p = StateConnected \<longleftrightarrow> ConnectedAt p \<noteq> None)"

definition peers_settled :: "NetworkHandler \<Rightarrow> bool" where
  "peers_settled nh \<longleftrightarrow> (\<forall>addr p. nh_peers nh addr = Some p \<longrightarrow> settled addr p)"

definition none_connected :: "NetworkHandler \<Rightarrow> bool" where
  "none_connected nh \<longleftrightarrow> (\<forall>addr p. nh_peers nh addr = Some p \<longrightarrow> ConnectedAt p = None)"

definition nh_ok :: "NetworkHandler \<Rightarrow> bool" where
  "nh_ok nh \<longleftrightarrow> peers_settled nh \<and> (networkActive nh \<or> none_connected nh)"

text \<open>The public operations, and the loop's round, which runs while the network is active.\<close>

inductive nh_step :: "NetworkHandler \<Rightarrow> NetworkHandler \<Rightarrow> bool" where
  start: "distinct order \<Longrightarrow> StartNetwork envs order nh = Returns nh' \<Longrightarrow> nh_step nh nh'"
| stop: "nh_step nh (StopNetwork nh)"
| toggle: "distinct order \<Longrightarrow> ToggleNetwork envs order nh = Returns nh' \<Longrightarrow> nh_step nh nh'"
| add: "nh_step nh (fst (AddPeer env addr nh))"
| remove: "nh_step nh (fst (RemovePeer addr nh))"
| host: "nh_step nh (SetHostRunning b nh)"
| round: "networkActive nh \<Longrightarrow> nh_step nh (reconnectDisconnectedPeers envs order (checkPeerHealth active nh))"
| force: "networkActive nh \<Longrightarrow> nh_step nh (forceReconnectAll envs order nh)"

lemma connect_settles:
  assumes "nh_peers nh addr = Some p" "ps_Address p = addr" "ConnectedAt p = None"
    "nh_peers (fst (connectWithRetryLocked env addr nh)) addr = Some q"
  shows "settled addr q"
proof -
  let ?p = "p\<lparr>ps_State := StateConnecting, RetryCount := 0\<rparr>" and ?m = "MaxRetries (nh_cfg nh)"
  obtain r err where r: "connect_attempts env addr (RetryBaseDelayMs (nh_cfg nh)) ?m 0 (nat ?m) ?p = (r, err)" by fastforce
  have "q = r" using assms(1,4) r by (simp add: connectWithRetryLocked_def Let_def)
  moreover have "ps_Address r = addr"
    using attempts_address [of env addr "RetryBaseDelayMs (nh_cfg nh)" ?m 0 "nat ?m" ?p] assms(2) by (simp add: r)
  ultimately show ?thesis using connect_attempts_result [OF r] assms(3) by (auto simp: settled_def)
qed

text \<open>Connecting the distinct peers of a list, none of them connected before.\<close>

lemma connect_all:
  assumes "distinct order" "\<And>addr p. addr \<in> set order \<Longrightarrow> nh_peers nh addr = Some p \<Longrightarrow> ConnectedAt p = None" "peers_settled nh"
  shows "peers_settled (fold (\<lambda>addr nh. fst (connectWithRetryLocked (envs addr) addr nh)) order nh)"
  using assms
proof (induction order arbitrary: nh)
  case (Cons a order)
  let ?nh = "fst (connectWithRetryLocked (envs a) a nh)"
  have same: "b \<noteq> a \<Longrightarrow> nh_peers ?nh b = nh_peers nh b" for b by (rule connectWithRetryLocked_frame)
  have "settled b q" if q: "nh_peers ?nh b = Some q" for b q
  proof (cases "b = a")
    case True
    then obtain p where p: "nh_peers nh a = Some p" using q by (auto simp: connectWithRetryLocked_def split: option.splits)
    have "ConnectedAt p = None" using Cons.prems(2) [of a p] p by simp
    moreover have "ps_Address p = a" using Cons.prems(3) p by (simp add: peers_settled_def settled_def)
    ultimately show ?thesis using connect_settles [of nh a p "envs a" q] p q True by simp
  next
    case False
    then show ?thesis using same q Cons.prems(3) by (simp add: peers_settled_def)
  qed
  then have "peers_settled ?nh" by (simp add: peers_settled_def)
  moreover have "ConnectedAt p = None" if "b \<in> set order" "nh_peers ?nh b = Some p" for b p
  proof -
    have "b \<noteq> a" using that(1) Cons.prems(1) by auto
    then show ?thesis using same [of b] that Cons.prems(2) [of b p] by simp
  qed
  ultimately show ?case using Cons.IH [of ?nh] Cons.prems(1) by simp
qed simp

lemma connect_all_active: "networkActive (fold (\<lambda>addr nh. fst (connectWithRetryLocked (envs addr) addr nh)) order nh) = networkActive nh"
  by (induction order arbitrary: nh) (simp_all add: connectWithRetryLocked_def Let_def split: option.splits prod.splits)

lemma attemptReconnect_settled: "peers_settled nh \<Longrightarrow> peers_settled (attemptReconnect env addr nh)"
proof -
  assume S: "peers_settled nh"
  show ?thesis
  proof (cases "\<exists>p. nh_peers nh addr = Some p \<and> ps_State p \<notin> {StateConnected, StateConnecting, StateReconnecting}")
    case True
    then obtain p where p: "nh_peers nh addr = Some p" "ps_State p \<notin> {StateConnected, StateConnecting, StateReconnecting}" by blast
    let ?n = "nh\<lparr>nh_peers := (nh_peers nh)(addr \<mapsto> p\<lparr>ps_State := StateReconnecting\<rparr>)\<rparr>"
    have e: "attemptReconnect env addr nh = fst (connectWithRetryLocked env addr ?n)" using p by (simp add: attemptReconnect_def)
    have "settled b q" if q: "nh_peers (fst (connectWithRetryLocked env addr ?n)) b = Some q" for b q
    proof (cases "b = addr")
      case True
      have "settled addr p" using S p(1) by (simp add: peers_settled_def)
      then show ?thesis using connect_settles [of ?n addr _ env q] q True p(2) by (simp add: settled_def)
    next
      case False
      then show ?thesis using q connectWithRetryLocked_frame(2) [of b addr env ?n] S by (simp add: peers_settled_def)
    qed
    then show ?thesis unfolding e peers_settled_def by blast
  qed (use S in \<open>auto simp: attemptReconnect_def split: option.splits\<close>)
qed

lemma attemptReconnect_active: "networkActive (attemptReconnect env addr nh) = networkActive nh"
  by (auto simp: attemptReconnect_def connectWithRetryLocked_def Let_def split: option.splits prod.splits)

lemma reconnect_settled:
  "peers_settled nh \<Longrightarrow> peers_settled (reconnectDisconnectedPeers envs order nh)"
  "networkActive (reconnectDisconnectedPeers envs order nh) = networkActive nh"
proof -
  have "peers_settled nh \<Longrightarrow> peers_settled (fold (\<lambda>addr. attemptReconnect (envs addr) addr) l nh)" for l
    by (induction l arbitrary: nh) (auto intro: attemptReconnect_settled)
  then show "peers_settled nh \<Longrightarrow> peers_settled (reconnectDisconnectedPeers envs order nh)"
    by (simp add: reconnectDisconnectedPeers_def)
  have "networkActive (fold (\<lambda>addr. attemptReconnect (envs addr) addr) l nh) = networkActive nh" for l
    by (induction l arbitrary: nh) (simp_all add: attemptReconnect_active)
  then show "networkActive (reconnectDisconnectedPeers envs order nh) = networkActive nh"
    by (simp add: reconnectDisconnectedPeers_def)
qed

lemma StartNetwork_ok: "distinct order \<Longrightarrow> StartNetwork envs order nh = Returns nh' \<Longrightarrow> nh_ok nh \<Longrightarrow> nh_ok nh'"
  using connect_all [of order nh envs]
  by (auto simp: StartNetwork_def startReconnectionLoop_def nh_ok_def none_connected_def peers_settled_def split: if_splits)

lemma StopNetwork_ok: "nh_ok nh \<Longrightarrow> nh_ok (StopNetwork nh)"
  by (auto simp: StopNetwork_def nh_ok_def none_connected_def peers_settled_def settled_def)

lemma checkPeerHealth_ok: "peers_settled nh \<Longrightarrow> peers_settled (checkPeerHealth active nh)" "networkActive (checkPeerHealth active nh) = networkActive nh"
  by (auto simp: checkPeerHealth_def peers_settled_def settled_def mark_down_def Let_def split: option.splits sum.splits)

lemma AddPeer_ok: "nh_ok nh \<Longrightarrow> nh_ok (fst (AddPeer env addr nh))"
proof -
  assume ok: "nh_ok nh"
  let ?n = "nh\<lparr>nh_peers := (nh_peers nh)(addr \<mapsto> new_peer addr)\<rparr>"
  have S: "peers_settled ?n" using ok by (simp add: nh_ok_def peers_settled_def settled_def new_peer_def)
  show ?thesis
  proof (cases "nh_peers nh addr \<noteq> None \<or> networkActive nh")
    case True
    then show ?thesis using ok attemptReconnect_settled [OF S, of env addr]
      by (auto simp: AddPeer_def nh_ok_def attemptReconnect_active Let_def)
  next
    case False
    then have "none_connected ?n" using ok by (simp add: nh_ok_def none_connected_def new_peer_def)
    then show ?thesis using False S by (simp add: AddPeer_def nh_ok_def)
  qed
qed

lemma nh_step_ok: "nh_step nh nh' \<Longrightarrow> nh_ok nh \<Longrightarrow> nh_ok nh'"
proof (induction rule: nh_step.induct)
  case (force nh envs order)
  have "peers_settled (forceReconnectAll envs order nh)" unfolding forceReconnectAll_def
    using force.prems by (intro reconnect_settled) (auto simp: nh_ok_def peers_settled_def settled_def mark_down_def)
  then show ?case using force.hyps by (simp add: nh_ok_def forceReconnectAll_def reconnect_settled)
next
  case (remove nh addr)
  then show ?case by (auto simp: RemovePeer_def nh_ok_def none_connected_def peers_settled_def split: if_splits)
next
  case (toggle order envs nh nh')
  then show ?case using StartNetwork_ok [of order envs nh nh'] StopNetwork_ok [of nh] by (simp add: ToggleNetwork_def split: if_splits)
next
  case (round nh envs order active)
  then show ?case using reconnect_settled checkPeerHealth_ok by (simp add: nh_ok_def)
next
  case (host nh b)
  then show ?case by (simp add: SetHostRunning_def nh_ok_def peers_settled_def none_connected_def)
next
  case (start order envs nh nh')
  then show ?case using StartNetwork_ok by blast
next
  case (stop nh)
  then show ?case by (rule StopNetwork_ok)
next
  case (add nh env addr)
  then show ?case by (rule AddPeer_ok)
qed

lemma fold_new_peer:
  "fold (\<lambda>addr m. m(addr \<mapsto> new_peer addr)) l m addr = (if addr \<in> set l then Some (new_peer addr) else m addr)"
  by (induction l arbitrary: m) simp_all

lemma NewNetworkHandler_ok: "nh_ok (NewNetworkHandler c)"
proof -
  have "settled addr (new_peer addr) \<and> ConnectedAt (new_peer addr) = None" for addr by (simp add: settled_def new_peer_def)
  then show ?thesis by (auto simp: nh_ok_def peers_settled_def none_connected_def NewNetworkHandler_def Let_def fold_new_peer split: if_splits)
qed

lemma nh_reachable_ok: "nh_step\<^sup>*\<^sup>* nh nh' \<Longrightarrow> nh_ok nh \<Longrightarrow> nh_ok nh'"
  by (induction rule: rtranclp_induct) (auto intro: nh_step_ok)

lemma count_states_add:
  assumes "\<And>addr. addr \<in> set order \<Longrightarrow> \<exists>p. nh_peers nh addr = Some p \<and> ps_State p \<in> {StateConnected, StateDisconnected, StateFailed}"
  shows "count_state {StateConnected} order nh + count_state {StateDisconnected} order nh + count_state {StateFailed} order nh = length order
    \<and> count_state {StateConnecting, StateReconnecting} order nh = 0"
  using assms by (induction order) (force simp: count_state_def)+


definition sample_p2p :: DefraDBP2PConfig where
  "sample_p2p = \<lparr>BootstrapPeers = [''a'', ''b''], ListenAddr = [], p2p_Enabled = True, AcceptIncoming = False, MaxRetries = 0,
     RetryBaseDelayMs = 0, ReconnectIntervalMs = 0, EnableAutoReconnect = True, ResourceMemoryMiB = 0, ResourceFileDescriptors = 0,
     MaxStreamsPerPeer = 0\<rparr>"


section \<open>Bootstrap strings round trip\<close>

lemma peers_each_plain: "list_all plain_peer peers \<Longrightarrow> peers_each i peers = (map (\<lambda>p. hd (pi_Addresses p) @ p2p_sep @ pi_ID p) peers, [])"
  by (induction peers arbitrary: i) (auto simp: plain_peer_def)

lemma bootstrap_each_plain:
  "list_all plain_peer peers \<Longrightarrow> bootstrap_each all i (map (\<lambda>p. hd (pi_Addresses p) @ p2p_sep @ pi_ID p) peers) = (peers, [])"
proof (induction peers arbitrary: i)
  case (Cons p peers)
  then obtain a where a: "pi_Addresses p = [a]" "\<not> contains a ''p2p''" "CHR 0x2F \<notin> set (pi_ID p)" by (auto simp: plain_peer_def)
  have "p = \<lparr>pi_Addresses = [a], pi_ID = pi_ID p\<rparr>" using a(1) by simp
  then show ?case using Cons.IH [of "i + 1"] Cons.prems bootstrap_split [OF a(2,3)] a(1) by simp
qed simp

text \<open>Peers written as bootstrap strings are read back unchanged: for peers with an identifier that has no slash and
  one address that does not hold \<open>p2p\<close>, \<open>PeersIntoBootstrap\<close> skips none and \<open>BootstrapIntoPeers\<close> returns them.\<close>

theorem bootstrap_roundtrip:
  assumes "list_all plain_peer peers"
  shows "snd (PeersIntoBootstrap peers) = [] \<and> BootstrapIntoPeers (fst (PeersIntoBootstrap peers)) = (peers, [])"
  using peers_each_plain [OF assms, of 0] bootstrap_each_plain [OF assms]
  by (simp add: PeersIntoBootstrap_def BootstrapIntoPeers_def)

lemma bootstrap_roundtrip_witness:
  "let p = \<lparr>pi_Addresses = [''10''], pi_ID = ''Qm''\<rparr> in list_all plain_peer [p]
     \<and> BootstrapIntoPeers (fst (PeersIntoBootstrap [p])) = ([p], [])"
proof -
  have "list_all plain_peer [\<lparr>pi_Addresses = [''10''], pi_ID = ''Qm''\<rparr>]"
    by (simp add: plain_peer_def contains_def sublist_Cons_right)
  then show ?thesis using bootstrap_roundtrip [of "[\<lparr>pi_Addresses = [''10''], pi_ID = ''Qm''\<rparr>]"] by (simp add: Let_def)
qed

section \<open>Stopping\<close>

lemma stop_missed: "loop_step\<^sup>*\<^sup>* loop_init \<lparr>ls_field = False, ls_closed = True, ls_loop = Working, ls_stop = StopWaiting\<rparr>"
proof -
  let ?s1 = "loop_init\<lparr>ls_loop := InSelect True\<rparr>"
  have "loop_step loop_init ?s1" using enter [of loop_init] by (simp add: loop_init_def)
  moreover have "loop_step ?s1 (?s1\<lparr>ls_loop := Working\<rparr>)" by (rule ticked) (simp add: loop_init_def)
  moreover have "loop_step (?s1\<lparr>ls_loop := Working\<rparr>) \<lparr>ls_field = False, ls_closed = True, ls_loop = Working, ls_stop = StopWaiting\<rparr>"
    using loop_step.stop [of "?s1\<lparr>ls_loop := Working\<rparr>"] by (simp add: loop_init_def)
  ultimately show ?thesis by (meson converse_rtranclp_into_rtranclp rtranclp.rtrancl_refl)
qed

lemma stop_in_select: "\<exists>s. loop_step\<^sup>*\<^sup>* loop_init s \<and> ls_stop s = StopReturned"
proof -
  let ?a = "loop_init\<lparr>ls_loop := InSelect True\<rparr>"
  let ?b = "?a\<lparr>ls_closed := True, ls_field := False, ls_stop := StopWaiting\<rparr>"
  let ?c = "?b\<lparr>ls_loop := Exited\<rparr>"
  let ?d = "?c\<lparr>ls_stop := StopReturned\<rparr>"
  have "loop_step loop_init ?a" using enter [of loop_init] by (simp add: loop_init_def)
  moreover have "loop_step ?a ?b" by (rule loop_step.stop) (simp add: loop_init_def)
  moreover have "loop_step ?b ?c" by (rule stopped) (simp_all add: loop_init_def)
  moreover have "loop_step ?c ?d" by (rule loop_step.return) simp_all
  ultimately have "loop_step\<^sup>*\<^sup>* loop_init ?d" by (meson converse_rtranclp_into_rtranclp rtranclp.rtrancl_refl)
  then show ?thesis by (intro exI [of _ ?d]) simp
qed



text \<open>With the default base of a second the backoff grows to its cap of 30 seconds; from attempt 34 on the product
  passes 64 bits and the delay is negative.\<close>

lemma peer_delay_grows: "peer_delay 1000 4 = 16000000000" "peer_delay 1000 5 = 30000000000" "peer_delay 1000 33 = 30000000000" "peer_delay 1000 34 < 0"
  by (simp_all add: peer_delay_def wrap_int64_def)

end
