(* ===== verification/Server.thy ===== *)
theory Server
  imports Snapshots Schema_Apply Network_Handler
begin

text \<open>
  Package \<open>pkg/server\<close>: authentication of the schema endpoints (\<open>auth.go\<close>, \<open>schema.go\<close>, \<open>helpers.go\<close>), the health,
  registration, metrics and snapshot handlers (\<open>health.go\<close>) and the registration data (\<open>registration.go\<close>).

  A handler is a function from the request to the response. \<open>rs_ContentType\<close> is the header the handler sends, \<open>None\<close>
  when it sends none. JSON bodies are the values that are encoded. The interface \<open>HealthChecker\<close> is the record
  \<open>health_checker\<close> of its answers during one request. Text is bytes; lower-casing is that of ASCII, which is enough for
  the ASCII words it is compared with.
\<close>

section \<open>Requests and responses\<close>

record http_request =
  rq_Method :: string
  rq_Path :: string
  rq_Header :: "string \<Rightarrow> string"
  rq_Host :: string
  rq_Query :: "string \<Rightarrow> string"
  rq_PathValue :: "string \<Rightarrow> string"

text \<open>The peer information of the server has a public key beside the fields of the database's.\<close>

record ServerPeerInfo = PeerInfo +
  pi_PublicKey :: string

record P2PInfo =
  p2p_active :: bool
  p2p_Self :: "ServerPeerInfo option"
  p2p_Peers :: "ServerPeerInfo list"

record DefraPKRegistration =
  rg_PublicKey :: string
  rg_SignedPKMsg :: string

record DisplayRegistration =
  rg_Enabled :: bool
  rg_Message :: string
  rg_DID :: string
  rg_ConnectionString :: string
  rg_SourceChain :: string
  rg_SourceChainID :: int
  rg_DefraPK :: DefraPKRegistration

record HealthResponse =
  hr_Status :: string
  hr_CurrentBlock :: int
  hr_LastProcessed :: "int option"
  hr_DefraDBConnected :: bool
  hr_Uptime :: int
  hr_P2P :: "P2PInfo option"
  hr_Registration :: "DisplayRegistration option"
  hr_Version :: string

record snapshotListEntry =
  le_Info :: SnapshotInfo
  le_Signed :: bool
  le_Signature :: "SnapshotSignatureData option"

datatype resp_body = NoBody | TextBody string | HtmlBody string | FileBody bytes | Redirect string
  | errorResponse string string | schemaResponse string string | collectionsResponse string "CollectionEntry list"
  | HealthBody HealthResponse | MetricsBody int int "int option" int string
  | SnapshotsBody "snapshotListEntry list" nat | ImportFailed string "ImportResult option" | ImportOk ImportResult

record http_response =
  rs_Status :: nat
  rs_ContentType :: "string option"
  rs_CacheControl :: "string option"
  rs_Body :: resp_body

type_synonym handler = "http_request \<Rightarrow> http_response"

abbreviation (input) json_type :: string where "json_type \<equiv> ''application/json''"

definition json_ok :: "resp_body \<Rightarrow> http_response" where
  "json_ok b = \<lparr>rs_Status = 200, rs_ContentType = Some json_type, rs_CacheControl = None, rs_Body = b\<rparr>"

definition http_Error :: "string \<Rightarrow> nat \<Rightarrow> http_response" where
  "http_Error msg status = \<lparr>rs_Status = status, rs_ContentType = Some ''text/plain; charset=utf-8'', rs_CacheControl = None, rs_Body = TextBody msg\<rparr>"

definition writeJSONError :: "nat \<Rightarrow> string \<Rightarrow> string \<Rightarrow> http_response" where
  "writeJSONError status cd msg = \<lparr>rs_Status = status, rs_ContentType = Some json_type, rs_CacheControl = None, rs_Body = errorResponse cd msg\<rparr>"

section \<open>Authentication\<close>

datatype auth_error = ErrMissingCredentials | ErrInvalidCredentials | ErrNoKeysConfigured

datatype Authenticator = NoOpAuthenticator | BearerAuthenticator "string set"

definition NewBearerAuthenticator :: "string list \<Rightarrow> Authenticator" where
  "NewBearerAuthenticator keys = BearerAuthenticator (set (filter (\<lambda>k. k \<noteq> []) keys))"

definition extractToken :: "http_request \<Rightarrow> string" where
  "extractToken r = (let auth = rq_Header r ''Authorization'' in
     if auth \<noteq> [] then (if prefix ''bearer '' (to_lower auth) then trim_space (drop 7 auth) else [])
     else trim_space (rq_Header r ''X-Api-Key''))"

fun Authenticate :: "Authenticator \<Rightarrow> http_request \<Rightarrow> auth_error option" where
  "Authenticate NoOpAuthenticator r = None"
| "Authenticate (BearerAuthenticator keys) r = (if keys = {} then Some ErrNoKeysConfigured
     else let token = extractToken r in
       if token = [] then Some ErrMissingCredentials
       else if \<exists>k\<in>keys. token = k then None else Some ErrInvalidCredentials)"

text \<open>The last case of the switch is not reached by the two authenticators.\<close>

definition authMiddleware :: "Authenticator \<Rightarrow> handler \<Rightarrow> handler" where
  "authMiddleware auth next_h r = (case Authenticate auth r of
     None \<Rightarrow> next_h r
   | Some ErrMissingCredentials \<Rightarrow> writeJSONError 401 ''unauthorized'' ''missing or empty credentials''
   | Some ErrInvalidCredentials \<Rightarrow> writeJSONError 403 ''forbidden'' ''invalid credentials''
   | Some ErrNoKeysConfigured \<Rightarrow> writeJSONError 503 ''service_unavailable'' ''no API keys configured on server'')"

definition newAuthenticator :: "string \<Rightarrow> string list \<Rightarrow> Authenticator result" where
  "newAuthenticator mode keys = (if mode = ''none'' then Inr NoOpAuthenticator
     else if mode = ''token'' \<or> mode = [] then Inr (NewBearerAuthenticator keys)
     else if mode = ''mtls'' then Inl (ErrMsg ''mTLS auth mode is not yet implemented'')
     else Inl (Wrapped [] (ErrMsg ''unknown auth mode'') ('': '' @ quoted mode)))"

definition newSchemaAuthenticator :: "Config \<Rightarrow> Authenticator result" where
  "newSchemaAuthenticator gc = (case newAuthenticator (SchemaAuthMode (cfg_Indexer gc)) (SchemaAPIKeys (cfg_Indexer gc)) of
     Inl e \<Rightarrow> Inl (Wrapped ''schema auth configuration error: '' e []) | Inr a \<Rightarrow> Inr a)"

section \<open>Schema endpoints\<close>

definition head_or :: "http_request \<Rightarrow> resp_body \<Rightarrow> http_response" where
  "head_or r b = (json_ok (if rq_Method r = ''HEAD'' then NoBody else b))\<lparr>rs_CacheControl := Some ''no-cache''\<rparr>"

definition newSchemaHandler :: "string \<Rightarrow> string \<Rightarrow> handler" where
  "newSchemaHandler sdl network r = head_or r (schemaResponse network sdl)"

definition collectionsListHandler :: "string \<Rightarrow> CollectionEntry list \<Rightarrow> handler" where
  "collectionsListHandler network ents r = head_or r (collectionsResponse network ents)"

definition collectionHandler :: "(string \<Rightarrow> string result) \<Rightarrow> CollectionNames \<Rightarrow> handler result" where
  "collectionHandler readFile c = (case PrecomputeCollectionSDLs readFile c of
     Inl e \<Rightarrow> Inl (Wrapped ''precompute collection SDLs: '' e [])
   | Inr sdlCache \<Rightarrow> Inr (\<lambda>r. let name = rq_PathValue r ''collection'' in
       case sdlCache name of
         None \<Rightarrow> writeJSONError 404 ''not_found'' (''collection '' @ [CHR 0x27] @ name @ [CHR 0x27] @ '' not found'')
       | Some sdl \<Rightarrow> head_or r (schemaResponse (prefix_of c) sdl)))"

text \<open>The three routes: the schema, a collection, and the list of collections, which the mux prefers as the more
  specific pattern.\<close>

record schema_routes =
  route_schema :: handler
  route_collection :: handler
  route_collections :: handler

definition EnableSchemaEndpoint :: "(string \<Rightarrow> string result) \<Rightarrow> string \<Rightarrow> CollectionNames \<Rightarrow> Authenticator \<Rightarrow> schema_routes result" where
  "EnableSchemaEndpoint readFile sdl c auth = (case collectionHandler readFile c of
     Inl e \<Rightarrow> Inl (Wrapped (''precompute collection SDLs for network '' @ prefix_of c @ '': '') e [])
   | Inr collectionH \<Rightarrow> (case ListCollections readFile c of
       Inl e \<Rightarrow> Inl (Wrapped (''list collections for network '' @ prefix_of c @ '': '') e [])
     | Inr ents \<Rightarrow> Inr \<lparr>route_schema = authMiddleware auth (newSchemaHandler sdl (prefix_of c)),
         route_collection = authMiddleware auth collectionH,
         route_collections = authMiddleware auth (collectionsListHandler (prefix_of c) ents)\<rparr>))"

section \<open>Host addresses\<close>

text \<open>\<open>net.SplitHostPort\<close>; only whether it fails and its two parts matter.\<close>

definition last_colon :: "string \<Rightarrow> nat option" where
  "last_colon s = (case filter (\<lambda>i. s ! i = CHR 0x3A) (rev [0..<length s]) of i # _ \<Rightarrow> Some i | [] \<Rightarrow> None)"

definition SplitHostPort :: "string \<Rightarrow> (string \<times> string) option" where
  "SplitHostPort s = (case last_colon s of None \<Rightarrow> None
   | Some i \<Rightarrow> if s ! 0 = CHR 0x5B
       then (case filter (\<lambda>k. s ! k = CHR 0x5D) [0..<length s] of [] \<Rightarrow> None
         | e # _ \<Rightarrow> if e + 1 = i \<and> CHR 0x5B \<notin> set (drop 1 s) \<and> CHR 0x5D \<notin> set (drop (e + 1) s)
             then Some (drop 1 (take e s), drop (i + 1) s) else None)
       else if CHR 0x3A \<in> set (take i s) \<or> CHR 0x5B \<in> set s \<or> CHR 0x5D \<in> set s then None
       else Some (take i s, drop (i + 1) s))"

text \<open>\<open>net.ParseIP\<close> followed by \<open>To4\<close>: dotted decimals here; a text in IPv6 notation, of which only the addresses that
  embed an IPv4 address have one, is given by the argument \<open>ip6\<close>.\<close>

definition parse_octet :: "string \<Rightarrow> nat option" where
  "parse_octet p = (let v = foldl (\<lambda>n c. 10 * n + (of_char c - 48)) 0 p in
     if p \<noteq> [] \<and> (\<forall>c\<in>set p. CHR ''0'' \<le> c \<and> c \<le> CHR ''9'') \<and> (length p > 1 \<longrightarrow> hd p \<noteq> CHR ''0'') \<and> v \<le> 255 then Some v else None)"

definition parse_ip4 :: "string \<Rightarrow> nat list option" where
  "parse_ip4 s = (let ps = map parse_octet (split_char CHR 0x2E s) in
     if length ps = 4 \<and> None \<notin> set ps then Some (map the ps) else None)"

definition ParseIP4 :: "(string \<Rightarrow> nat list option) \<Rightarrow> string \<Rightarrow> nat list option" where
  "ParseIP4 ip6 s = (case dropWhile (\<lambda>c. c \<notin> {CHR 0x2E, CHR 0x3A, CHR 0x25}) s of [] \<Rightarrow> None
     | c # _ \<Rightarrow> if c = CHR 0x2E then parse_ip4 s else if c = CHR 0x3A then ip6 s else None)"

definition isPublicIP4 :: "nat list option \<Rightarrow> bool" where
  "isPublicIP4 ip = (case ip of Some [a, b, c, d] \<Rightarrow>
       \<not> (a = 127) \<and> \<not> (a = 0 \<and> b = 0 \<and> c = 0 \<and> d = 0)
     \<and> \<not> (a = 10 \<or> a = 172 \<and> 16 \<le> b \<and> b \<le> 31 \<or> a = 192 \<and> b = 168) \<and> \<not> (a = 169 \<and> b = 254)
   | _ \<Rightarrow> False)"

definition ip_text :: "nat list \<Rightarrow> string" where
  "ip_text bs = join ''.'' (map (\<lambda>b. itoa (int b)) bs)"

section \<open>Registration\<close>

text \<open>\<open>strings.Trim\<close> with the cutset of the two brackets.\<close>

definition trim_brackets :: "string \<Rightarrow> string" where
  "trim_brackets s = (let b = (\<lambda>c. c = CHR 0x5B \<or> c = CHR 0x5D) in rev (dropWhile b (rev (dropWhile b s))))"

definition hostIP :: "(string \<Rightarrow> nat list option) \<Rightarrow> string \<Rightarrow> string" where
  "hostIP ip6 host = (let host = (case SplitHostPort host of Some (h, _) \<Rightarrow> h | None \<Rightarrow> host);
       ip = ParseIP4 ip6 (trim_brackets host) in
     if isPublicIP4 ip then ip_text (the ip) else [])"

definition firstForwardedValue :: "string \<Rightarrow> string" where
  "firstForwardedValue value = (if value = [] then [] else trim_space (hd (split_commas value)))"

definition requestHostIP :: "(string \<Rightarrow> nat list option) \<Rightarrow> http_request \<Rightarrow> string" where
  "requestHostIP ip6 r = (case filter (\<lambda>ip. ip \<noteq> []) (map (hostIP ip6) [firstForwardedValue (rq_Header r ''X-Forwarded-Host''), rq_Host r]) of
     ip # _ \<Rightarrow> ip | [] \<Rightarrow> [])"

fun tcp_port :: "string list \<Rightarrow> string option" where
  "tcp_port (p # q # ps) = (if p = ''tcp'' \<and> q \<noteq> [] then Some q else tcp_port (q # ps))"
| "tcp_port _ = None"

definition p2pPort :: "string list \<Rightarrow> string" where
  "p2pPort addresses = (case List.map_filter (\<lambda>a. tcp_port (split_char slash a)) addresses of p # _ \<Rightarrow> p | [] \<Rightarrow> ''9171'')"

fun ip4_part :: "string list \<Rightarrow> string option" where
  "ip4_part (p # q # ps) = (if p = ''ip4'' then Some q else ip4_part (q # ps))"
| "ip4_part _ = None"

definition isUsableIP4Multiaddr :: "(string \<Rightarrow> nat list option) \<Rightarrow> string \<Rightarrow> bool" where
  "isUsableIP4Multiaddr ip6 addr = (case ip4_part (split_char slash addr) of None \<Rightarrow> False | Some q \<Rightarrow> isPublicIP4 (ParseIP4 ip6 q))"

definition firstUsableP2PAddress :: "(string \<Rightarrow> nat list option) \<Rightarrow> string list \<Rightarrow> string" where
  "firstUsableP2PAddress ip6 addresses = (case filter (isUsableIP4Multiaddr ip6) addresses of a # _ \<Rightarrow> a | [] \<Rightarrow> [])"

definition deriveConnectionString :: "(string \<Rightarrow> nat list option) \<Rightarrow> http_request \<Rightarrow> P2PInfo option \<Rightarrow> string" where
  "deriveConnectionString ip6 r p2p = (case p2p of None \<Rightarrow> [] | Some info \<Rightarrow> (case p2p_Self info of None \<Rightarrow> []
     | Some self \<Rightarrow> if pi_ID self = [] then []
         else let ip = requestHostIP ip6 r; addr = firstUsableP2PAddress ip6 (pi_Addresses self) in
           if ip \<noteq> [] then ''/ip4/'' @ ip @ ''/tcp/'' @ p2pPort (pi_Addresses self) @ p2p_sep @ pi_ID self
           else if addr \<noteq> [] then addr @ p2p_sep @ pi_ID self else []))"

definition normalizeHex :: "string \<Rightarrow> string" where
  "normalizeHex s = (if s = [] then s else if prefix ''0x'' s \<or> prefix ''0X'' s then ''0x'' @ drop 2 s else ''0x'' @ s)"

text \<open>The answers of the interface \<open>HealthChecker\<close>, and of the key library for \<open>deriveDID\<close>, which decodes the key's hex
  digits before it calls the library.\<close>

record health_checker =
  hc_IsHealthy :: bool
  hc_CurrentBlock :: int
  hc_LastProcessed :: "int option"
  hc_PeerInfo :: "P2PInfo result"
  hc_SourceChain :: "string \<times> int"
  hc_Sign :: "string \<Rightarrow> DefraPKRegistration result"

abbreviation (input) registrationMessage :: string where "registrationMessage \<equiv> ''Shinzo Network Generator registration''"

definition message_hex :: string where
  "message_hex = hex_encode (map (\<lambda>c. of_char c) registrationMessage)"

definition deriveDID :: "(string \<Rightarrow> bytes result) \<Rightarrow> (bytes \<Rightarrow> string result) \<Rightarrow> string \<Rightarrow> string result" where
  "deriveDID decode create publicKeyHex = (let h = normalizeHex publicKeyHex in
     case decode (if prefix ''0x'' h then drop 2 h else h) of
       Inl e \<Rightarrow> Inl (Wrapped ''decode public key: '' e [])
     | Inr bs \<Rightarrow> (case create bs of Inl e \<Rightarrow> Inl (Wrapped ''create did key: '' e []) | Inr did \<Rightarrow> Inr did))"

definition getRegistrationData ::
  "(string \<Rightarrow> nat list option) \<Rightarrow> (string \<Rightarrow> string result) \<Rightarrow> health_checker option \<Rightarrow> http_request \<Rightarrow> DisplayRegistration option \<times> goerror option" where
  "getRegistrationData ip6 did ix r = (case ix of None \<Rightarrow> (None, Some (ErrMsg ''indexer not available''))
   | Some i \<Rightarrow> (let reg = \<lparr>rg_Enabled = True, rg_Message = normalizeHex message_hex, rg_DID = [], rg_ConnectionString = [],
         rg_SourceChain = [], rg_SourceChainID = 0, rg_DefraPK = \<lparr>rg_PublicKey = [], rg_SignedPKMsg = []\<rparr>\<rparr> in
       case hc_Sign i registrationMessage of
         Inl e \<Rightarrow> (Some (reg\<lparr>rg_Enabled := False\<rparr>), Some e)
       | Inr pk \<Rightarrow> (let key = normalizeHex (rg_PublicKey pk) in
           (Some (reg\<lparr>rg_DefraPK := \<lparr>rg_PublicKey = key, rg_SignedPKMsg = normalizeHex (rg_SignedPKMsg pk)\<rparr>,
              rg_DID := (case did key of Inr d \<Rightarrow> d | Inl _ \<Rightarrow> []),
              rg_ConnectionString := (case hc_PeerInfo i of Inr p2p \<Rightarrow> deriveConnectionString ip6 r (Some p2p) | Inl _ \<Rightarrow> []),
              rg_SourceChain := fst (hc_SourceChain i), rg_SourceChainID := snd (hc_SourceChain i)\<rparr>), None))))"

text \<open>\<open>url.QueryEscape\<close>; \<open>Values.Encode\<close> sorts by key.\<close>

definition url_unreserved :: "nat \<Rightarrow> bool" where
  "url_unreserved n \<longleftrightarrow> 97 \<le> n \<and> n \<le> 122 \<or> 65 \<le> n \<and> n \<le> 90 \<or> 48 \<le> n \<and> n \<le> 57 \<or> n = 45 \<or> n = 95 \<or> n = 46 \<or> n = 126"

definition escape_char :: "char \<Rightarrow> string" where
  "escape_char c = (let n = (of_char c :: nat); upper = (\<lambda>k. ''0123456789ABCDEF'' ! k) in
     if url_unreserved n then [c] else if n = 32 then ''+'' else [CHR 0x25, upper (n div 16), upper (n mod 16)])"

lemma QueryEscape_sample: "concat (map escape_char ''/a b-9'') = ''%2Fa+b-9''"
  by code_simp

definition QueryEscape :: "string \<Rightarrow> string" where
  "QueryEscape s = concat (map escape_char s)"

definition buildRegistrationAppURL :: "DisplayRegistration \<Rightarrow> string" where
  "buildRegistrationAppURL g = ''https://registration.shinzo.network/generator-registration?'' @ join ''&'' (map (\<lambda>(k, v). k @ ''='' @ QueryEscape v)
     [(''connectionString'', rg_ConnectionString g), (''defraPublicKey'', rg_PublicKey (rg_DefraPK g)),
      (''defraPublicKeySignedMessage'', rg_SignedPKMsg (rg_DefraPK g)), (''signedMessage'', rg_Message g),
      (''sourceChain'', rg_SourceChain g), (''sourceChainId'', itoa (rg_SourceChainID g))])"

definition registrationAppHandler :: "(string \<Rightarrow> nat list option) \<Rightarrow> (string \<Rightarrow> string result) \<Rightarrow> health_checker option \<Rightarrow> handler" where
  "registrationAppHandler ip6 did ix r = (case getRegistrationData ip6 did ix r of
     (Some g, None) \<Rightarrow> if rg_Enabled g then \<lparr>rs_Status = 307, rs_ContentType = None, rs_CacheControl = None, rs_Body = Redirect (buildRegistrationAppURL g)\<rparr>
       else http_Error ''Registration data not available'' 503
   | _ \<Rightarrow> http_Error ''Registration data not available'' 503)"

section \<open>Health, readiness and metrics\<close>

definition ShinzoHubAPIURL :: "string \<Rightarrow> int \<Rightarrow> string" where
  "ShinzoHubAPIURL hostname port = (if hostname = [] then [] else ''http://'' @ hostname @ '':'' @ itoa port)"

text \<open>\<open>url.Parse\<close> and \<open>URL.String\<close> are the arguments: the host and path of an address, and the printing of a URL with
  another host and path.\<close>

definition defraQueryURL :: "(string \<Rightarrow> (string \<times> string \<times> (string \<Rightarrow> string \<Rightarrow> string)) option) \<Rightarrow> string \<Rightarrow> string" where
  "defraQueryURL parse addr = (let addr = (if contains addr ''://'' then addr else ''http://'' @ addr) in
     case parse addr of None \<Rightarrow> addr @ ''/api/v0/graphql''
     | Some (host, path, print) \<Rightarrow>
         (let host = (case SplitHostPort host of Some (h, port) \<Rightarrow> if h \<in> {''0.0.0.0'', ''::'', []} then ''127.0.0.1:'' @ port else host | None \<Rightarrow> host);
              path = (if suffix ''/'' path then butlast path else path) in
          print host (path @ ''/api/v0/graphql'')))"

text \<open>\<open>post\<close> is the probe: the keys of the JSON object in the answer, \<open>None\<close> when there is no answer or no object.\<close>

definition checkDefraDB :: "(string \<Rightarrow> (string \<times> string \<times> (string \<Rightarrow> string \<Rightarrow> string)) option) \<Rightarrow> (string \<Rightarrow> string set option) \<Rightarrow> string \<Rightarrow> bool" where
  "checkDefraDB parse post defraURL = (if defraURL = [] then True
     else case post (defraQueryURL parse defraURL) of None \<Rightarrow> False | Some keys \<Rightarrow> ''data'' \<in> keys \<or> ''errors'' \<in> keys)"

text \<open>What the handlers of one request see: the checker, the probe of the database, the time and the start time.\<close>

record health_env =
  he_indexer :: "health_checker option"
  he_defra :: bool
  he_now :: int
  he_start :: int
  he_page :: string
  he_version :: string

definition health_body :: "health_env \<Rightarrow> string \<Rightarrow> HealthResponse" where
  "health_body e status = \<lparr>hr_Status = status,
     hr_CurrentBlock = (case he_indexer e of None \<Rightarrow> 0 | Some i \<Rightarrow> hc_CurrentBlock i),
     hr_LastProcessed = (case he_indexer e of None \<Rightarrow> None | Some i \<Rightarrow> hc_LastProcessed i),
     hr_DefraDBConnected = he_defra e, hr_Uptime = he_now e - he_start e,
     hr_P2P = (case he_indexer e of None \<Rightarrow> None | Some i \<Rightarrow> (case hc_PeerInfo i of Inr p \<Rightarrow> Some p | Inl _ \<Rightarrow> None)),
     hr_Registration = None, hr_Version = he_version e\<rparr>"

definition not_allowed :: http_response where
  "not_allowed = http_Error ''Method not allowed'' 405"

definition healthHandler :: "health_env \<Rightarrow> handler" where
  "healthHandler e r = (if rq_Method r \<noteq> ''GET'' then not_allowed
     else let accept = to_lower (rq_Header r ''Accept'') in
       if contains accept ''text/html'' \<and> \<not> contains accept ''application/json''
       then \<lparr>rs_Status = 200, rs_ContentType = Some ''text/html; charset=utf-8'', rs_CacheControl = None, rs_Body = HtmlBody (he_page e)\<rparr>
       else let bad = (case he_indexer e of None \<Rightarrow> False | Some i \<Rightarrow> \<not> hc_IsHealthy i) in
         (json_ok (HealthBody (health_body e (if bad then ''unhealthy'' else ''healthy''))))\<lparr>rs_Status := (if bad then 503 else 200)\<rparr>)"

text \<open>A header set after \<open>WriteHeader\<close> is not sent. \<open>HealthCheckStaleThreshold\<close> is five minutes.\<close>

definition registrationHandler :: "(string \<Rightarrow> nat list option) \<Rightarrow> (string \<Rightarrow> string result) \<Rightarrow> health_env \<Rightarrow> handler" where
  "registrationHandler ip6 did e r = (if rq_Method r \<noteq> ''GET'' then not_allowed
     else let stale = (case he_indexer e of None \<Rightarrow> False | Some i \<Rightarrow> (case hc_LastProcessed i of None \<Rightarrow> False
                | Some t \<Rightarrow> he_now e - t > 300 * 1000000000));
              ready = (\<not> stale \<and> he_defra e) in
       case he_indexer e of
         Some i \<Rightarrow> (case hc_PeerInfo i of
             Inl _ \<Rightarrow> \<lparr>rs_Status = 503, rs_ContentType = None, rs_CacheControl = None, rs_Body = NoBody\<rparr>
           | Inr _ \<Rightarrow> (let b = HealthBody ((health_body e (if ready then ''ready'' else ''not ready''))\<lparr>hr_Registration := fst (getRegistrationData ip6 did (he_indexer e) r)\<rparr>) in
               if ready then json_ok b else (json_ok b)\<lparr>rs_Status := 503, rs_ContentType := None\<rparr>))
       | None \<Rightarrow> (let b = HealthBody (health_body e (if ready then ''ready'' else ''not ready'')) in
           if ready then json_ok b else (json_ok b)\<lparr>rs_Status := 503, rs_ContentType := None\<rparr>))"

definition metricsHandler :: "health_env \<Rightarrow> handler" where
  "metricsHandler e r = (if rq_Method r \<noteq> ''GET'' then not_allowed
     else let b = (case he_indexer e of None \<Rightarrow> 0 | Some i \<Rightarrow> hc_CurrentBlock i);
              t = (case he_indexer e of None \<Rightarrow> None | Some i \<Rightarrow> hc_LastProcessed i) in
       json_ok (MetricsBody b b t (he_now e - he_start e) (he_version e)))"

section \<open>Snapshot endpoints\<close>

definition snapshotsListHandler ::
  "(Snapshotter \<times> SnapshotInfo list) option \<Rightarrow> (string \<Rightarrow> (string \<Rightarrow> SnapshotSignatureData option) result) option \<Rightarrow> handler" where
  "snapshotsListHandler sn querySigs r = (if rq_Method r \<noteq> ''GET'' then not_allowed
     else case sn of None \<Rightarrow> http_Error ''Snapshots not enabled'' 404
     | Some (s, infos) \<Rightarrow> (let sigs = (case querySigs of None \<Rightarrow> (\<lambda>_. None)
           | Some q \<Rightarrow> (case q (sn_snapshotSigCollection s) of Inl _ \<Rightarrow> (\<lambda>_. None) | Inr m \<Rightarrow> m));
         ents = map (\<lambda>i. \<lparr>le_Info = i, le_Signed = (sigs (si_Filename i) \<noteq> None), le_Signature = sigs (si_Filename i)\<rparr>) infos in
       json_ok (SnapshotsBody ents (length ents))))"

definition snapshotDownloadHandler ::
  "(Snapshotter \<times> SnapshotInfo list) option \<Rightarrow> (string \<Rightarrow> (string \<Rightarrow> SnapshotSignatureData option) result) option
    \<Rightarrow> (string \<Rightarrow> bool) \<Rightarrow> (string \<Rightarrow> bytes result) \<Rightarrow> handler" where
  "snapshotDownloadHandler sn querySigs exists os_Open r = (if rq_Method r \<noteq> ''GET'' then not_allowed
     else case sn of None \<Rightarrow> http_Error ''Snapshots not enabled'' 404
     | Some (s, infos) \<Rightarrow> (let filename = (if prefix ''/snapshots/'' (rq_Path r) then drop 11 (rq_Path r) else rq_Path r) in
         if filename = [] then snapshotsListHandler sn querySigs r
         else let p = GetSnapshotPath exists s filename in
           if p = [] then http_Error ''Snapshot not found'' 404
           else case os_Open (filepath_Clean p) of Inl _ \<Rightarrow> http_Error ''Failed to open file'' 500
           | Inr body_h \<Rightarrow> \<lparr>rs_Status = 200, rs_ContentType = Some ''application/gzip'', rs_CacheControl = None, rs_Body = FileBody body_h\<rparr>))"

definition import_failed :: "goerror \<Rightarrow> ImportResult option \<Rightarrow> http_response" where
  "import_failed e res = (json_ok (ImportFailed (error_text e) res))\<lparr>rs_Status := 500\<rparr>"

definition snapshotImportHandler ::
  "codecs \<Rightarrow> 'w snapDB option \<Rightarrow> (string \<Rightarrow> bytes option) \<Rightarrow> (string \<Rightarrow> bool) \<Rightarrow> Snapshotter option
    \<Rightarrow> CollectionNames option \<Rightarrow> CollectionNames result \<Rightarrow> http_request \<Rightarrow> 'w \<Rightarrow> 'w \<times> http_response" where
  "snapshotImportHandler k node fs exists sn cols_opt fallback r w =
     (if rq_Method r \<noteq> ''POST'' then (w, not_allowed)
      else case node of None \<Rightarrow> (w, http_Error ''Import not available (no embedded DefraDB)'' 503)
      | Some db \<Rightarrow> (case sn of None \<Rightarrow> (w, http_Error ''Snapshots not enabled'' 404)
        | Some s \<Rightarrow> (let filename = rq_Query r ''file'' in
            if filename = [] then (w, http_Error (''Missing '' @ [CHR 0x27] @ ''file'' @ [CHR 0x27] @ '' query parameter'') 400)
            else let p = GetSnapshotPath exists s filename in
              if p = [] then (w, http_Error ''Snapshot not found'' 404)
              else case ImportKV k db fs p w of
                (w, Inl e) \<Rightarrow> (w, import_failed e None)
              | (w, Inr res) \<Rightarrow> (case (case cols_opt of Some c \<Rightarrow> Inr c | None \<Rightarrow> fallback) of
                  Inl e \<Rightarrow> (w, import_failed (Wrapped ''resolve collections for index rebuild: '' e []) (Some res))
                | Inr c \<Rightarrow> (case RebuildAllIndexes db (AllCollections c) w of
                    (w, Some e) \<Rightarrow> (w, import_failed e (Some res))
                  | (w, None) \<Rightarrow> (w, json_ok (ImportOk res)))))))"

section \<open>Lemmas\<close>

lemma trim_space_trimmed: "trim_space s = trim_space (trim_space s)"
proof -
  have "dropWhile is_space (rev (dropWhile is_space (rev t))) = rev (dropWhile is_space (rev t))" if "dropWhile is_space t = t" for t
  proof (cases t)
    case (Cons c u)
    then have c: "\<not> is_space c" using that by (metis dropWhile_eq_self_iff list.sel(1) list.discI)
    have "rev (dropWhile is_space (rev t)) = c # rev (dropWhile is_space (rev u))" using c by (simp add: Cons dropWhile_append3)
    then show ?thesis using c by simp
  qed simp
  then show ?thesis unfolding trim_space_def by simp
qed

lemma extractToken_trimmed: "trim_space (extractToken r) = extractToken r"
  using trim_space_trimmed by (auto simp: extractToken_def Let_def trim_space_def)

text \<open>The registered address is a public one: of the host the request names, or of the node's own addresses.\<close>

lemma connection_public:
  assumes "deriveConnectionString ip6 r p2p \<noteq> []"
  shows "(\<exists>host ip rest. isPublicIP4 (Some ip) \<and> ParseIP4 ip6 host = Some ip \<and> deriveConnectionString ip6 r p2p = ''/ip4/'' @ ip_text ip @ ''/tcp/'' @ rest)
    \<or> (\<exists>self addr. p2p \<noteq> None \<and> p2p_Self (the p2p) = Some self \<and> addr \<in> set (pi_Addresses self) \<and> isUsableIP4Multiaddr ip6 addr
        \<and> deriveConnectionString ip6 r p2p = addr @ p2p_sep @ pi_ID self)"
proof -
  obtain info self where i: "p2p = Some info" "p2p_Self info = Some self" "pi_ID self \<noteq> []"
    using assms by (auto simp: deriveConnectionString_def split: option.splits if_splits)
  show ?thesis
  proof (cases "requestHostIP ip6 r = []")
    case True
    then have "firstUsableP2PAddress ip6 (pi_Addresses self) \<noteq> []" using assms i by (auto simp: deriveConnectionString_def split: if_splits)
    then have "firstUsableP2PAddress ip6 (pi_Addresses self) \<in> set (filter (isUsableIP4Multiaddr ip6) (pi_Addresses self))"
      unfolding firstUsableP2PAddress_def by (cases "filter (isUsableIP4Multiaddr ip6) (pi_Addresses self)") (simp_all only: list.case list.set_intros)
    then show ?thesis using True i \<open>firstUsableP2PAddress ip6 (pi_Addresses self) \<noteq> []\<close> by (auto simp: deriveConnectionString_def)
  next
    case False
    then obtain h where h: "requestHostIP ip6 r = hostIP ip6 h" by (auto simp: requestHostIP_def split: if_splits)
    then obtain host ip where "isPublicIP4 (Some ip)" "ParseIP4 ip6 host = Some ip" "hostIP ip6 h = ip_text ip"
      using False by (auto simp: hostIP_def Let_def isPublicIP4_def split: if_splits option.splits)
    then show ?thesis using False i h by (auto simp: deriveConnectionString_def)
  qed
qed

lemma normalizeHex_idem: "normalizeHex (normalizeHex s) = normalizeHex s"
  by (auto simp: normalizeHex_def)

text \<open>A name that \<open>filepath.Base\<close> leaves alone can be the parent directory, which the check lets through.\<close>

lemma GetSnapshotPath_parent: "GetSnapshotPath exists s ''..'' = (let p = filepath_Join (sc_Dir (sn_cfg s)) ''..'' in if exists p then p else [])"
  by (simp add: GetSnapshotPath_def filepath_Base_def)

section \<open>The schema endpoints are guarded\<close>

text \<open>C28: unless authentication is switched off, every schema route serves its content exactly to requests whose token is
  a configured nonempty key. Without keys every request gets 503, without a token 401, with another token 403. A key
  with white space at an end admits no request.\<close>

theorem schema_guarded:
  assumes "newAuthenticator mode keys = Inr auth" "mode \<noteq> ''none''" "EnableSchemaEndpoint readFile sdl c auth = Inr routes"
    "route \<in> {route_schema, route_collection, route_collections}"
  shows "(\<exists>body_h. (\<forall>r. route routes r = (if filter (\<lambda>k. k \<noteq> []) keys = [] then writeJSONError 503 ''service_unavailable'' ''no API keys configured on server''
       else if extractToken r = [] then writeJSONError 401 ''unauthorized'' ''missing or empty credentials''
       else if extractToken r \<in> set keys then body_h r else writeJSONError 403 ''forbidden'' ''invalid credentials''))
     \<and> (\<forall>r. rs_Status (body_h r) \<in> {200, 404}))
     \<and> (\<forall>r k. trim_space k \<noteq> k \<longrightarrow> extractToken r \<noteq> k)"
proof -
  have a: "auth = BearerAuthenticator (set (filter (\<lambda>k. k \<noteq> []) keys))"
    using assms(1,2) by (auto simp: newAuthenticator_def NewBearerAuthenticator_def split: if_splits)
  obtain collectionH ents where h: "collectionHandler readFile c = Inr collectionH"
    "routes = \<lparr>route_schema = authMiddleware auth (newSchemaHandler sdl (prefix_of c)), route_collection = authMiddleware auth collectionH,
       route_collections = authMiddleware auth (collectionsListHandler (prefix_of c) ents)\<rparr>"
    using assms(3) by (auto simp: EnableSchemaEndpoint_def split: sum.splits)
  have "rs_Status (collectionH r) \<in> {200, 404}" for r
    using h(1) by (auto simp: collectionHandler_def head_or_def json_ok_def writeJSONError_def Let_def split: sum.splits option.splits)
  moreover have "rs_Status (newSchemaHandler sdl (prefix_of c) r) \<in> {200, 404}" "rs_Status (collectionsListHandler (prefix_of c) ents r) \<in> {200, 404}" for r
    by (simp_all add: newSchemaHandler_def collectionsListHandler_def head_or_def json_ok_def)
  ultimately obtain body_h where b: "route routes = authMiddleware auth body_h" "\<forall>r. rs_Status (body_h r) \<in> {200, 404}"
    using assms(4) h(2) by auto
  have "route routes r = (if filter (\<lambda>k. k \<noteq> []) keys = [] then writeJSONError 503 ''service_unavailable'' ''no API keys configured on server''
       else if extractToken r = [] then writeJSONError 401 ''unauthorized'' ''missing or empty credentials''
       else if extractToken r \<in> set keys then body_h r else writeJSONError 403 ''forbidden'' ''invalid credentials'')" for r
    by (auto simp: b(1) a authMiddleware_def Let_def filter_empty_conv)
  moreover have "extractToken r \<noteq> k" if "trim_space k \<noteq> k" for r k using that extractToken_trimmed [of r] by auto
  ultimately show ?thesis using b(2) by (intro conjI exI [of _ body_h] allI impI) blast+
qed

definition sample_request :: http_request where
  "sample_request = \<lparr>rq_Method = ''GET'', rq_Path = ''/api/v1/schema'', rq_Header = (\<lambda>h. if h = ''Authorization'' then ''BEARER k1 '' else []),
     rq_Host = [], rq_Query = (\<lambda>_. []), rq_PathValue = (\<lambda>_. [])\<rparr>"

lemma sample_token: "extractToken sample_request = ''k1''"
  by code_simp

lemma sample_routes: "\<exists>routes. EnableSchemaEndpoint sample_readFile [] sample_names (NewBearerAuthenticator [''k1'']) = Inr routes"
proof -
  have "case CollectionFiles sample_readFile sample_names of Inl _ \<Rightarrow> False | Inr _ \<Rightarrow> True" by code_simp
  then obtain fs where "CollectionFiles sample_readFile sample_names = Inr fs" by (auto split: sum.splits)
  then show ?thesis by (simp add: EnableSchemaEndpoint_def collectionHandler_def PrecomputeCollectionSDLs_def ListCollections_def)
qed

lemma schema_guarded_witness:
  "\<exists>routes. EnableSchemaEndpoint sample_readFile [] sample_names (NewBearerAuthenticator [''k1'']) = Inr routes
     \<and> rs_Status (route_schema routes sample_request) \<in> {200, 404}
     \<and> rs_Status (route_schema routes (sample_request\<lparr>rq_Header := (\<lambda>_. [])\<rparr>)) = 401"
proof -
  obtain routes where r: "EnableSchemaEndpoint sample_readFile [] sample_names (NewBearerAuthenticator [''k1'']) = Inr routes"
    using sample_routes by blast
  have a: "newAuthenticator ''token'' [''k1''] = Inr (NewBearerAuthenticator [''k1''])" by (simp add: newAuthenticator_def)
  have t: "extractToken (sample_request\<lparr>rq_Header := (\<lambda>_. [])\<rparr>) = []" by (simp add: extractToken_def trim_space_def)
  obtain body_h where b: "\<And>q. route_schema routes q = (if extractToken q = [] then writeJSONError 401 ''unauthorized'' ''missing or empty credentials''
       else if extractToken q \<in> set [''k1''] then body_h q else writeJSONError 403 ''forbidden'' ''invalid credentials'')"
      "\<And>q. rs_Status (body_h q) \<in> {200, 404}"
    using schema_guarded [OF a _ r, of route_schema] by auto
  have "rs_Status (route_schema routes sample_request) \<in> {200, 404}" unfolding b(1) sample_token using b(2) by simp
  moreover have "rs_Status (route_schema routes (sample_request\<lparr>rq_Header := (\<lambda>_. [])\<rparr>)) = 401" unfolding b(1) t by (simp add: writeJSONError_def)
  ultimately show ?thesis using r by blast
qed

end
