(* ===== verification/Indexer.thy ===== *)
theory Indexer
  imports Server
begin

text \<open>
  Files \<open>pkg/indexer/indexer.go\<close>, \<open>pkg/indexer/replication_filter.go\<close> and \<open>pkg/defra/waitForDefra.go\<close>: the start height, the
  readiness wait, the health and gauge reports, the teardown, and the start and stop of the indexer as a step relation.

  Subsystems are present or absent in the state; the operations that close them are the events \<open>teardownSubsystems\<close>
  returns. The processor itself is the theory \<open>Process_Blocks\<close>.
\<close>

section \<open>State and reports\<close>

record ChainIndexer =
  shouldIndex :: bool
  isStarted :: bool
  hasIndexedAtLeastOneBlock :: bool
  ci_fetcher :: bool
  ci_defraNode :: bool
  ci_networkHandler :: bool
  ci_healthServer :: bool
  ci_pruner :: bool
  ci_snapshotter :: bool
  ci_currentBlock :: int
  chainHead :: int
  lastProcessedTime :: "int option"

definition CreateIndexer :: "int \<Rightarrow> Config option \<Rightarrow> ChainIndexer result" where
  "CreateIndexer now c = (case c of
     None \<Rightarrow> Inl (NewConfigurationError now ''indexer'' ''CreateIndexer'' ''config is nil'' ''host=nil, port=nil'' None
       [WithMetadata ''host'' (AString ''nil''), WithMetadata ''port'' (AString ''nil'')])
   | Some _ \<Rightarrow> Inr \<lparr>shouldIndex = False, isStarted = False, hasIndexedAtLeastOneBlock = False, ci_fetcher = False, ci_defraNode = False,
       ci_networkHandler = False, ci_healthServer = False, ci_pruner = False, ci_snapshotter = False, ci_currentBlock = 0, chainHead = 0,
       lastProcessedTime = None\<rparr>)"

definition setLifecycleFlags :: "bool \<Rightarrow> bool \<Rightarrow> ChainIndexer \<Rightarrow> ChainIndexer" where
  "setLifecycleFlags should started i = i\<lparr>shouldIndex := should, isStarted := started\<rparr>"

definition updateBlockInfo :: "int \<Rightarrow> int \<Rightarrow> ChainIndexer \<Rightarrow> ChainIndexer" where
  "updateBlockInfo now blockNum i = i\<lparr>ci_currentBlock := blockNum, lastProcessedTime := Some now\<rparr>"

definition gaugeState :: "ChainIndexer \<Rightarrow> bool \<times> int \<times> int" where
  "gaugeState i = (isStarted i, ci_currentBlock i, chainHead i)"

definition observeHeight :: "ChainIndexer \<Rightarrow> int option" where
  "observeHeight i = (case gaugeState i of (started, height, _) \<Rightarrow> if started \<and> height > 0 then Some height else None)"

definition observeChainHead :: "ChainIndexer \<Rightarrow> int option" where
  "observeChainHead i = (case gaugeState i of (started, _, head) \<Rightarrow> if started \<and> head > 0 then Some head else None)"

definition observeLag :: "ChainIndexer \<Rightarrow> int option" where
  "observeLag i = (case gaugeState i of (started, height, head) \<Rightarrow>
     if started \<and> height > 0 \<and> head > 0 then Some (max (wrap_int64 (head - height)) 0) else None)"

text \<open>\<open>active\<close> is \<open>ActivePeers\<close> of the database, asked only with an active network.\<close>

definition observePeers :: "bool \<Rightarrow> string list result \<Rightarrow> ChainIndexer \<Rightarrow> nat option" where
  "observePeers networkIsActive active i = (if \<not> isStarted i \<or> \<not> ci_defraNode i \<or> \<not> ci_networkHandler i \<or> \<not> networkIsActive then None
     else case active of Inl _ \<Rightarrow> None | Inr addrs \<Rightarrow> Some (card (pi_ID ` set (fst (BootstrapIntoPeers addrs)))))"

text \<open>One poll; a failed read stores 0.\<close>

definition pollChainHead :: "int result \<Rightarrow> ChainIndexer \<Rightarrow> ChainIndexer" where
  "pollChainHead head i = i\<lparr>chainHead := (case head of Inl _ \<Rightarrow> 0 | Inr h \<Rightarrow> h)\<rparr>"

definition IsHealthy :: "int \<Rightarrow> ChainIndexer \<Rightarrow> bool" where
  "IsHealthy now i \<longleftrightarrow> isStarted i \<and> (case lastProcessedTime i of None \<Rightarrow> True | Some t \<Rightarrow> now - t < 600 * 1000000000)"

definition GetSourceChainInfo :: "ChainConfig option \<Rightarrow> string \<times> int" where
  "GetSourceChainInfo c = (case c of None \<Rightarrow> ([], 0)
     | Some ch \<Rightarrow> (let name = to_lower (trim_space (ChainName ch)); net = to_lower (trim_space (Network ch)) in
         if (name = [] \<or> name = ''ethereum'') \<and> (net = [] \<or> net = ''mainnet'') then (''ethereum'', 1) else ([], 0)))"

text \<open>The replication filter refuses every document.\<close>

definition AllowReplication :: "string \<Rightarrow> string \<Rightarrow> (string \<Rightarrow> 'v option) \<Rightarrow> bool" where
  "AllowReplication c d v = False"

section \<open>Peer information\<close>

fun merge_peer :: "(string \<Rightarrow> string) \<Rightarrow> PeerInfo \<Rightarrow> ServerPeerInfo list \<Rightarrow> ServerPeerInfo list" where
  "merge_peer key p [] = [\<lparr>pi_Addresses = pi_Addresses p, pi_ID = pi_ID p, pi_PublicKey = key (pi_ID p)\<rparr>]"
| "merge_peer key p (q # qs) = (if pi_ID q = pi_ID p then q\<lparr>pi_Addresses := pi_Addresses q @ pi_Addresses p\<rparr> # qs else q # merge_peer key p qs)"

text \<open>\<open>own\<close> and \<open>active\<close> are the answers of the database, \<open>key\<close> is \<open>extractPublicKeyFromPeerID\<close>, which decodes with the peer
  library. The list has the peers in the order of their first address; the code's order is that of a map.\<close>

definition GetPeerInfo :: "(string \<Rightarrow> string) \<Rightarrow> bool \<Rightarrow> string list result \<Rightarrow> string list result \<Rightarrow> ChainIndexer \<Rightarrow> P2PInfo result" where
  "GetPeerInfo key networkIsActive own active i =
     (if \<not> ci_defraNode i then Inl (ErrMsg ''defra is nil - peer info not available for external DefraDB'')
      else case own of Inl e \<Rightarrow> Inl (Wrapped ''error fetching own peer info: '' e [])
      | Inr ownAddresses \<Rightarrow> (let ownPeers = fst (BootstrapIntoPeers ownAddresses);
            activePeers = fst (BootstrapIntoPeers (case active of Inl _ \<Rightarrow> [] | Inr a \<Rightarrow> a)) in
          Inr \<lparr>p2p_active = (ci_networkHandler i \<and> networkIsActive),
            p2p_Self = (case ownPeers of [] \<Rightarrow> None
              | p # _ \<Rightarrow> Some \<lparr>pi_Addresses = concat (map pi_Addresses ownPeers), pi_ID = pi_ID p, pi_PublicKey = key (pi_ID p)\<rparr>),
            p2p_Peers = fold (merge_peer key) activePeers []\<rparr>))"

section \<open>Waiting for the database\<close>

record wait_env =
  we_request :: "nat \<Rightarrow> goerror option"
  we_do :: "nat \<Rightarrow> nat result"
  we_ctx :: "nat \<Rightarrow> goerror option"
  we_sleep :: "nat \<Rightarrow> goerror option"

definition wait_aborted :: "goerror \<Rightarrow> goerror" where
  "wait_aborted e = Wrapped ''wait for DefraDB aborted: '' e []"

text \<open>\<open>we_sleep\<close> is the context's error when it ends during the pause of the attempt.\<close>

fun wait_attempts :: "wait_env \<Rightarrow> nat \<Rightarrow> nat \<Rightarrow> goerror option" where
  "wait_attempts e attempt 0 = Some (Wrapped [] (ErrMsg ''DefraDB failed to become ready'') ('' after '' @ itoa 15 @ '' retry attempts''))"
| "wait_attempts e attempt (Suc n) = (case we_request e attempt of Some err \<Rightarrow> Some (Wrapped ''failed to create request: '' err [])
   | None \<Rightarrow> (let again = (case we_sleep e attempt of Some c \<Rightarrow> Some (wait_aborted c) | None \<Rightarrow> wait_attempts e (attempt + 1) n) in
       case we_do e attempt of
         Inl _ \<Rightarrow> (case we_ctx e attempt of Some c \<Rightarrow> Some (wait_aborted c) | None \<Rightarrow> again)
       | Inr status \<Rightarrow> if status = 200 then None else again))"

definition WaitForDefraDB :: "wait_env \<Rightarrow> goerror option" where
  "WaitForDefraDB e = wait_attempts e 1 15"

lemma wait_attempts_ready:
  assumes "wait_attempts e k n = None"
  shows "\<exists>j. k \<le> j \<and> j < k + n \<and> we_do e j = Inr 200"
  using assms
proof (induction n arbitrary: k)
  case (Suc n)
  show ?case
  proof (cases "we_do e k = Inr 200")
    case False
    then have "wait_attempts e (k + 1) n = None" using Suc.prems by (auto simp: Let_def split: option.splits sum.splits if_splits)
    from Suc.IH [OF this] obtain j where "k + 1 \<le> j" "j < k + 1 + n" "we_do e j = Inr 200" by blast
    then show ?thesis by (intro exI [of _ j]) auto
  qed auto
qed simp

section \<open>Start height\<close>

text \<open>\<open>stored\<close> is the converter's \<open>GetHighestStoredBlockNumber\<close>, \<open>latest\<close> the fetcher's \<open>FetchHighestBlockNumber\<close>. The height
  is written back to the configuration. \<open>int64\<close> arithmetic wraps.\<close>

definition resolveStartHeight :: "int result \<Rightarrow> int result \<Rightarrow> IndexerConfig \<Rightarrow> IndexerConfig \<times> int result" where
  "resolveStartHeight stored latest c = (let configuredHeight = StartHeight c; highestExisting = (case stored of Inl _ \<Rightarrow> 0 | Inr n \<Rightarrow> n) in
     case latest of Inl e \<Rightarrow> (c, Inl (Wrapped ''failed to get latest block number from RPC: '' e []))
     | Inr chainTip \<Rightarrow> (let startBuffer = StartBuffer c;
         c' = (if highestExisting > 0 then
             (let gap = wrap_int64 (chainTip - highestExisting) in
              c\<lparr>StartHeight := (if gap > startBuffer then wrap_int64 (chainTip - startBuffer) else wrap_int64 (highestExisting + 1))\<rparr>)
           else if configuredHeight > 0 then c
           else c\<lparr>StartHeight := max (wrap_int64 (chainTip - startBuffer)) 0\<rparr>) in
       (c', Inr (StartHeight c'))))"

section \<open>Teardown\<close>

datatype close_event = StopSnapshotter | StopPruner | StopHealthServer | CloseFetcher | StopNetworkHandler | CloseDefraNode

definition teardownSubsystems :: "ChainIndexer \<Rightarrow> ChainIndexer \<times> close_event list" where
  "teardownSubsystems i = ((setLifecycleFlags False False i)\<lparr>ci_snapshotter := False, ci_pruner := False, ci_fetcher := False, ci_networkHandler := False, ci_defraNode := False\<rparr>,
     map snd (filter fst [(ci_snapshotter i, StopSnapshotter), (ci_pruner i, StopPruner), (ci_healthServer i, StopHealthServer),
       (ci_fetcher i, CloseFetcher), (ci_networkHandler i, StopNetworkHandler), (ci_defraNode i, CloseDefraNode)]))"

text \<open>A second teardown closes nothing again but the health server, which stays in its field.\<close>

lemma teardown_again:
  "snd (teardownSubsystems (fst (teardownSubsystems i))) = (if ci_healthServer i then [StopHealthServer] else [])"
  by (simp add: teardownSubsystems_def setLifecycleFlags_def)

section \<open>Where indexing resumes\<close>

text \<open>A height for which the sums and differences of the start height stay within 64 bits.\<close>

definition plain_height :: "int \<Rightarrow> bool" where
  "plain_height h \<longleftrightarrow> 0 \<le> h \<and> h < 2 ^ 62"

lemma wrap_int64_plain: "- (2 ^ 62) \<le> h \<Longrightarrow> h \<le> 2 ^ 62 \<Longrightarrow> wrap_int64 h = h"
  by (simp add: wrap_int64_def)

text \<open>C27: indexing resumes right above the highest stored block, or the start buffer below the chain tip when that is
  higher, so never at or below a stored block. Without stored blocks, or when they cannot be read, it starts at the
  configured height, and else the start buffer below the tip. The height is also written to the configuration, and only
  an unreachable node makes it fail.\<close>

theorem resolveStartHeight_resumes:
  assumes "plain_height tip" "plain_height (StartBuffer c)" "case stored of Inl _ \<Rightarrow> True | Inr n \<Rightarrow> plain_height n"
  shows "resolveStartHeight stored (Inr tip) c = (let h = (case stored of
        Inr n \<Rightarrow> if n > 0 then max (n + 1) (tip - StartBuffer c) else if StartHeight c > 0 then StartHeight c else max (tip - StartBuffer c) 0
      | Inl _ \<Rightarrow> if StartHeight c > 0 then StartHeight c else max (tip - StartBuffer c) 0) in (c\<lparr>StartHeight := h\<rparr>, Inr h))
    \<and> (\<forall>e. \<exists>e'. resolveStartHeight stored (Inl e) c = (c, Inl e'))"
proof -
  have w: "wrap_int64 (tip - StartBuffer c) = tip - StartBuffer c" using assms(1,2) by (intro wrap_int64_plain) (auto simp: plain_height_def)
  have n: "wrap_int64 (tip - n) = tip - n" "wrap_int64 (n + 1) = n + 1" if "plain_height n" for n
    using assms(1) that by (auto intro!: wrap_int64_plain simp: plain_height_def)
  show ?thesis using assms(3) w n by (cases stored) (auto simp: resolveStartHeight_def Let_def max_def)
qed

definition sample_indexer :: IndexerConfig where
  "sample_indexer = \<lparr>StartHeight = 0, ConcurrentBlocks = 8, ReceiptWorkers = 4, ix_MaxDocsPerTxn = 100, ix_MaxTxDocsPerBatch = 0, ix_MaxLogDocsPerBatch = 0,
     ix_MaxALEDocsPerBatch = 0, BlocksPerMinute = 0, HealthServerPort = 8080, OpenBrowserOnStart = False, StartBuffer = 100, SchemaAuthMode = ''token'',
     SchemaAPIKeys = []\<rparr>"

lemma resolveStartHeight_resumes_witness:
  "snd (resolveStartHeight (Inr 950) (Inr 1000) sample_indexer) = Inr 951 \<and> snd (resolveStartHeight (Inr 400) (Inr 1000) sample_indexer) = Inr 900"
  using resolveStartHeight_resumes [of 1000 sample_indexer "Inr 950"] resolveStartHeight_resumes [of 1000 sample_indexer "Inr 400"]
  by (simp add: plain_height_def sample_indexer_def Let_def)

end
