(* ===== verification/Indexer_Life.thy ===== *)
theory Indexer_Life
  imports Indexer
begin

text \<open>
  The start and the stop of the indexer (\<open>StartIndexing\<close>, \<open>runConcurrentIndexing\<close>, \<open>StopIndexing\<close> and the functions they
  share in \<open>pkg/indexer/indexer.go\<close>) as interleaved threads: one start, one stop from outside, and the stop that the exit
  guard of a failed start calls. Each step is one section under the mutex, or one wait. Two timeouts bound the waits of a
  stop; \<open>lf_timedOut\<close> records that one of them fired.

  The context of the indexing loop derives from that of the initialisation, so cancelling the latter stops both.
\<close>

section \<open>The threads\<close>

datatype start_error = AbortError | GenuineError

text \<open>The start: in its initialisation, with the loop registered, in the loop, past \<open>markStartSettled\<close> with its result, in
  the stop of the exit guard, or returned.\<close>

datatype start_pc = SIdle | SInit | SRegistered | SLoop | SSettled "start_error option" | SGuard start_error | SReturned "start_error option"

datatype caller = External | Guard

datatype stop_at = PIdle | PWant | PCancel | PSnap | PWait | PRead | PWaitLoop | PTear | PDone

record life =
  lf_start :: start_pc
  startInProgress :: bool
  startDone :: bool
  initCancel :: bool
  lf_stopCause :: bool
  indexingCancel :: bool
  lf_loopCause :: bool
  lf_indexer :: ChainIndexer
  stopMu :: "caller option"
  lf_stop :: "caller \<Rightarrow> stop_at"
  lf_timedOut :: bool
  lf_early :: bool

section \<open>The operations on the shared fields\<close>

definition beginStart :: "life \<Rightarrow> life" where
  "beginStart s = s\<lparr>startInProgress := True, startDone := True, initCancel := True\<rparr>"

text \<open>\<open>startDone\<close> is true while the field holds an open channel; closing it sets the field to nil.\<close>

definition markStartSettled :: "life \<Rightarrow> life" where
  "markStartSettled s = s\<lparr>startDone := False, startInProgress := False, initCancel := False\<rparr>"

text \<open>Whether \<open>finishStart\<close> reports an error as nil: the start was stopped and failed for that reason.\<close>

definition finish_aborted :: "life \<Rightarrow> start_error \<Rightarrow> bool" where
  "finish_aborted s e \<longleftrightarrow> lf_stopCause s \<and> e = AbortError"

definition stop_to :: "caller \<Rightarrow> stop_at \<Rightarrow> life \<Rightarrow> life" where
  "stop_to c p s = s\<lparr>lf_stop := (lf_stop s)(c := p)\<rparr>"

text \<open>The loop ended because of a stop: nil whatever the processor returned.\<close>

definition loop_result :: "life \<Rightarrow> start_error option \<Rightarrow> start_error option" where
  "loop_result s r = (if lf_loopCause s \<or> lf_stopCause s then None else r)"

section \<open>Steps\<close>

inductive life_step :: "life \<Rightarrow> life \<Rightarrow> bool" where
  begin_start: "lf_start s = SIdle \<Longrightarrow> life_step s ((beginStart s)\<lparr>lf_start := SInit\<rparr>)"
| init_subsystem: "lf_start s = SInit \<Longrightarrow> isStarted i = isStarted (lf_indexer s) \<Longrightarrow> life_step s (s\<lparr>lf_indexer := i\<rparr>)"
| init_failed: "lf_start s = SInit \<Longrightarrow> e = AbortError \<longrightarrow> lf_stopCause s \<Longrightarrow>
    life_step s ((markStartSettled s)\<lparr>lf_start := SSettled (Some e)\<rparr>)"
| init_without_loop: "lf_start s = SInit \<Longrightarrow> life_step s ((markStartSettled s)\<lparr>lf_start := SSettled None\<rparr>)"
| register_loop: "lf_start s = SInit \<Longrightarrow>
    life_step s (s\<lparr>lf_start := SRegistered, indexingCancel := True, lf_indexer := setLifecycleFlags True True (lf_indexer s)\<rparr>)"
| hand_off: "lf_start s = SRegistered \<Longrightarrow> life_step s ((markStartSettled s)\<lparr>lf_start := SLoop\<rparr>)"
| loop_progress: "lf_start s = SLoop \<Longrightarrow> life_step s (s\<lparr>lf_indexer := updateBlockInfo now n (lf_indexer s)\<rparr>)"
| loop_end: "lf_start s = SLoop \<Longrightarrow> r \<noteq> Some AbortError \<Longrightarrow>
    life_step s ((markStartSettled s)\<lparr>lf_start := SSettled (loop_result s r), indexingCancel := False\<rparr>)"
| finish_nil: "lf_start s = SSettled None \<Longrightarrow> life_step s (s\<lparr>lf_start := SReturned None\<rparr>)"
| finish_abort: "lf_start s = SSettled (Some e) \<Longrightarrow> finish_aborted s e \<Longrightarrow> life_step s (s\<lparr>lf_start := SReturned None\<rparr>)"
| finish_guard: "lf_start s = SSettled (Some e) \<Longrightarrow> \<not> finish_aborted s e \<Longrightarrow> life_step s ((stop_to Guard PWant s)\<lparr>lf_start := SGuard e\<rparr>)"
| guard_done: "lf_start s = SGuard e \<Longrightarrow> lf_stop s Guard = PDone \<Longrightarrow> life_step s (s\<lparr>lf_start := SReturned (Some e)\<rparr>)"
| stop_call: "lf_stop s External = PIdle \<Longrightarrow> life_step s (stop_to External PWant s)"
| stop_lock: "lf_stop s c = PWant \<Longrightarrow> stopMu s = None \<Longrightarrow> life_step s ((stop_to c PCancel s)\<lparr>stopMu := Some c\<rparr>)"
| stop_cancel: "lf_stop s c = PCancel \<Longrightarrow> life_step s ((stop_to c PSnap s)\<lparr>lf_stopCause := lf_stopCause s \<or> initCancel s\<rparr>)"
| stop_snap: "lf_stop s c = PSnap \<Longrightarrow>
    life_step s ((stop_to c (if startInProgress s \<and> startDone s then PWait else PRead) s)\<lparr>lf_early := lf_early s \<or> lf_start s = SIdle\<rparr>)"
| stop_settled: "lf_stop s c = PWait \<Longrightarrow> \<not> startDone s \<Longrightarrow> life_step s (stop_to c PRead s)"
| stop_settle_timeout: "lf_stop s c = PWait \<Longrightarrow> life_step s ((stop_to c PRead s)\<lparr>lf_timedOut := True\<rparr>)"
| stop_read: "lf_stop s c = PRead \<Longrightarrow>
    life_step s ((stop_to c (if indexingCancel s then PWaitLoop else PTear) s)\<lparr>lf_loopCause := lf_loopCause s \<or> indexingCancel s\<rparr>)"
| stop_drained: "lf_stop s c = PWaitLoop \<Longrightarrow> \<not> indexingCancel s \<Longrightarrow> life_step s (stop_to c PTear s)"
| stop_drain_timeout: "lf_stop s c = PWaitLoop \<Longrightarrow> life_step s ((stop_to c PTear s)\<lparr>lf_timedOut := True\<rparr>)"
| stop_tear: "lf_stop s c = PTear \<Longrightarrow>
    life_step s ((stop_to c PDone s)\<lparr>lf_indexer := fst (teardownSubsystems (lf_indexer s)), stopMu := None\<rparr>)"

definition life_init :: "ChainIndexer \<Rightarrow> life" where
  "life_init i = \<lparr>lf_start = SIdle, startInProgress = False, startDone = False, initCancel = False, lf_stopCause = False, indexingCancel = False,
     lf_loopCause = False, lf_indexer = i, stopMu = None, lf_stop = (\<lambda>_. PIdle), lf_timedOut = False, lf_early = False\<rparr>"

section \<open>Invariant\<close>

abbreviation (input) initialising :: "life \<Rightarrow> bool" where
  "initialising s \<equiv> lf_start s \<in> {SInit, SRegistered}"

definition fields_ok :: "life \<Rightarrow> bool" where
  "fields_ok s \<longleftrightarrow> startInProgress s = initialising s \<and> startDone s = initialising s \<and> initCancel s = initialising s
     \<and> indexingCancel s = (lf_start s \<in> {SRegistered, SLoop})"

fun holds_mu :: "stop_at \<Rightarrow> bool" where
  "holds_mu PIdle = False" | "holds_mu PWant = False" | "holds_mu PDone = False" | "holds_mu _ = True"

definition lock_ok :: "life \<Rightarrow> bool" where
  "lock_ok s \<longleftrightarrow> (\<forall>c. (stopMu s = Some c) = holds_mu (lf_stop s c))"

lemma lock_unique: "lock_ok s \<Longrightarrow> holds_mu (lf_stop s c) \<Longrightarrow> holds_mu (lf_stop s d) \<Longrightarrow> d = c"
  unfolding lock_ok_def by (metis option.inject)

text \<open>The guard's stop runs while the start is in it, and never waits.\<close>

fun guard_at :: "start_pc \<Rightarrow> stop_at \<Rightarrow> bool" where
  "guard_at (SGuard e) p = (p \<noteq> PIdle \<and> p \<noteq> PWait \<and> p \<noteq> PWaitLoop)"
| "guard_at (SReturned (Some e)) p = (p = PDone)"
| "guard_at _ p = (p = PIdle)"

definition guard_ok :: "life \<Rightarrow> bool" where
  "guard_ok s \<longleftrightarrow> guard_at (lf_start s) (lf_stop s Guard)"

lemma guard_running: "guard_at st p \<Longrightarrow> p \<noteq> PIdle \<Longrightarrow> p \<noteq> PDone \<Longrightarrow> \<exists>e. st = SGuard e"
  by (induction st p rule: guard_at.induct) auto

text \<open>How far the start is, and how far it must be for a stop at its point: a stop past its first wait has waited for the
  initialisation, and past its second for the loop.\<close>

fun start_phase :: "start_pc \<Rightarrow> nat" where
  "start_phase SIdle = 0" | "start_phase SInit = 1" | "start_phase SRegistered = 1" | "start_phase SLoop = 2" | "start_phase _ = 3"

fun stop_needs :: "stop_at \<Rightarrow> nat" where
  "stop_needs PWait = 1" | "stop_needs PRead = 2" | "stop_needs PWaitLoop = 2" | "stop_needs PTear = 3" | "stop_needs PDone = 3" | "stop_needs _ = 0"

definition waited_ok :: "life \<Rightarrow> bool" where
  "waited_ok s \<longleftrightarrow> lf_timedOut s \<or> lf_early s \<or> (\<forall>c. stop_needs (lf_stop s c) \<le> start_phase (lf_start s))"

lemma start_phase_fields:
  assumes "fields_ok s"
  shows "startDone s = (start_phase (lf_start s) = 1)" "startInProgress s = (start_phase (lf_start s) = 1)"
    "lf_start s = SIdle \<longleftrightarrow> start_phase (lf_start s) = 0" "\<not> indexingCancel s \<Longrightarrow> start_phase (lf_start s) \<noteq> 2" "start_phase (lf_start s) \<le> 3"
  using assms by (cases "lf_start s"; simp add: fields_ok_def)+

text \<open>Abort errors come from a stop only, and never reach the caller of the start.\<close>

definition errors_ok :: "life \<Rightarrow> bool" where
  "errors_ok s \<longleftrightarrow> (lf_start s = SSettled (Some AbortError) \<longrightarrow> lf_stopCause s)
     \<and> (\<forall>e. lf_start s = SGuard e \<or> lf_start s = SReturned (Some e) \<longrightarrow> e = GenuineError)"

definition all_down :: "ChainIndexer \<Rightarrow> bool" where
  "all_down i \<longleftrightarrow> \<not> shouldIndex i \<and> \<not> isStarted i \<and> \<not> ci_fetcher i \<and> \<not> ci_defraNode i \<and> \<not> ci_networkHandler i \<and> \<not> ci_pruner i \<and> \<not> ci_snapshotter i"

definition down_ok :: "life \<Rightarrow> bool" where
  "down_ok s \<longleftrightarrow> lf_timedOut s \<or> lf_early s \<or> (\<forall>c. lf_stop s c = PDone \<longrightarrow> all_down (lf_indexer s))"

lemmas life_ops = beginStart_def markStartSettled_def stop_to_def

lemma fields_step: "life_step s t \<Longrightarrow> fields_ok s \<Longrightarrow> fields_ok t"
  by (induction rule: life_step.induct) (auto simp: life_ops fields_ok_def)

lemma lock_step: "life_step s t \<Longrightarrow> guard_ok s \<Longrightarrow> lock_ok s \<Longrightarrow> lock_ok t"
proof (induction rule: life_step.induct)
  case (stop_tear s c)
  then have "lf_stop s d \<noteq> PTear \<and> \<not> holds_mu (lf_stop s d)" if "d \<noteq> c" for d
    using that lock_unique [of s c d] by auto
  then show ?case by (auto simp: life_ops lock_ok_def)
next
  case (finish_guard s e)
  then have "lf_stop s Guard = PIdle" by (auto simp: guard_ok_def)
  then show ?case using finish_guard.prems(2) by (auto simp: life_ops lock_ok_def)
qed (auto simp: life_ops lock_ok_def)

lemma guard_stop_step:
  assumes "guard_ok s" "lf_stop s c = p" "p \<noteq> PIdle" "p \<noteq> PDone" "q \<noteq> PIdle" "c = Guard \<Longrightarrow> q \<noteq> PWait \<and> q \<noteq> PWaitLoop"
    "lf_start t = lf_start s" "lf_stop t = (lf_stop s)(c := q)"
  shows "guard_ok t"
proof (cases c)
  case Guard
  then obtain e where "lf_start s = SGuard e" using assms(1-4) guard_running unfolding guard_ok_def by blast
  then show ?thesis using assms(5-8) Guard by (simp add: guard_ok_def)
qed (use assms in \<open>simp add: guard_ok_def\<close>)

lemma guard_settled: "fields_ok s \<Longrightarrow> guard_ok s \<Longrightarrow> lf_stop s Guard = PSnap \<or> lf_stop s Guard = PRead \<Longrightarrow> \<not> startInProgress s \<and> \<not> indexingCancel s"
  using guard_running [of "lf_start s" "lf_stop s Guard"] by (auto simp: guard_ok_def fields_ok_def)

lemma guard_step: "life_step s t \<Longrightarrow> fields_ok s \<Longrightarrow> guard_ok s \<Longrightarrow> guard_ok t"
proof (induction rule: life_step.induct)
  case (stop_snap s c)
  show ?case by (rule guard_stop_step [of s c PSnap "if startInProgress s \<and> startDone s then PWait else PRead"]) (use stop_snap guard_settled [of s] in \<open>auto simp: life_ops\<close>)
next
  case (stop_read s c)
  show ?case by (rule guard_stop_step [of s c PRead "if indexingCancel s then PWaitLoop else PTear"]) (use stop_read guard_settled [of s] in \<open>auto simp: life_ops\<close>)
next
  case (stop_lock s c)
  show ?case by (rule guard_stop_step [of s c PWant PCancel]) (use stop_lock in \<open>auto simp: life_ops\<close>)
next
  case (stop_cancel s c)
  show ?case by (rule guard_stop_step [of s c PCancel PSnap]) (use stop_cancel in \<open>auto simp: life_ops\<close>)
next
  case (stop_settled s c)
  show ?case by (rule guard_stop_step [of s c PWait PRead]) (use stop_settled in \<open>auto simp: life_ops\<close>)
next
  case (stop_settle_timeout s c)
  show ?case by (rule guard_stop_step [of s c PWait PRead]) (use stop_settle_timeout in \<open>auto simp: life_ops\<close>)
next
  case (stop_drained s c)
  show ?case by (rule guard_stop_step [of s c PWaitLoop PTear]) (use stop_drained in \<open>auto simp: life_ops\<close>)
next
  case (stop_drain_timeout s c)
  show ?case by (rule guard_stop_step [of s c PWaitLoop PTear]) (use stop_drain_timeout in \<open>auto simp: life_ops\<close>)
next
  case (stop_tear s c)
  show ?case by (rule guard_stop_step [of s c PTear PDone]) (use stop_tear in \<open>auto simp: life_ops\<close>)
qed (simp_all add: life_ops guard_ok_def)

lemma waited_start_step:
  assumes "waited_ok s" "start_phase (lf_start s) \<le> start_phase (lf_start t)" "lf_stop t = lf_stop s" "lf_timedOut t = lf_timedOut s" "lf_early t = lf_early s"
  shows "waited_ok t"
  using assms unfolding waited_ok_def by (metis order_trans)

lemma waited_stop_step:
  assumes "waited_ok s" "lf_start t = lf_start s" "lf_stop t = (lf_stop s)(c := q)" "lf_timedOut s \<Longrightarrow> lf_timedOut t" "lf_early s \<Longrightarrow> lf_early t"
    "\<not> lf_timedOut t \<Longrightarrow> \<not> lf_early t \<Longrightarrow> stop_needs (lf_stop s c) \<le> start_phase (lf_start s) \<Longrightarrow> stop_needs q \<le> start_phase (lf_start s)"
  shows "waited_ok t"
proof (cases "lf_timedOut t \<or> lf_early t")
  case False
  then have "\<forall>c. stop_needs (lf_stop s c) \<le> start_phase (lf_start s)" using assms(1,4,5) unfolding waited_ok_def by blast
  then show ?thesis using assms(2,3,6) False by (simp add: waited_ok_def)
qed (auto simp: waited_ok_def)

lemma waited_step: "life_step s t \<Longrightarrow> fields_ok s \<Longrightarrow> waited_ok s \<Longrightarrow> waited_ok t"
proof (induction rule: life_step.induct)
  case (stop_call s)
  show ?case by (rule waited_stop_step [of s _ External PWant]) (use stop_call in \<open>simp_all add: life_ops\<close>)
next
  case (finish_guard s e)
  show ?case by (rule waited_stop_step [of "s\<lparr>lf_start := SGuard e\<rparr>" _ Guard PWant])
    (use finish_guard waited_start_step [of s "s\<lparr>lf_start := SGuard e\<rparr>"] in \<open>simp_all add: life_ops\<close>)
next
  case (stop_lock s c)
  show ?case by (rule waited_stop_step [of s _ c PCancel]) (use stop_lock in \<open>simp_all add: life_ops\<close>)
next
  case (stop_cancel s c)
  show ?case by (rule waited_stop_step [of s _ c PSnap]) (use stop_cancel in \<open>simp_all add: life_ops\<close>)
next
  case (stop_snap s c)
  show ?case by (rule waited_stop_step [of s _ c "if startInProgress s \<and> startDone s then PWait else PRead"])
    (use stop_snap start_phase_fields [of s] in \<open>auto simp: life_ops\<close>)
next
  case (stop_settled s c)
  show ?case by (rule waited_stop_step [of s _ c PRead]) (use stop_settled start_phase_fields [of s] in \<open>simp_all add: life_ops\<close>)
next
  case (stop_settle_timeout s c)
  show ?case by (simp add: waited_ok_def)
next
  case (stop_read s c)
  show ?case by (rule waited_stop_step [of s _ c "if indexingCancel s then PWaitLoop else PTear"])
    (use stop_read start_phase_fields [of s] in \<open>auto simp: life_ops\<close>)
next
  case (stop_drained s c)
  show ?case by (rule waited_stop_step [of s _ c PTear]) (use stop_drained start_phase_fields [of s] in \<open>simp_all add: life_ops\<close>)
next
  case (stop_drain_timeout s c)
  show ?case by (simp add: waited_ok_def)
next
  case (stop_tear s c)
  show ?case by (rule waited_stop_step [of s _ c PDone]) (use stop_tear in \<open>simp_all add: life_ops\<close>)
qed ((rule waited_start_step, assumption, simp_all add: life_ops)[1])+

lemma not_abort: "e \<noteq> AbortError \<Longrightarrow> e = GenuineError"
  by (cases e) simp_all

lemma errors_step: "life_step s t \<Longrightarrow> errors_ok s \<Longrightarrow> errors_ok t"
  by (induction rule: life_step.induct) (auto simp: life_ops errors_ok_def finish_aborted_def loop_result_def intro: not_abort)

text \<open>A start that can still change a subsystem or a flag is not past the loop, so no stop is done without a timeout.\<close>

lemma not_done: "waited_ok s \<Longrightarrow> start_phase (lf_start s) < 3 \<Longrightarrow> \<not> lf_timedOut s \<Longrightarrow> \<not> lf_early s \<Longrightarrow> lf_stop s c \<noteq> PDone"
  unfolding waited_ok_def by (metis linorder_not_less stop_needs.simps(5))

lemma down_busy:
  assumes "waited_ok s" "start_phase (lf_start s) < 3" "lf_stop t = lf_stop s" "lf_timedOut t = lf_timedOut s" "lf_early t = lf_early s"
  shows "down_ok t"
  using not_done [OF assms(1,2)] assms(3-5) by (auto simp: down_ok_def)

lemma down_same:
  assumes "down_ok s" "lf_indexer t = lf_indexer s" "\<And>c. lf_stop t c = PDone \<Longrightarrow> lf_stop s c = PDone" "lf_timedOut s \<Longrightarrow> lf_timedOut t" "lf_early s \<Longrightarrow> lf_early t"
  shows "down_ok t"
  using assms unfolding down_ok_def by metis

lemma down_step: "life_step s t \<Longrightarrow> waited_ok s \<Longrightarrow> down_ok s \<Longrightarrow> down_ok t"
proof (induction rule: life_step.induct)
  case (init_subsystem s i)
  show ?case by (rule down_busy [of s]) (use init_subsystem in simp_all)
next
  case (register_loop s)
  show ?case by (rule down_busy [of s]) (use register_loop in simp_all)
next
  case (loop_progress s now n)
  show ?case by (rule down_busy [of s]) (use loop_progress in simp_all)
next
  case (stop_tear s c)
  show ?case by (simp add: down_ok_def all_down_def teardownSubsystems_def setLifecycleFlags_def)
qed ((rule down_same, assumption, auto simp: life_ops split: if_splits)[1])+

section \<open>The guarantees of a stop\<close>

definition life_ok :: "life \<Rightarrow> bool" where
  "life_ok s \<longleftrightarrow> fields_ok s \<and> lock_ok s \<and> guard_ok s \<and> waited_ok s \<and> errors_ok s \<and> down_ok s"

lemma life_reachable:
  assumes "life_step\<^sup>*\<^sup>* (life_init i) s"
  shows "life_ok s"
  using assms
proof (induction rule: rtranclp_induct)
  case base
  show ?case by (simp add: life_ok_def life_init_def fields_ok_def lock_ok_def guard_ok_def waited_ok_def errors_ok_def down_ok_def)
next
  case (step s t)
  then show ?case unfolding life_ok_def
    using fields_step lock_step guard_step waited_step errors_step down_step by blast
qed

lemma past_loop: "start_phase st = 3 \<Longrightarrow> (\<exists>r. st = SSettled r \<or> st = SReturned r) \<or> (\<exists>e. st = SGuard e)"
  by (cases st) simp_all


text \<open>A stop that meets an initialisation, which then fails for that reason.\<close>

definition sample_life :: "ChainIndexer \<Rightarrow> life" where
  "sample_life i = (life_init i)\<lparr>lf_start := SReturned None, lf_stopCause := True, stopMu := Some External, lf_stop := (\<lambda>_. PIdle)(External := PTear)\<rparr>"

lemma sample_life_reachable: "life_step\<^sup>*\<^sup>* (life_init i) (sample_life i)"
proof -
  let ?s1 = "(beginStart (life_init i))\<lparr>lf_start := SInit\<rparr>"
  let ?s2 = "stop_to External PWant ?s1"
  let ?s3 = "(stop_to External PCancel ?s2)\<lparr>stopMu := Some External\<rparr>"
  let ?s4 = "(stop_to External PSnap ?s3)\<lparr>lf_stopCause := lf_stopCause ?s3 \<or> initCancel ?s3\<rparr>"
  let ?s5 = "(stop_to External (if startInProgress ?s4 \<and> startDone ?s4 then PWait else PRead) ?s4)\<lparr>lf_early := lf_early ?s4 \<or> lf_start ?s4 = SIdle\<rparr>"
  let ?s6 = "(markStartSettled ?s5)\<lparr>lf_start := SSettled (Some AbortError)\<rparr>"
  let ?s7 = "stop_to External PRead ?s6"
  let ?s8 = "(stop_to External (if indexingCancel ?s7 then PWaitLoop else PTear) ?s7)\<lparr>lf_loopCause := lf_loopCause ?s7 \<or> indexingCancel ?s7\<rparr>"
  let ?s9 = "?s8\<lparr>lf_start := SReturned None\<rparr>"
  note simps = life_ops life_init_def finish_aborted_def
  have "life_step\<^sup>*\<^sup>* (life_init i) ?s1" by (intro r_into_rtranclp begin_start) (simp add: simps)
  then have "life_step\<^sup>*\<^sup>* (life_init i) ?s2"
    by (rule rtranclp.rtrancl_into_rtrancl) (rule stop_call, simp add: simps)
  then have "life_step\<^sup>*\<^sup>* (life_init i) ?s3"
    by (rule rtranclp.rtrancl_into_rtrancl) (rule stop_lock, simp_all add: simps)
  then have "life_step\<^sup>*\<^sup>* (life_init i) ?s4"
    by (rule rtranclp.rtrancl_into_rtrancl) (rule stop_cancel, simp add: simps)
  then have "life_step\<^sup>*\<^sup>* (life_init i) ?s5"
    by (rule rtranclp.rtrancl_into_rtrancl) (rule stop_snap, simp add: simps)
  then have "life_step\<^sup>*\<^sup>* (life_init i) ?s6"
    by (rule rtranclp.rtrancl_into_rtrancl) (rule init_failed, simp_all add: simps)
  then have "life_step\<^sup>*\<^sup>* (life_init i) ?s7"
    by (rule rtranclp.rtrancl_into_rtrancl) (rule stop_settled, simp_all add: simps)
  then have "life_step\<^sup>*\<^sup>* (life_init i) ?s8"
    by (rule rtranclp.rtrancl_into_rtrancl) (rule stop_read, simp add: simps)
  then have "life_step\<^sup>*\<^sup>* (life_init i) ?s9"
    by (rule rtranclp.rtrancl_into_rtrancl) (rule finish_abort [of _ AbortError], simp_all add: simps)
  moreover have "?s9 = sample_life i" by (simp add: simps sample_life_def)
  ultimately show ?thesis by simp
qed


end
