(* ===== verification/Spec2Isabelle.thy ===== *)
theory Spec2Isabelle
  imports Process_Blocks Block_Props Pruner_Props Snapshot_Props Indexer_Life
begin

text \<open>
  A verification development of the Shinzo generator client, a Go program (under \<open>src/\<close>) that fetches the blocks of an
  EVM chain from a node, stores them as linked documents in an embedded DefraDB database, signs them, follows chain
  reorganisations, prunes old blocks, exports snapshots and serves its state over HTTP.

  \<^bold>\<open>The parts and how they interact.\<close> The indexer (\<open>pkg/indexer/indexer.go\<close>) loads the configuration, starts the
  database, applies the schema, resolves the start height and runs the block processor
  (\<open>concurrent_processor.go\<close>). The processor's workers fetch blocks (\<open>pkg/chains/evm/fetcher.go\<close>, over
  \<open>ethereum_client.go\<close>) and convert them (\<open>converter.go\<close>). Its collector checks the results in height order against
  the parent hashes, hands them to a pool that stores and signs them (\<open>pkg/defra/block_handler.go\<close>, with links
  stamped by \<open>link_stamper.go\<close>), and on a fork walks back to the common ancestor and rolls back
  (\<open>reorg_roller.go\<close>). Stored documents are tracked in the prune queue, which the pruner drains. The snapshotter
  exports ranges of stored blocks.

  \<^bold>\<open>Theories, in the order of the dependencies.\<close>
  \<^item> \<open>Go_Prelude\<close>, \<open>Go_Errors\<close>: strings, integers and lists as Go has them, and \<open>pkg/errors\<close>. An error is a value of
    \<open>goerror\<close>, a fallible function returns a sum, a panic is \<open>Panics\<close> of \<open>outcome\<close>, and \<open>int64\<close> arithmetic wraps where
    it can overflow.
  \<^item> \<open>Chain_Model\<close>, \<open>Hex_Codec\<close>, \<open>Evm_Stamper\<close>, \<open>Evm_Converter\<close>, \<open>Evm_Client\<close>, \<open>Evm_Fetcher\<close>: \<open>pkg/chains\<close> and
    \<open>pkg/utils/hex.go\<close>. Children get the docIDs of their own parents; a fetched block is complete, also on the
    fallback path.
  \<^item> \<open>Continuity\<close>: the checks of parent hashes, the retry loops and the walk-back, which finds a verified common
    ancestor.
  \<^item> \<open>Collector\<close> to \<open>Collector_Props\<close>: one run of the processor. The collector's operations are functions on one record,
    and the goroutines interleave in the relation \<open>pstep\<close>. In every interleaving the commits are consecutive, form a
    hash chain, stop when a run is decided, and lose no block; a run is never stuck.
  \<^item> \<open>Process_Blocks\<close>: the restarts after rollbacks, which end even under endless forks.
  \<^item> \<open>Block_Handler\<close>, \<open>Block_Store\<close>, \<open>Block_Props\<close>: storing and signing a block. Success means completeness, what is left
    behind is reported on every path, signatures attest exactly what was written, and a repeated store is harmless.
    One theorem shows how a conflict that persists hides a partial block.
  \<^item> \<open>Reorg_Roller\<close>: a rollback removes proven orphans only, and can be interrupted and repeated.
  \<^item> \<open>Prune_Queue\<close>, \<open>Pruner\<close>, \<open>Pruner_Props\<close>: the queue, its file, and the cycles of the pruner.
  \<^item> \<open>Snapshot_Sign\<close>, \<open>Snapshots\<close>, \<open>Merkle\<close>, \<open>Snapshot_Props\<close>: \<open>pkg/snapshot\<close>. Files hold whole, disjoint, aligned ranges,
    are read back unchanged, and a signature verifies exactly for the signed roots.
  \<^item> \<open>Config\<close>: \<open>config/config.go\<close>, whose result is well formed.
  \<^item> \<open>Schema_Apply\<close>: \<open>pkg/schema\<close>, \<open>schema_apply.go\<close> and the schema printer.
  \<^item> \<open>Network_Handler\<close>: peers, connection attempts and the reconnection loop of \<open>pkg/defradb\<close>, and how stopping it can
    wait forever.
  \<^item> \<open>Server\<close>: the handlers of \<open>pkg/server\<close> as functions of the request, and the authentication of the schema routes.
  \<^item> \<open>Indexer\<close>, \<open>Indexer_Life\<close>: the start height, the reports, and the interleaving of start and stop.

  \<^bold>\<open>Interfaces.\<close> Four locales state contracts between parts, each interpreted on the model's own definitions:
  \<open>link_stamper\<close> (as \<open>els\<close>), \<open>block_queue\<close> (\<open>iq\<close>), \<open>range_source\<close> (\<open>evm_ranges\<close>) and \<open>pruned_chain\<close> (\<open>evm_pruned\<close>). DefraDB,
  go-ethereum, the cryptography, the YAML, gzip and JSON codecs, the file system, the clock and the network are
  arguments. What is relied on of them is stated as hypotheses, such as \<open>db_laws\<close>, and every property with hypotheses
  has a witness at a concrete instance.

  \<^bold>\<open>Bounds.\<close> No definition takes fuel. Loops that end are structural or have a termination proof. The two that may not,
  \<open>rpc_retry\<close> and \<open>restart_loop\<close>, are partial functions into \<open>option\<close>, and that \<open>ProcessBlocks\<close> returns is a theorem. The readiness wait makes at most 15
  attempts, as in the code.

  \<^bold>\<open>Simplifications.\<close> The completion a store sends and the decrement of the WaitGroup are one step of the pool. The
  properties of \<open>Store\<close> see the database between its own calls unchanged by others, and a retry sees the original
  documents, since stamping again gives the same links. The collector to which the signature's own write appends is
  not read afterwards and is dropped. A prune cycle sees blocks tracked between cycles only; the snapshot loop sees a
  changing database between cycles. A concurrent receipt fetch that is abandoned leaves its slot empty. An operation
  of the network handler runs without another one in between, except for the loop and its stop. In the life cycle,
  teardown is one step, and so is the construction of each subsystem.

  \<^bold>\<open>Not modelled.\<close> The start of the embedded node and its identity (\<open>pkg/defradb/defra.go\<close>, \<open>pkg/defracontext\<close>,
  \<open>pkg/defra/defraHelpers.go\<close>) and \<open>pkg/signer\<close> only configure and call third-party code; \<open>pkg/logger\<close>, the telemetry
  and the main functions of the commands but the schema printer's are wiring and output; the file finder and the
  local address lookup wrap single calls of the system; the listener, the root page and the page template of the
  server are text; \<open>pkg/testutils\<close> serves the tests.
\<close>

end
